(* ===== verification/Go_Prelude.thy ===== *)
theory Go_Prelude
  imports Main
begin

text \<open>
  The prelude of the development: the types every component shares, and the generic
  operations and lemmas on lists, association lists and maps.

  Go values are modelled as follows. A Go string is the list of its bytes (\<open>string\<close>).
  An instant (\<open>time.Time\<close>) and a duration (\<open>time.Duration\<close>) are integers that
  count nanoseconds. A Go map that is only looked up and stored into is a HOL map; a Go map that
  is iterated over is an association list. A pair \<open>(value, error)\<close> is a sum, \<open>Inl\<close> the
  error. A loop or a call that may not return has an option type, \<open>None\<close> for not returning.
\<close>

type_synonym instant = int
type_synonym duration = int
type_synonym ('e, 'a) fallible = "'e + 'a"

definition second :: duration where
  "second = 1000000000"

definition minute :: duration where
  "minute = 60 * second"

text \<open>Association lists: assignment to a key of a Go map, and lookups in a mapped list.\<close>

fun assoc_put :: "'k \<Rightarrow> 'v \<Rightarrow> ('k \<times> 'v) list \<Rightarrow> ('k \<times> 'v) list" where
  "assoc_put k v [] = [(k, v)]"
| "assoc_put k v ((k', v') # r) = (if k = k' then (k, v) # r else (k', v') # assoc_put k v r)"

lemma map_of_assoc_put [simp]: "map_of (assoc_put k v m) = (map_of m)(k \<mapsto> v)"
  by (induction m) auto

lemma dom_assoc_put: "fst ` set (assoc_put k v m) = insert k (fst ` set m)"
  by (simp flip: dom_map_of_conv_image_fst)

lemma distinct_assoc_put:
  "distinct (map fst m) \<Longrightarrow> distinct (map fst (assoc_put k v m))"
  by (induction m) (auto simp: dom_assoc_put [simplified image_image])

lemma assoc_put_present:
  "k \<in> fst ` set m \<Longrightarrow> distinct (map fst m) \<Longrightarrow>
   assoc_put k v m = map (\<lambda>(k', v'). (k', if k' = k then v else v')) m"
proof (induction m)
  case Nil
  then show ?case by simp
next
  case (Cons p m)
  obtain k' v' where p: "p = (k', v')" by (cases p)
  show ?case
  proof (cases "k = k'")
    case True
    with Cons.prems p have "k \<notin> fst ` set m" by auto
    then have "map (\<lambda>(a, b). (a, if a = k then v else b)) m = m"
      by (induction m) auto
    with True p show ?thesis by simp
  next
    case False
    with Cons p show ?thesis by auto
  qed
qed

lemma map_of_map_entries:
  "map_of (map (\<lambda>(k, v). (k, f k v)) m) k = map_option (f k) (map_of m k)"
  by (induction m) auto

lemma map_of_SomeD_fst: "map_of m k = Some v \<Longrightarrow> k \<in> fst ` set m"
  by (metis map_of_SomeD image_eqI fst_conv)

text \<open>A Go map to slices: \<open>m[k]\<close> with its zero value, and \<open>m[k] = append(m[k], v)\<close>.\<close>

definition listed :: "('k \<rightharpoonup> 'v list) \<Rightarrow> 'k \<Rightarrow> 'v list" where
  "listed m k = (case m k of Some l \<Rightarrow> l | None \<Rightarrow> [])"

definition map_append :: "'k \<Rightarrow> 'v \<Rightarrow> ('k \<rightharpoonup> 'v list) \<Rightarrow> ('k \<rightharpoonup> 'v list)" where
  "map_append k v m = m(k \<mapsto> listed m k @ [v])"

lemma listed_empty [simp]: "listed Map.empty k = []"
  by (simp add: listed_def)

lemma listed_map_append [simp]: "listed (map_append k v m) k' = listed m k' @ (if k' = k then [v] else [])"
  by (simp add: listed_def map_append_def)

lemma listed_group:
  "listed (fold (\<lambda>x. map_append (f x) (g x)) xs m) k = listed m k @ map g (filter (\<lambda>x. f x = k) xs)"
  by (induction xs arbitrary: m) auto

text \<open>Lists without one element.\<close>

lemma remove1_distinct_filter: "distinct xs \<Longrightarrow> remove1 x xs = filter ((\<noteq>) x) xs"
  by (induction xs) (auto intro!: filter_True [symmetric])

lemma length_remove1_mem: "x \<in> set xs \<Longrightarrow> Suc (length (remove1 x xs)) = length xs"
  by (induction xs) auto

lemma filter_neq_fresh: "x \<notin> set xs \<Longrightarrow> filter ((\<noteq>) x) xs = xs"
  by (induction xs) auto

lemma distinct_map_remove1:
  "distinct (map f xs) \<Longrightarrow> distinct (map f (remove1 x xs))"
  by (induction xs) (auto dest: in_set_remove1 [THEN iffD1, rotated] notin_set_remove1)

lemma butlast_as_remove1: "distinct xs \<Longrightarrow> xs \<noteq> [] \<Longrightarrow> remove1 (last xs) xs = butlast xs"
  by (induction xs) auto

lemma take_butlast_iterate: "n < length xs \<Longrightarrow> take n (butlast xs) = take n xs"
  by (cases xs rule: rev_cases) auto

lemma take_past: "length A < n \<Longrightarrow> take n (A @ x # B) = A @ x # take (n - length A - 1) B"
  by (simp add: take_Cons')

end
