(* ===== verification/Result_Cache.thy ===== *)
theory Result_Cache
  imports Go_Prelude
begin

text \<open>
  The bounded TTL cache of tool results, \<open>src/internal/mcp/cache.go\<close>.

  The Go type keeps a map from keys to elements of a doubly linked list (\<open>items\<close>) and the
  list itself (\<open>order\<close>, most recently used first); map and list share the elements, whose
  payload is mutated through either. The model keeps that sharing: an element is an address,
  \<open>rc_order\<close> is the list of addresses, \<open>rc_items\<close> points into it, and \<open>rc_elem\<close> is the heap
  that holds the payloads. Every operation runs under the mutex, so it is one atomic function of
  the state; each reading of the clock is an argument.

  The second half of the theory states what the cache promises: an abstract LRU list with expiry
  times (\<open>lru_get\<close>, \<open>lru_put\<close>), the locale \<open>lru_store\<close> with the facts a client gets
  from any implementation of it, and the proof that the pointer structure implements it.
\<close>

subsection \<open>The code\<close>

type_synonym element = nat

record cacheEntry =
  ce_key :: string
  ce_val :: string
  ce_expires :: instant

record resultCache =
  rc_ttl :: duration
  rc_max :: int
  rc_items :: "string \<rightharpoonup> element"
  rc_order :: "element list"
  rc_elem :: "element \<Rightarrow> cacheEntry"
  rc_fresh :: element

definition newResultCache :: "duration \<Rightarrow> int \<Rightarrow> resultCache" where
  "newResultCache ttl mx =
     \<lparr>rc_ttl = ttl, rc_max = mx, rc_items = Map.empty, rc_order = [],
      rc_elem = (\<lambda>_. \<lparr>ce_key = [], ce_val = [], ce_expires = 0\<rparr>), rc_fresh = 0\<rparr>"

text \<open>
  The operations of \<open>container/list\<close> the cache uses. \<open>PushFront\<close> allocates an element;
  \<open>MoveToFront\<close> does nothing to an element that is not in the list; \<open>Back\<close> is nil on an
  empty list.
\<close>

definition pushFront :: "cacheEntry \<Rightarrow> resultCache \<Rightarrow> element \<times> resultCache" where
  "pushFront e c =
     (rc_fresh c,
      c\<lparr>rc_order := rc_fresh c # rc_order c,
        rc_elem := (rc_elem c)(rc_fresh c := e),
        rc_fresh := Suc (rc_fresh c)\<rparr>)"

definition moveToFront :: "element \<Rightarrow> resultCache \<Rightarrow> resultCache" where
  "moveToFront el c =
     (if el \<in> set (rc_order c) then c\<lparr>rc_order := el # remove1 el (rc_order c)\<rparr> else c)"

definition listBack :: "resultCache \<Rightarrow> element option" where
  "listBack c = (if rc_order c = [] then None else Some (last (rc_order c)))"

definition removeElement :: "element option \<Rightarrow> resultCache \<Rightarrow> resultCache" where
  "removeElement el c =
     (case el of
        None \<Rightarrow> c
      | Some el \<Rightarrow>
          c\<lparr>rc_order := remove1 el (rc_order c),
            rc_items := (rc_items c)(ce_key (rc_elem c el) := None)\<rparr>)"

definition cache_get :: "instant \<Rightarrow> string \<Rightarrow> resultCache \<Rightarrow> (string \<times> bool) \<times> resultCache" where
  "cache_get now key c =
     (case rc_items c key of
        None \<Rightarrow> (([], False), c)
      | Some el \<Rightarrow>
          let e = rc_elem c el in
          if now > ce_expires e then (([], False), removeElement (Some el) c)
          else ((ce_val e, True), moveToFront el c))"

text \<open>The eviction loop of \<open>put\<close>. With a negative \<open>max\<close> it would not end.\<close>

partial_function (option) evict :: "resultCache \<Rightarrow> resultCache option" where
  "evict c =
     (if int (length (rc_order c)) > rc_max c then evict (removeElement (listBack c) c) else Some c)"

definition cache_put :: "instant \<Rightarrow> string \<Rightarrow> string \<Rightarrow> resultCache \<Rightarrow> resultCache option" where
  "cache_put now key val c =
     (case rc_items c key of
        Some el \<Rightarrow>
          Some (moveToFront el
            (c\<lparr>rc_elem := (rc_elem c)(el :=
                 (rc_elem c el)\<lparr>ce_val := val, ce_expires := now + rc_ttl c\<rparr>)\<rparr>))
      | None \<Rightarrow>
          let (el, c) = pushFront \<lparr>ce_key = key, ce_val = val, ce_expires = now + rc_ttl c\<rparr> c
          in evict (c\<lparr>rc_items := (rc_items c)(key \<mapsto> el)\<rparr>))"

text \<open>
  \<open>do\<close>. The single-flight group is a library (\<open>golang.org/x/sync\<close>) and so a parameter: it
  takes the key and the function to run. The function passed to it, and \<open>fn\<close>, act on a world
  \<open>'w\<close> besides the cache. The three instants are the clock readings of the outer \<open>get\<close>, the
  inner \<open>get\<close> and the \<open>put\<close>.
\<close>

type_synonym ('e, 'w) flight =
  "resultCache \<times> 'w \<Rightarrow> (('e, string) fallible \<times> resultCache \<times> 'w) option"

definition cache_do ::
  "(string \<Rightarrow> ('e, 'w) flight \<Rightarrow> ('e, 'w) flight) \<Rightarrow> instant \<Rightarrow> instant \<Rightarrow> instant \<Rightarrow>
   string \<Rightarrow> ('w \<Rightarrow> ('e, string) fallible \<times> 'w) \<Rightarrow> ('e, 'w) flight" where
  "cache_do group_Do t1 t2 t3 key fn s =
     (let ((v, ok), c1) = cache_get t1 key (fst s) in
      if ok then Some (Inr v, c1, snd s)
      else group_Do key
        (\<lambda>(c, w).
           let ((v, ok), c2) = cache_get t2 key c in
           if ok then Some (Inr v, c2, w)
           else case fn w of
                  (Inl err, w') \<Rightarrow> Some (Inl err, c2, w')
                | (Inr out, w') \<Rightarrow> map_option (\<lambda>c3. (Inr out, c3, w')) (cache_put t3 key out c2))
        (c1, snd s))"

subsection \<open>The well-formedness invariant\<close>

definition elem_key :: "resultCache \<Rightarrow> element \<Rightarrow> string" where
  "elem_key c el = ce_key (rc_elem c el)"

definition wf_cache :: "resultCache \<Rightarrow> bool" where
  "wf_cache c \<longleftrightarrow>
     distinct (rc_order c) \<and>
     (\<forall>el \<in> set (rc_order c). el < rc_fresh c \<and> rc_items c (elem_key c el) = Some el) \<and>
     (\<forall>k el. rc_items c k = Some el \<longrightarrow> el \<in> set (rc_order c) \<and> elem_key c el = k)"

definition cache_ok :: "nat \<Rightarrow> duration \<Rightarrow> resultCache \<Rightarrow> bool" where
  "cache_ok cap ttl c \<longleftrightarrow>
     wf_cache c \<and> rc_max c = int cap \<and> rc_ttl c = ttl \<and> length (rc_order c) \<le> cap"

subsection \<open>The abstract specification\<close>

text \<open>The contents, most recently used first: key, value and expiry time.\<close>

type_synonym lru = "(string \<times> string \<times> instant) list"

definition contents :: "resultCache \<Rightarrow> lru" where
  "contents c =
     map (\<lambda>el. let e = rc_elem c el in (ce_key e, ce_val e, ce_expires e)) (rc_order c)"

definition lru_drop :: "string \<Rightarrow> lru \<Rightarrow> lru" where
  "lru_drop k l = filter (\<lambda>p. fst p \<noteq> k) l"

definition lru_get :: "instant \<Rightarrow> string \<Rightarrow> lru \<Rightarrow> (string \<times> bool) \<times> lru" where
  "lru_get now k l =
     (case map_of l k of
        None \<Rightarrow> (([], False), l)
      | Some (v, e) \<Rightarrow>
          if now > e then (([], False), lru_drop k l) else ((v, True), (k, v, e) # lru_drop k l))"

definition lru_put :: "nat \<Rightarrow> duration \<Rightarrow> instant \<Rightarrow> string \<Rightarrow> string \<Rightarrow> lru \<Rightarrow> lru" where
  "lru_put cap ttl now k v l = take cap ((k, v, now + ttl) # lru_drop k l)"

text \<open>Sequences of calls, by any number of goroutines: each call is one atomic step.\<close>

datatype cacheOp = Get instant string | Put instant string string

fun op_key :: "cacheOp \<Rightarrow> string" where
  "op_key (Get t k) = k"
| "op_key (Put t k v) = k"

text \<open>The last value put for a key by a sequence of calls, with the time of the call.\<close>

fun last_put :: "cacheOp list \<Rightarrow> string \<Rightarrow> (instant \<times> string) option" where
  "last_put [] k = None"
| "last_put (x # xs) k =
     (case last_put xs k of
        Some r \<Rightarrow> Some r
      | None \<Rightarrow> (case x of Put t k' v \<Rightarrow> if k' = k then Some (t, v) else None | Get t k' \<Rightarrow> None))"

fun run_ops ::
  "(instant \<Rightarrow> string \<Rightarrow> 's \<Rightarrow> (string \<times> bool) \<times> 's) \<Rightarrow>
   (instant \<Rightarrow> string \<Rightarrow> string \<Rightarrow> 's \<Rightarrow> 's option) \<Rightarrow> cacheOp list \<Rightarrow> 's \<Rightarrow> 's option" where
  "run_ops g p [] s = Some s"
| "run_ops g p (Get t k # xs) s = run_ops g p xs (snd (g t k s))"
| "run_ops g p (Put t k v # xs) s = Option.bind (p t k v s) (run_ops g p xs)"

definition cache_run :: "cacheOp list \<Rightarrow> resultCache \<Rightarrow> resultCache option" where
  "cache_run = run_ops cache_get cache_put"

fun lru_run :: "nat \<Rightarrow> duration \<Rightarrow> cacheOp list \<Rightarrow> lru \<Rightarrow> lru" where
  "lru_run cap ttl [] l = l"
| "lru_run cap ttl (Get t k # xs) l = lru_run cap ttl xs (snd (lru_get t k l))"
| "lru_run cap ttl (Put t k v # xs) l = lru_run cap ttl xs (lru_put cap ttl t k v l)"

subsection \<open>The heap and the abstract list\<close>

definition elem_entry :: "resultCache \<Rightarrow> element \<Rightarrow> string \<times> string \<times> instant" where
  "elem_entry c el = (let e = rc_elem c el in (ce_key e, ce_val e, ce_expires e))"

lemma contents_eq: "contents c = map (elem_entry c) (rc_order c)"
  by (simp add: contents_def elem_entry_def cong: map_cong)

lemma fst_elem_entry [simp]: "fst (elem_entry c el) = elem_key c el"
  by (simp add: elem_entry_def elem_key_def Let_def)

lemma keys_contents: "map fst (contents c) = map (elem_key c) (rc_order c)"
  by (simp add: contents_eq)

lemma length_contents [simp]: "length (contents c) = length (rc_order c)"
  by (simp add: contents_eq)

lemma wf_cacheD:
  assumes "wf_cache c"
  shows "distinct (rc_order c)"
    and "el \<in> set (rc_order c) \<Longrightarrow> el < rc_fresh c"
    and "el \<in> set (rc_order c) \<Longrightarrow> rc_items c (elem_key c el) = Some el"
    and "rc_items c k = Some el \<Longrightarrow> el \<in> set (rc_order c)"
    and "rc_items c k = Some el \<Longrightarrow> elem_key c el = k"
  using assms by (auto simp: wf_cache_def)

lemma inj_elem_key: "wf_cache c \<Longrightarrow> inj_on (elem_key c) (set (rc_order c))"
  by (rule inj_onI) (metis wf_cacheD(3) option.inject)

lemma distinct_keys: "wf_cache c \<Longrightarrow> distinct (map fst (contents c))"
  by (simp add: keys_contents distinct_map wf_cacheD(1) inj_elem_key del: map_map)

lemma items_None_iff:
  assumes wf: "wf_cache c"
  shows "rc_items c k = None \<longleftrightarrow> k \<notin> fst ` set (contents c)"
proof -
  have "fst ` set (contents c) = elem_key c ` set (rc_order c)"
    by (simp add: contents_eq image_image)
  moreover have "k \<in> elem_key c ` set (rc_order c) \<longleftrightarrow> rc_items c k \<noteq> None"
    using wf_cacheD(3,4,5) [OF wf] by fastforce
  ultimately show ?thesis by simp
qed

lemma map_of_contents:
  assumes wf: "wf_cache c"
  shows "map_of (contents c) k = map_option (\<lambda>el. snd (elem_entry c el)) (rc_items c k)"
proof (cases "rc_items c k")
  case None
  with items_None_iff [OF wf, of k] have "map_of (contents c) k = None"
    by (simp add: map_of_eq_None_iff)
  with None show ?thesis by simp
next
  case (Some el)
  then have "el \<in> set (rc_order c)" and "elem_key c el = k" by (auto intro: wf_cacheD [OF wf])
  then have "(k, snd (elem_entry c el)) \<in> set (contents c)"
    by (auto simp: contents_eq image_iff intro!: bexI [of _ el]) (metis fst_elem_entry prod.collapse)
  with distinct_keys [OF wf] Some show ?thesis by simp
qed

lemma lru_drop_contents:
  assumes wf: "wf_cache c" and it: "rc_items c k = Some el"
  shows "lru_drop k (contents c) = map (elem_entry c) (remove1 el (rc_order c))"
proof -
  have "\<And>x. x \<in> set (rc_order c) \<Longrightarrow> (elem_key c x \<noteq> k) = (el \<noteq> x)"
    using wf_cacheD [OF wf] it by (metis option.inject)
  then have "filter (\<lambda>x. elem_key c x \<noteq> k) (rc_order c) = filter ((\<noteq>) el) (rc_order c)"
    by (simp cong: filter_cong)
  then show ?thesis
    by (simp add: lru_drop_def contents_eq filter_map o_def
        remove1_distinct_filter [OF wf_cacheD(1) [OF wf]])
qed

lemma lru_drop_absent: "k \<notin> fst ` set l \<Longrightarrow> lru_drop k l = l"
  by (auto simp: lru_drop_def intro!: filter_True)

lemma removeElement_refines:
  assumes wf: "wf_cache c" and it: "rc_items c k = Some el"
  shows "wf_cache (removeElement (Some el) c)"
    and "contents (removeElement (Some el) c) = lru_drop k (contents c)"
proof -
  note d = wf_cacheD [OF wf]
  have key: "ce_key (rc_elem c el) = k" using d(5) [OF it] by (simp add: elem_key_def)
  have same: "elem_key (removeElement (Some el) c) = elem_key c"
    "elem_entry (removeElement (Some el) c) = elem_entry c"
    by (simp_all add: removeElement_def elem_key_def elem_entry_def fun_eq_iff)
  show "contents (removeElement (Some el) c) = lru_drop k (contents c)"
    unfolding contents_eq [of "removeElement (Some el) c"] same lru_drop_contents [OF wf it]
    by (simp add: removeElement_def)
  show "wf_cache (removeElement (Some el) c)"
    unfolding wf_cache_def same using d it
    by (auto simp: removeElement_def key dest: notin_set_remove1)
       (metis d(3,5) it option.inject)+
qed

lemma moveToFront_refines:
  assumes wf: "wf_cache c" and it: "rc_items c k = Some el"
  shows "wf_cache (moveToFront el c)"
    and "contents (moveToFront el c) = elem_entry c el # lru_drop k (contents c)"
proof -
  note d = wf_cacheD [OF wf]
  have mem: "el \<in> set (rc_order c)" by (rule d(4) [OF it])
  have same: "elem_key (moveToFront el c) = elem_key c"
    "elem_entry (moveToFront el c) = elem_entry c"
    by (simp_all add: moveToFront_def elem_key_def elem_entry_def fun_eq_iff)
  show "contents (moveToFront el c) = elem_entry c el # lru_drop k (contents c)"
    unfolding contents_eq [of "moveToFront el c"] same lru_drop_contents [OF wf it]
    using mem by (simp add: moveToFront_def)
  show "wf_cache (moveToFront el c)"
    unfolding wf_cache_def same using d mem
    by (auto simp: moveToFront_def)
qed

lemma removeElement_back:
  assumes wf: "wf_cache c" and ne: "rc_order c \<noteq> []"
  shows "wf_cache (removeElement (listBack c) c)"
    and "contents (removeElement (listBack c) c) = butlast (contents c)"
proof -
  let ?el = "last (rc_order c)"
  have b: "listBack c = Some ?el" using ne by (simp add: listBack_def)
  have it: "rc_items c (elem_key c ?el) = Some ?el" using wf_cacheD(3) [OF wf] ne by simp
  show "wf_cache (removeElement (listBack c) c)"
    unfolding b by (rule removeElement_refines(1) [OF wf it])
  show "contents (removeElement (listBack c) c) = butlast (contents c)"
    unfolding b removeElement_refines(2) [OF wf it] lru_drop_contents [OF wf it]
    by (simp add: butlast_as_remove1 [OF wf_cacheD(1) [OF wf] ne] contents_eq map_butlast)
qed

subsection \<open>Eviction\<close>

lemma removeElement_frame [simp]:
  "rc_max (removeElement el c) = rc_max c" "rc_ttl (removeElement el c) = rc_ttl c"
  by (simp_all add: removeElement_def split: option.split)

lemma moveToFront_frame [simp]:
  "rc_max (moveToFront el c) = rc_max c" "rc_ttl (moveToFront el c) = rc_ttl c"
  by (simp_all add: moveToFront_def)

lemma evict_done: "int (length (rc_order c)) \<le> rc_max c \<Longrightarrow> evict c = Some c"
  by (subst evict.simps) simp

lemma evict_returns:
  "wf_cache c \<Longrightarrow> rc_max c = int cap \<Longrightarrow>
   \<exists>c'. evict c = Some c' \<and> wf_cache c' \<and> rc_max c' = rc_max c \<and> rc_ttl c' = rc_ttl c \<and>
        contents c' = take cap (contents c)"
proof (induction "length (rc_order c)" arbitrary: c)
  case 0
  then show ?case by (intro exI [of _ c]) (simp add: evict_done contents_eq)
next
  case (Suc n)
  show ?case
  proof (cases "length (rc_order c) \<le> cap")
    case True
    with Suc.prems show ?thesis by (intro exI [of _ c]) (simp add: evict_done)
  next
    case False
    let ?d = "removeElement (listBack c) c"
    from Suc.hyps(2) have ne: "rc_order c \<noteq> []" by auto
    note b = removeElement_back [OF Suc.prems(1) ne]
    have "length (rc_order ?d) = n"
      using arg_cong [OF b(2), of length] Suc.hyps(2) by simp
    with Suc.hyps(1) [of ?d] b(1) Suc.prems(2) obtain c' where
      c': "evict ?d = Some c'" "wf_cache c'" "rc_max c' = rc_max c" "rc_ttl c' = rc_ttl c"
        "contents c' = take cap (contents ?d)"
      by auto
    from False Suc.prems(2) have "evict c = evict ?d" by (subst evict.simps) simp
    moreover have "take cap (contents ?d) = take cap (contents c)"
      using False by (simp add: b(2) take_butlast_iterate)
    ultimately show ?thesis using c' by auto
  qed
qed

subsection \<open>The operations refine the abstract ones\<close>

lemma contents_new [simp]: "contents (newResultCache ttl mx) = []"
  by (simp add: newResultCache_def contents_def)

lemma cache_ok_new: "cache_ok cap ttl (newResultCache ttl (int cap))"
  by (simp add: cache_ok_def wf_cache_def newResultCache_def)

lemma cache_okD:
  assumes "cache_ok cap ttl c"
  shows "wf_cache c" "rc_max c = int cap" "rc_ttl c = ttl" "length (rc_order c) \<le> cap"
  using assms by (simp_all add: cache_ok_def)

lemma lru_drop_shorter: "length (lru_drop k l) \<le> length l"
  by (simp add: lru_drop_def)

lemma lru_drop_shrinks: "k \<in> fst ` set l \<Longrightarrow> length (lru_drop k l) < length l"
  unfolding lru_drop_def by (auto intro: length_filter_less)

lemma cache_get_refines:
  assumes wf: "wf_cache c"
  shows "wf_cache (snd (cache_get t k c))"
    and "fst (cache_get t k c) = fst (lru_get t k (contents c))"
    and "contents (snd (cache_get t k c)) = snd (lru_get t k (contents c))"
proof -
  have *: "wf_cache (snd (cache_get t k c)) \<and>
    fst (cache_get t k c) = fst (lru_get t k (contents c)) \<and>
    contents (snd (cache_get t k c)) = snd (lru_get t k (contents c))"
  proof (cases "rc_items c k")
    case None
    with wf show ?thesis by (simp add: cache_get_def lru_get_def map_of_contents [OF wf])
  next
    case (Some el)
    then have "ce_key (rc_elem c el) = k" using wf_cacheD(5) [OF wf] by (simp add: elem_key_def)
    with Some show ?thesis
      using removeElement_refines [OF wf Some] moveToFront_refines [OF wf Some]
      by (simp add: cache_get_def lru_get_def map_of_contents [OF wf] elem_entry_def Let_def)
  qed
  then show "wf_cache (snd (cache_get t k c))"
    and "fst (cache_get t k c) = fst (lru_get t k (contents c))"
    and "contents (snd (cache_get t k c)) = snd (lru_get t k (contents c))"
    by simp_all
qed

lemma cache_get_frame [simp]:
  "rc_max (snd (cache_get t k c)) = rc_max c" "rc_ttl (snd (cache_get t k c)) = rc_ttl c"
  by (simp_all add: cache_get_def Let_def split: option.split)

lemma lru_get_length: "length (snd (lru_get t k l)) \<le> length l"
proof (cases "map_of l k")
  case (Some ve)
  then have "k \<in> fst ` set l" by (rule map_of_SomeD_fst)
  with Some show ?thesis
    using lru_drop_shrinks [of k l] by (auto simp: lru_get_def split: prod.split)
qed (simp add: lru_get_def)

lemma cache_get_ok: "cache_ok cap ttl c \<Longrightarrow> cache_ok cap ttl (snd (cache_get t k c))"
  using cache_get_refines [of c t k] lru_get_length [of t k "contents c"]
  by (auto simp: cache_ok_def simp flip: length_contents)

lemma put_present_refines:
  fixes v :: string and t :: instant
  assumes wf: "wf_cache c" and it: "rc_items c k = Some el"
  defines "d \<equiv> c\<lparr>rc_elem := (rc_elem c)(el :=
                 (rc_elem c el)\<lparr>ce_val := v, ce_expires := t + rc_ttl c\<rparr>)\<rparr>"
  shows "wf_cache d" and "rc_items d = rc_items c"
    and "elem_entry d el = (k, v, t + rc_ttl c)" and "lru_drop k (contents d) = lru_drop k (contents c)"
proof -
  note w = wf_cacheD [OF wf]
  have key: "elem_key d = elem_key c" by (auto simp: d_def elem_key_def)
  show wfd: "wf_cache d" using w unfolding wf_cache_def key by (simp add: d_def)
  show itd: "rc_items d = rc_items c" by (simp add: d_def)
  show "elem_entry d el = (k, v, t + rc_ttl c)"
    using w(5) [OF it] by (simp add: d_def elem_entry_def elem_key_def)
  have "elem_entry d x = elem_entry c x" if "x \<in> set (remove1 el (rc_order c))" for x
    using that w(1) by (auto simp: d_def elem_entry_def)
  then show "lru_drop k (contents d) = lru_drop k (contents c)"
    using it by (simp add: lru_drop_contents [OF wf it] lru_drop_contents [OF wfd, of k el] itd)
       (simp add: d_def cong: map_cong)
qed

lemma put_fresh_refines:
  fixes v :: string and t :: instant
  assumes wf: "wf_cache c" and it: "rc_items c k = None"
  defines "d \<equiv> (let (el, c') = pushFront \<lparr>ce_key = k, ce_val = v, ce_expires = t\<rparr> c
                in c'\<lparr>rc_items := (rc_items c')(k \<mapsto> el)\<rparr>)"
  shows "wf_cache d" and "contents d = (k, v, t) # contents c"
    and "rc_max d = rc_max c" and "rc_ttl d = rc_ttl c"
proof -
  note w = wf_cacheD [OF wf]
  have new: "rc_fresh c \<notin> set (rc_order c)" using w(2) by blast
  have key: "x \<in> set (rc_order c) \<Longrightarrow> elem_key d x = elem_key c x" for x
    using new by (auto simp: d_def pushFront_def elem_key_def)
  have ent: "x \<in> set (rc_order c) \<Longrightarrow> elem_entry d x = elem_entry c x" for x
    using new by (auto simp: d_def pushFront_def elem_entry_def)
  have f: "elem_key d (rc_fresh c) = k" "elem_entry d (rc_fresh c) = (k, v, t)"
    "rc_order d = rc_fresh c # rc_order c" "rc_items d = (rc_items c)(k \<mapsto> rc_fresh c)"
    "rc_fresh d = Suc (rc_fresh c)"
    by (simp_all add: d_def pushFront_def elem_key_def elem_entry_def)
  show "contents d = (k, v, t) # contents c"
    by (simp add: contents_eq f ent cong: map_cong)
  have "elem_key c x \<noteq> k" if "x \<in> set (rc_order c)" for x using w(3) [OF that] it by auto
  then show "wf_cache d"
    unfolding wf_cache_def f using w new by (auto simp: f key less_SucI split: if_splits)
  show "rc_max d = rc_max c" "rc_ttl d = rc_ttl c" by (simp_all add: d_def pushFront_def)
qed

lemma cache_put_refines:
  assumes ok: "cache_ok cap ttl c"
  shows "\<exists>c'. cache_put t k v c = Some c' \<and> cache_ok cap ttl c' \<and>
              contents c' = lru_put cap ttl t k v (contents c)"
proof (cases "rc_items c k")
  case None
  note o = cache_okD [OF ok]
  let ?d = "let (el, c') = pushFront \<lparr>ce_key = k, ce_val = v, ce_expires = t + rc_ttl c\<rparr> c
            in c'\<lparr>rc_items := (rc_items c')(k \<mapsto> el)\<rparr>"
  note f = put_fresh_refines [OF o(1) None, where v = v and t = "t + rc_ttl c"]
  obtain c' where c': "evict ?d = Some c'" "wf_cache c'" "rc_max c' = int cap" "rc_ttl c' = ttl"
    "contents c' = take cap (contents ?d)"
    using evict_returns [OF f(1), of cap] f(3,4) o(2,3) by auto
  have "lru_drop k (contents c) = contents c"
    using None items_None_iff [OF o(1)] by (simp add: lru_drop_absent)
  with f(2) c'(5) o(3) have "contents c' = lru_put cap ttl t k v (contents c)"
    by (simp add: lru_put_def)
  moreover from this have "length (rc_order c') \<le> cap"
    by (simp add: lru_put_def flip: length_contents)
  moreover have "cache_put t k v c = evict ?d"
    using None by (simp add: cache_put_def Let_def split: prod.split)
  ultimately show ?thesis using c' by (simp add: cache_ok_def)
next
  case (Some el)
  note o = cache_okD [OF ok]
  note p = put_present_refines [OF o(1) Some, where v = v and t = t]
  note m = moveToFront_refines [OF p(1), unfolded p(2), OF Some]
  have drop: "length (lru_drop k (contents c)) < length (contents c)"
    using Some items_None_iff [OF o(1), of k] by (intro lru_drop_shrinks) auto
  with o(4) have "take cap ((k, v, t + ttl) # lru_drop k (contents c)) = (k, v, t + ttl) # lru_drop k (contents c)"
    by simp
  with m(2) [unfolded p(3,4)] have "contents c' = lru_put cap ttl t k v (contents c)" if "cache_put t k v c = Some c'" for c'
    using that Some by (simp add: cache_put_def lru_put_def o(3))
  moreover have "length (lru_put cap ttl t k v (contents c)) \<le> cap"
    by (simp add: lru_put_def)
  ultimately show ?thesis
    using Some m(1) o by (simp add: cache_put_def cache_ok_def flip: length_contents)
qed

subsection \<open>Sequences of calls on the abstract list\<close>

lemma lru_run_append: "lru_run cap ttl (xs @ ys) l = lru_run cap ttl ys (lru_run cap ttl xs l)"
  by (induction cap ttl xs l rule: lru_run.induct) simp_all

lemma last_put_snoc:
  "last_put (xs @ [x]) k =
     (case x of Put t k' v \<Rightarrow> if k' = k then Some (t, v) else last_put xs k | Get t k' \<Rightarrow> last_put xs k)"
  by (induction xs) (auto split: cacheOp.splits option.splits)

lemma set_lru_drop: "set (lru_drop k l) = {p \<in> set l. fst p \<noteq> k}"
  by (simp add: lru_drop_def)

lemma set_lru_get: "set (snd (lru_get t k l)) \<subseteq> set l"
  by (auto simp: lru_get_def set_lru_drop dest: map_of_SomeD split: option.splits if_splits)

lemma set_lru_put: "set (lru_put cap ttl t k v l) \<subseteq> insert (k, v, t + ttl) {p \<in> set l. fst p \<noteq> k}"
  unfolding lru_put_def by (rule subset_trans [OF set_take_subset]) (simp add: set_lru_drop)

lemma lru_run_sound:
  "(k, v, e) \<in> set (lru_run cap ttl xs []) \<Longrightarrow> \<exists>t. last_put xs k = Some (t, v) \<and> e = t + ttl"
proof (induction xs arbitrary: k v e rule: rev_induct)
  case Nil
  then show ?case by simp
next
  case (snoc x xs)
  show ?case
  proof (cases x)
    case (Get t k')
    with snoc set_lru_get show ?thesis by (fastforce simp: lru_run_append last_put_snoc)
  next
    case (Put t k' v')
    with snoc.prems set_lru_put [of cap ttl t k' v'] have
      "(k, v, e) = (k', v', t + ttl) \<or> (k, v, e) \<in> set (lru_run cap ttl xs []) \<and> k \<noteq> k'"
      by (fastforce simp: lru_run_append)
    with Put snoc.IH show ?thesis by (auto simp: last_put_snoc)
  qed
qed

lemma distinct_lru_drop: "distinct (map fst l) \<Longrightarrow> distinct (map fst (lru_drop k l))"
  by (simp add: lru_drop_def distinct_map_filter)

lemma distinct_lru_get: "distinct (map fst l) \<Longrightarrow> distinct (map fst (snd (lru_get t k l)))"
  by (auto simp: lru_get_def set_lru_drop distinct_lru_drop split: option.splits)

lemma distinct_lru_put:
  assumes "distinct (map fst l)"
  shows "distinct (map fst (lru_put cap ttl t k v l))"
proof -
  have "distinct (map fst ((k, v, t + ttl) # lru_drop k l))"
    using assms by (auto simp: set_lru_drop distinct_lru_drop)
  then show ?thesis unfolding lru_put_def take_map [symmetric] by (rule distinct_take)
qed

lemma distinct_lru_run: "distinct (map fst l) \<Longrightarrow> distinct (map fst (lru_run cap ttl xs l))"
  by (induction cap ttl xs l rule: lru_run.induct) (simp_all add: distinct_lru_get distinct_lru_put)

text \<open>An entry stays while fewer than \<open>cap\<close> other keys are touched.\<close>

lemma lru_put_keeps:
  assumes d: "distinct (map fst (A @ p # B))" and ne: "k' \<noteq> fst p"
    and A: "fst ` set A \<subseteq> S" and S: "finite S" "card (insert k' S) < cap"
  shows "\<exists>A' B'. lru_put cap ttl t k' v' (A @ p # B) = A' @ p # B' \<and> fst ` set A' \<subseteq> insert k' S"
proof -
  let ?A = "(k', v', t + ttl) # lru_drop k' A"
  have A': "fst ` set ?A \<subseteq> insert k' S" using A by (auto simp: set_lru_drop)
  have "distinct (map fst ?A)"
    using d distinct_lru_drop [of A k'] by (auto simp: set_lru_drop)
  then have "length ?A = card (fst ` set ?A)"
    by (metis distinct_card length_map set_map)
  also have "\<dots> \<le> card (insert k' S)" using S(1) A' by (intro card_mono) auto
  finally have len: "length ?A < cap" using S(2) by simp
  have "lru_put cap ttl t k' v' (A @ p # B) = take cap (?A @ p # lru_drop k' B)"
    using ne by (simp add: lru_put_def lru_drop_def)
  also have "\<dots> = ?A @ p # take (cap - length ?A - 1) (lru_drop k' B)"
    using len by (rule take_past)
  finally show ?thesis using A' by blast
qed

lemma lru_get_keeps:
  assumes ne: "k' \<noteq> fst p" and A: "fst ` set A \<subseteq> S"
  shows "\<exists>A' B'. snd (lru_get t k' (A @ p # B)) = A' @ p # B' \<and> fst ` set A' \<subseteq> insert k' S"
proof -
  have drop: "lru_drop k' (A @ p # B) = lru_drop k' A @ p # lru_drop k' B"
    using ne by (simp add: lru_drop_def)
  have sub: "fst ` set (lru_drop k' A) \<subseteq> insert k' S" using A by (auto simp: set_lru_drop)
  consider "snd (lru_get t k' (A @ p # B)) = A @ p # B"
    | "snd (lru_get t k' (A @ p # B)) = lru_drop k' A @ p # lru_drop k' B"
    | v e where "snd (lru_get t k' (A @ p # B)) = ((k', v, e) # lru_drop k' A) @ p # lru_drop k' B"
    using drop by (fastforce simp: lru_get_def split: option.splits if_splits prod.splits)
  then show ?thesis
  proof cases
    case 1
    with A show ?thesis by blast
  next
    case 2
    with sub show ?thesis by blast
  next
    case 3
    moreover have "fst ` set ((k', v, e) # lru_drop k' A) \<subseteq> insert k' S" using sub by auto
    ultimately show ?thesis by blast
  qed
qed

lemma lru_run_keeps:
  "distinct (map fst (A @ p # B)) \<Longrightarrow> fst ` set A \<subseteq> S \<Longrightarrow> finite S \<Longrightarrow>
   fst p \<notin> op_key ` set xs \<Longrightarrow> card (S \<union> op_key ` set xs) < cap \<Longrightarrow>
   p \<in> set (lru_run cap ttl xs (A @ p # B))"
proof (induction xs arbitrary: A B S)
  case Nil
  then show ?case by simp
next
  case (Cons x xs)
  let ?S = "insert (op_key x) S"
  have ne: "op_key x \<noteq> fst p" and rest: "fst p \<notin> op_key ` set xs" using Cons.prems(4) by auto
  have card_all: "card (?S \<union> op_key ` set xs) < cap" using Cons.prems(5) by simp
  have "card ?S \<le> card (?S \<union> op_key ` set xs)" using Cons.prems(3) by (intro card_mono) auto
  with card_all have cardS: "card ?S < cap" by simp
  have fin: "finite ?S" using Cons.prems(3) by simp
  show ?case
  proof (cases x)
    case (Get t k')
    with ne lru_get_keeps [of k' p A S t B] Cons.prems(2) obtain A' B' where
      s: "snd (lru_get t k' (A @ p # B)) = A' @ p # B'" "fst ` set A' \<subseteq> ?S" by auto
    with distinct_lru_get [OF Cons.prems(1), of t k'] have "distinct (map fst (A' @ p # B'))" by simp
    from Cons.IH [OF this s(2) fin rest card_all] Get s(1) show ?thesis by simp
  next
    case (Put t k' v')
    with ne cardS lru_put_keeps [OF Cons.prems(1) _ Cons.prems(2,3), of k' cap ttl t v'] obtain A' B'
      where s: "lru_put cap ttl t k' v' (A @ p # B) = A' @ p # B'" "fst ` set A' \<subseteq> ?S" by auto
    with distinct_lru_put [OF Cons.prems(1), of cap ttl t k' v'] have "distinct (map fst (A' @ p # B'))"
      by simp
    from Cons.IH [OF this s(2) fin rest card_all] Put s(1) show ?thesis by simp
  qed
qed

subsection \<open>The contract of an LRU store with expiry\<close>

locale lru_store =
  fixes inv :: "'s \<Rightarrow> bool"
    and view :: "'s \<Rightarrow> lru"
    and get_op :: "instant \<Rightarrow> string \<Rightarrow> 's \<Rightarrow> (string \<times> bool) \<times> 's"
    and put_op :: "instant \<Rightarrow> string \<Rightarrow> string \<Rightarrow> 's \<Rightarrow> 's option"
    and cap :: nat
    and ttl :: duration
  assumes inv_get: "inv s \<Longrightarrow> inv (snd (get_op t k s))"
    and get_result: "inv s \<Longrightarrow> fst (get_op t k s) = fst (lru_get t k (view s))"
    and get_view: "inv s \<Longrightarrow> view (snd (get_op t k s)) = snd (lru_get t k (view s))"
    and put_view: "inv s \<Longrightarrow> \<exists>s'. put_op t k v s = Some s' \<and> inv s' \<and>
                     view s' = lru_put cap ttl t k v (view s)"
begin

lemma run_view:
  "inv s \<Longrightarrow> \<exists>s'. run_ops get_op put_op xs s = Some s' \<and> inv s' \<and>
              view s' = lru_run cap ttl xs (view s)"
proof (induction xs arbitrary: s)
  case Nil
  then show ?case by simp
next
  case (Cons x xs)
  show ?case
  proof (cases x)
    case (Get t k)
    with Cons.IH [OF inv_get [OF Cons.prems]] get_view [OF Cons.prems] show ?thesis by simp
  next
    case (Put t k v)
    obtain s' where s': "put_op t k v s = Some s'" "inv s'" "view s' = lru_put cap ttl t k v (view s)"
      using put_view [OF Cons.prems] by blast
    with Put Cons.IH [OF s'(2)] show ?thesis by simp
  qed
qed

lemma hit_iff:
  assumes "inv s"
  shows "fst (get_op t k s) = (v, True) \<longleftrightarrow> (\<exists>e. map_of (view s) k = Some (v, e) \<and> t \<le> e)"
  by (auto simp: get_result [OF assms] lru_get_def split: option.splits)

lemma hit_sound:
  assumes "inv s0" and "view s0 = []" and "run_ops get_op put_op xs s0 = Some s"
    and "fst (get_op t k s) = (v, True)"
  shows "\<exists>t0. last_put xs k = Some (t0, v) \<and> t \<le> t0 + ttl"
proof -
  from run_view [OF assms(1), of xs] assms(2,3) have inv: "inv s" and view: "view s = lru_run cap ttl xs []"
    by auto
  from assms(4) obtain e where e: "map_of (view s) k = Some (v, e)" "t \<le> e"
    unfolding hit_iff [OF inv] by blast
  then have "(k, v, e) \<in> set (lru_run cap ttl xs [])" using map_of_SomeD view by metis
  from lru_run_sound [OF this] e(2) show ?thesis by auto
qed

lemma put_then_hit:
  assumes "inv s" and "distinct (map fst (view s))" and "card (op_key ` set xs) < cap"
    and "k \<notin> op_key ` set xs" and "t \<le> t0 + ttl"
  shows "\<exists>s'. run_ops get_op put_op (Put t0 k v # xs) s = Some s' \<and> fst (get_op t k s') = (v, True)"
proof -
  obtain s' where s': "run_ops get_op put_op (Put t0 k v # xs) s = Some s'" "inv s'"
    "view s' = lru_run cap ttl (Put t0 k v # xs) (view s)"
    using run_view [OF assms(1)] by blast
  obtain n where n: "cap = Suc n" using assms(3) by (cases cap) auto
  have put: "lru_put cap ttl t0 k v (view s) = [] @ (k, v, t0 + ttl) # take n (lru_drop k (view s))"
    by (simp add: lru_put_def n)
  have "distinct (map fst (lru_put cap ttl t0 k v (view s)))"
    using assms(2) by (rule distinct_lru_put)
  then have "(k, v, t0 + ttl) \<in> set (view s')"
    using lru_run_keeps [of "[]" "(k, v, t0 + ttl)" "take n (lru_drop k (view s))" "{}" xs cap ttl] assms(3,4)
    unfolding s'(3) by (simp add: put)
  moreover have "distinct (map fst (view s'))"
    unfolding s'(3) using assms(2) by (rule distinct_lru_run)
  ultimately have "map_of (view s') k = Some (v, t0 + ttl)" by simp
  with s' assms(5) show ?thesis using hit_iff by blast
qed

end

interpretation rc: lru_store "cache_ok cap ttl" contents cache_get cache_put cap ttl
  for cap ttl
  by unfold_locales
    (simp_all add: cache_get_ok cache_get_refines cache_okD(1) cache_put_refines)

lemma cache_run_new:
  "\<exists>c. cache_run xs (newResultCache ttl (int cap)) = Some c \<and> cache_ok cap ttl c \<and>
       contents c = lru_run cap ttl xs []"
  using rc.run_view [OF cache_ok_new [of cap ttl], of xs] unfolding cache_run_def by simp

subsection \<open>Properties of the cache\<close>

text \<open>
  C12. Refinement: on a cache that satisfies its invariant, \<open>get\<close> and \<open>put\<close> on the pointer
  structure (a map and a linked list that share elements) compute exactly the operations of the
  abstract LRU list: the same result, the same contents in the same order of use, the invariant
  and the capacity kept; \<open>put\<close> always returns.
\<close>

theorem cache_refines_lru:
  assumes "cache_ok cap ttl c"
  shows "(let ((v, hit), c') = cache_get t k c; (r, l) = lru_get t k (contents c)
          in (v, hit) = r \<and> contents c' = l \<and> cache_ok cap ttl c') \<and>
         (\<exists>c'. cache_put t k w c = Some c' \<and> cache_ok cap ttl c' \<and>
               contents c' = lru_put cap ttl t k w (contents c))"
  using rc.get_result [OF assms, of t k] rc.get_view [OF assms, of t k] rc.inv_get [OF assms, of t k]
    rc.put_view [OF assms]
  by (auto simp: Let_def split: prod.split)

theorem cache_refines_lru_witness:
  "cache_ok 2 5 (newResultCache 5 2) \<and>
   (\<exists>c'. cache_put 0 ''a'' ''1'' (newResultCache 5 2) = Some c' \<and> contents c' = [(''a'', ''1'', 5)])"
  using cache_refines_lru [OF cache_ok_new [of 2 5], of 0 "''a''" "''1''"] cache_ok_new [of 2 5]
  by (auto simp: lru_put_def lru_drop_def)

text \<open>
  Bound: whatever calls the goroutines make on a new cache and in whatever order, every call
  returns, the map and the list stay consistent, and never more than \<open>max\<close> entries are held.
\<close>

theorem cache_bounded:
  "\<exists>c. cache_run xs (newResultCache ttl (int cap)) = Some c \<and> wf_cache c \<and>
       length (rc_order c) \<le> cap \<and> contents c = lru_run cap ttl xs []"
  using cache_run_new [of xs ttl cap] by (auto simp: cache_ok_def)

text \<open>
  No stale or foreign answer: a value served from the cache at time \<open>t\<close> is the value of the
  last \<open>put\<close> for that key, and that \<open>put\<close> happened at most \<open>ttl\<close> before \<open>t\<close>.
\<close>

theorem cache_hit_is_last_put:
  assumes "cache_run xs (newResultCache ttl (int cap)) = Some c"
    and "fst (cache_get t k c) = (v, True)"
  shows "\<exists>t0. last_put xs k = Some (t0, v) \<and> t \<le> t0 + ttl"
  using rc.hit_sound [OF cache_ok_new contents_new] assms unfolding cache_run_def by blast

theorem cache_hit_is_last_put_witness:
  "\<exists>c. cache_run [Put 0 ''a'' ''1'', Put 1 ''a'' ''2''] (newResultCache 5 (int 2)) = Some c \<and>
       fst (cache_get 6 ''a'' c) = (''2'', True) \<and>
       (\<exists>t0. last_put [Put 0 ''a'' ''1'', Put 1 ''a'' ''2''] ''a'' = Some (t0, ''2'') \<and> 6 \<le> t0 + 5)"
proof -
  let ?xs = "[Put 0 ''a'' ''1'', Put 1 ''a'' ''2'']"
  obtain c where c: "cache_run ?xs (newResultCache 5 (int 2)) = Some c" "cache_ok 2 5 c"
    "contents c = lru_run 2 5 ?xs []"
    using cache_run_new [of ?xs 5 2] by blast
  have "fst (cache_get 6 ''a'' c) = (''2'', True)"
    unfolding rc.get_result [OF c(2)] c(3) by (simp add: lru_put_def lru_drop_def lru_get_def)
  with c(1) cache_hit_is_last_put [OF c(1)] show ?thesis by blast
qed

text \<open>
  Retention: after a \<open>put\<close> the value is served until its expiry time, as long as fewer than
  \<open>max\<close> other keys are used meanwhile: eviction takes the least recently used entry only.
\<close>

theorem cache_retains_recent:
  assumes "cache_run ys (newResultCache ttl (int cap)) = Some c"
    and "card (op_key ` set xs) < cap" and "k \<notin> op_key ` set xs" and "t \<le> t0 + ttl"
  shows "\<exists>c'. cache_run (Put t0 k v # xs) c = Some c' \<and> fst (cache_get t k c') = (v, True)"
proof -
  have "cache_ok cap ttl c"
    using cache_run_new [of ys ttl cap] assms(1) by simp
  from rc.put_then_hit [OF this _ assms(2-4)] show ?thesis
    unfolding cache_run_def using distinct_keys cache_okD(1) \<open>cache_ok cap ttl c\<close> by blast
qed

theorem cache_retains_recent_witness:
  "\<exists>c'. cache_run [Put 0 ''a'' ''1'', Put 1 ''b'' ''2'', Get 2 ''b''] (newResultCache 5 (int 2)) = Some c' \<and>
        fst (cache_get 5 ''a'' c') = (''1'', True)"
  using cache_retains_recent [of "[]" 5 2 "newResultCache 5 (int 2)" "[Put 1 ''b'' ''2'', Get 2 ''b'']"
      "''a''" 5 0 "''1''"]
  by (simp add: cache_run_def)

subsection \<open>Memoised calls\<close>

lemma lru_drop_idem [simp]: "lru_drop k (lru_drop k l) = lru_drop k l"
  by (simp add: lru_drop_def)

lemma map_of_lru_drop [simp]: "map_of (lru_drop k l) k = None"
  by (auto simp: map_of_eq_None_iff set_lru_drop)

definition expired_or_absent :: "instant \<Rightarrow> string \<Rightarrow> resultCache \<Rightarrow> bool" where
  "expired_or_absent t k c \<longleftrightarrow> (case map_of (contents c) k of None \<Rightarrow> True | Some (v, e) \<Rightarrow> e < t)"

text \<open>
  The documented behaviour of the single-flight group while no call for the key is in flight:
  it runs the function it is given and returns what that returns.
\<close>

definition runs_directly :: "(string \<Rightarrow> ('e, 'w) flight \<Rightarrow> ('e, 'w) flight) \<Rightarrow> bool" where
  "runs_directly group_Do \<longleftrightarrow> (\<forall>k f s. group_Do k f s = f s)"

lemma cache_get_miss:
  assumes ok: "cache_ok cap ttl c" and miss: "expired_or_absent t k c"
  shows "\<exists>c'. cache_get t k c = (([], False), c') \<and> cache_ok cap ttl c' \<and>
              contents c' = lru_drop k (contents c)"
proof -
  have abs: "lru_get t k (contents c) = (([], False), lru_drop k (contents c))"
  proof (cases "map_of (contents c) k")
    case None
    then have "lru_drop k (contents c) = contents c" by (simp add: map_of_eq_None_iff lru_drop_absent)
    with None show ?thesis by (simp add: lru_get_def)
  next
    case (Some ve)
    with miss show ?thesis by (cases ve) (simp add: lru_get_def expired_or_absent_def)
  qed
  show ?thesis
    by (rule exI [of _ "snd (cache_get t k c)"])
      (simp add: rc.inv_get [OF ok] rc.get_view [OF ok] abs prod_eq_iff
        rc.get_result [OF ok, unfolded abs, simplified prod_eq_iff, simplified])
qed

lemma cache_get_hit:
  assumes ok: "cache_ok cap ttl c" and hit: "map_of (contents c) k = Some (v, e)" "t \<le> e"
  shows "\<exists>c'. cache_get t k c = ((v, True), c') \<and> cache_ok cap ttl c' \<and>
              contents c' = (k, v, e) # lru_drop k (contents c)"
proof -
  have abs: "lru_get t k (contents c) = ((v, True), (k, v, e) # lru_drop k (contents c))"
    using hit by (simp add: lru_get_def)
  show ?thesis
    by (rule exI [of _ "snd (cache_get t k c)"])
      (simp add: rc.inv_get [OF ok] rc.get_view [OF ok] abs prod_eq_iff
        rc.get_result [OF ok, unfolded abs, simplified prod_eq_iff, simplified])
qed

lemma cache_do_hit:
  assumes "cache_ok cap ttl c" and "map_of (contents c) k = Some (v, e)" and "t1 \<le> e"
  shows "\<exists>c'. cache_do group_Do t1 t2 t3 k fn (c, w) = Some (Inr v, c', w) \<and> cache_ok cap ttl c' \<and>
              contents c' = (k, v, e) # lru_drop k (contents c)"
  using cache_get_hit [OF assms] by (auto simp: cache_do_def)

lemma cache_do_miss:
  assumes sf: "runs_directly group_Do"
    and ok: "cache_ok cap ttl c" and miss: "expired_or_absent t1 k c"
  shows "fn w = (Inl err, w') \<Longrightarrow>
           \<exists>c'. cache_do group_Do t1 t2 t3 k fn (c, w) = Some (Inl err, c', w') \<and>
                cache_ok cap ttl c' \<and> contents c' = lru_drop k (contents c)"
    and "fn w = (Inr out, w') \<Longrightarrow>
           \<exists>c'. cache_do group_Do t1 t2 t3 k fn (c, w) = Some (Inr out, c', w') \<and>
                cache_ok cap ttl c' \<and> contents c' = lru_put cap ttl t3 k out (contents c)"
proof -
  obtain c1 where c1: "cache_get t1 k c = (([], False), c1)" "cache_ok cap ttl c1"
    "contents c1 = lru_drop k (contents c)"
    using cache_get_miss [OF ok miss] by blast
  have "expired_or_absent t2 k c1" by (simp add: expired_or_absent_def c1(3))
  from cache_get_miss [OF c1(2) this] obtain c2 where
    c2: "cache_get t2 k c1 = (([], False), c2)" "cache_ok cap ttl c2" "contents c2 = lru_drop k (contents c)"
    by (auto simp: c1(3))
  obtain c3 where c3: "cache_put t3 k out c2 = Some c3" "cache_ok cap ttl c3"
    "contents c3 = lru_put cap ttl t3 k out (contents c)"
    using rc.put_view [OF c2(2), of t3 k out] c2(3) by (auto simp: lru_put_def)
  have run: "group_Do k f s = f s" for f s using sf unfolding runs_directly_def by blast
  show "\<exists>c'. cache_do group_Do t1 t2 t3 k fn (c, w) = Some (Inl err, c', w') \<and>
          cache_ok cap ttl c' \<and> contents c' = lru_drop k (contents c)"
    if "fn w = (Inl err, w')"
    using that by (simp add: cache_do_def run c1 c2)
  show "\<exists>c'. cache_do group_Do t1 t2 t3 k fn (c, w) = Some (Inr out, c', w') \<and>
          cache_ok cap ttl c' \<and> contents c' = lru_put cap ttl t3 k out (contents c)"
    if "fn w = (Inr out, w')"
    using that by (simp add: cache_do_def run c1 c2 c3)
qed

text \<open>
  \<open>do\<close> runs the function once per TTL: a call that misses runs \<open>fn\<close> and returns its
  result, and a call for the same key no later than \<open>ttl\<close> after it returns that same result
  without running its own function (the world is left as it is). The hypothesis on the
  single-flight group is its documented behaviour when no call for the key is in flight: it runs
  the given function and returns what it returns.
\<close>

theorem cache_do_memoises:
  assumes "runs_directly group_Do"
    and "cache_ok cap ttl c" and "0 < cap" and "expired_or_absent t1 k c"
    and "fn w = (Inr out, w')" and "s1 \<le> t3 + ttl"
  shows "\<exists>c1 c2. cache_do group_Do t1 t2 t3 k fn (c, w) = Some (Inr out, c1, w') \<and>
                 cache_do group_Do s1 s2 s3 k fn' (c1, v) = Some (Inr out, c2, v)"
proof -
  obtain c1 where c1: "cache_do group_Do t1 t2 t3 k fn (c, w) = Some (Inr out, c1, w')"
    "cache_ok cap ttl c1" "contents c1 = lru_put cap ttl t3 k out (contents c)"
    using cache_do_miss(2) [where fn = fn and w = w, OF assms(1,2,4,5)] by blast
  from assms(3) have "map_of (contents c1) k = Some (out, t3 + ttl)"
    unfolding c1(3) lru_put_def by (cases cap) simp_all
  from cache_do_hit [OF c1(2) this assms(6), of group_Do s2 s3 fn' v] c1(1) show ?thesis by blast
qed

theorem cache_do_memoises_witness:
  "\<exists>c1 c2. cache_do (\<lambda>k f s. f s) 0 1 2 ''k'' (\<lambda>n. (Inr ''v'' :: unit + string, n + 1)) (newResultCache 5 (int 512), 0::nat)
             = Some (Inr ''v'', c1, 1) \<and>
           cache_do (\<lambda>k f s. f s) 7 7 7 ''k'' (\<lambda>n. (Inl (), n + 1)) (c1, 1::nat)
             = Some (Inr ''v'', c2, 1)"
  using cache_do_memoises [of "\<lambda>k f s. f s" 512 5 "newResultCache 5 (int 512)" 0 "''k''"
      "\<lambda>n. (Inr ''v'', n + 1)" "0::nat" "''v''" 1 7 2 1 7 7 "\<lambda>n. (Inl (), n + 1)" 1]
  by (simp add: cache_ok_new [of 512, simplified] runs_directly_def expired_or_absent_def)

text \<open>
  Errors are never cached: when \<open>fn\<close> fails, \<open>do\<close> returns the error, the cache holds what
  it held before less an expired entry for the key, and the next call runs its function again.
\<close>

theorem cache_do_error_not_cached:
  assumes "runs_directly group_Do"
    and "cache_ok cap ttl c" and "expired_or_absent t1 k c" and "fn w = (Inl err, w')"
  shows "\<exists>c1. cache_do group_Do t1 t2 t3 k fn (c, w) = Some (Inl err, c1, w') \<and>
              contents c1 = lru_drop k (contents c) \<and>
              (\<forall>s1 s2 s3 fn' v err' v'. fn' v = (Inl err', v') \<longrightarrow>
                 (\<exists>c2. cache_do group_Do s1 s2 s3 k fn' (c1, v) = Some (Inl err', c2, v')))"
proof -
  obtain c1 where c1: "cache_do group_Do t1 t2 t3 k fn (c, w) = Some (Inl err, c1, w')"
    "cache_ok cap ttl c1" "contents c1 = lru_drop k (contents c)"
    using cache_do_miss(1) [where fn = fn and w = w, OF assms] by blast
  have "\<And>s1. expired_or_absent s1 k c1" by (simp add: expired_or_absent_def c1(3))
  from cache_do_miss(1) [OF assms(1) c1(2) this] c1(1,3) show ?thesis by blast
qed

theorem cache_do_error_not_cached_witness:
  "\<exists>c1. cache_do (\<lambda>k f s. f s) 0 1 2 ''k'' (\<lambda>n. (Inl ''boom'', n + 1)) (newResultCache 5 (int 8), 0::nat)
          = Some (Inl ''boom'', c1, 1) \<and>
        (\<exists>c2. cache_do (\<lambda>k f s. f s) 3 3 3 ''k'' (\<lambda>n. (Inl ''boom'', n + 1)) (c1, 1::nat)
          = Some (Inl ''boom'', c2, 2))"
proof -
  let ?fn = "\<lambda>n::nat. (Inl ''boom'' :: (string, string) fallible, n + 1)"
  have again: "?fn 1 = (Inl ''boom'', 2)" by (simp add: numeral_2_eq_2)
  show ?thesis
    using cache_do_error_not_cached [of "\<lambda>k f s. f s" 8 5 "newResultCache 5 (int 8)" 0 "''k''" ?fn
        0 "''boom''" 1 1 2] again
    by (auto simp: cache_ok_new [of 8, simplified] runs_directly_def expired_or_absent_def)
qed

text \<open>
  Termination of \<open>put\<close>: storing a new key returns exactly when \<open>max\<close> is not negative.
  With a negative \<open>max\<close> the eviction loop finds the list empty and goes round for ever.
\<close>

lemma evict_only_nonneg:
  assumes ret: "evict c = Some c'"
  shows "0 \<le> rc_max c"
proof (rule evict.raw_induct [where P = "\<lambda>c c'. 0 \<le> rc_max c", OF _ ret])
  fix ev c c'
  assume IH: "\<And>c c'. ev c = Some c' \<Longrightarrow> 0 \<le> rc_max c"
    and eq: "(if rc_max c < int (length (rc_order c)) then ev (removeElement (listBack c) c) else Some c) = Some c'"
  show "0 \<le> rc_max c"
  proof (cases "rc_max c < int (length (rc_order c))")
    case True
    with eq IH [of "removeElement (listBack c) c"] show ?thesis by simp
  next
    case False
    then show ?thesis by simp
  qed
qed

theorem cache_put_returns_iff:
  assumes wf: "wf_cache c" and new: "rc_items c k = None"
  shows "(\<exists>c'. cache_put t k v c = Some c') \<longleftrightarrow> 0 \<le> rc_max c"
proof -
  let ?d = "let (el, c') = pushFront \<lparr>ce_key = k, ce_val = v, ce_expires = t + rc_ttl c\<rparr> c
            in c'\<lparr>rc_items := (rc_items c')(k \<mapsto> el)\<rparr>"
  note f = put_fresh_refines [OF wf new, where v = v and t = "t + rc_ttl c"]
  have put: "cache_put t k v c = evict ?d"
    using new by (simp add: cache_put_def Let_def split: prod.split)
  show ?thesis
  proof
    assume "\<exists>c'. cache_put t k v c = Some c'"
    then obtain c' where "evict ?d = Some c'" unfolding put by blast
    then have "0 \<le> rc_max ?d" by (rule evict_only_nonneg)
    then show "0 \<le> rc_max c" unfolding f(3) .
  next
    assume "0 \<le> rc_max c"
    then have "rc_max ?d = int (nat (rc_max c))" unfolding f(3) by simp
    from evict_returns [OF f(1) this] show "\<exists>c'. cache_put t k v c = Some c'" unfolding put by blast
  qed
qed

theorem cache_put_returns_iff_witness:
  "wf_cache (newResultCache 5 (-1)) \<and> \<not> (\<exists>c'. cache_put 0 ''k'' ''v'' (newResultCache 5 (-1)) = Some c')"
proof -
  have wf: "wf_cache (newResultCache 5 (-1))" and new: "rc_items (newResultCache 5 (-1)) ''k'' = None"
    by (simp_all add: wf_cache_def newResultCache_def)
  from cache_put_returns_iff [OF wf new] wf show ?thesis by (simp add: newResultCache_def)
qed

end
