(* ===== verification/Go_Strings.thy ===== *)
theory Go_Strings
  imports Go_Prelude
begin

text \<open>
  The functions of Go's \<open>strings\<close> and \<open>strconv\<close> packages that the program uses, on byte
  strings. A string is taken to be valid UTF-8, as every string decoded from JSON or protobuf is.
  Where a function works on code points (lower case, white space, case folding) the model works
  on the bytes that encode them: exactly for ASCII and for the code points whose image is ASCII
  (the Kelvin sign U+212A, the dotted capital I U+0130, the long s U+017F) and for every white
  space code point; the lower case of other non-ASCII letters is not modelled (they are left as
  they are), which no keyword, prefix or field name of the program depends on.
\<close>

definition byte :: "char \<Rightarrow> nat" where
  "byte c = of_char c"

definition is_lower :: "char \<Rightarrow> bool" where
  "is_lower c \<longleftrightarrow> 97 \<le> byte c \<and> byte c \<le> 122"

definition is_upper :: "char \<Rightarrow> bool" where
  "is_upper c \<longleftrightarrow> 65 \<le> byte c \<and> byte c \<le> 90"

definition is_digit :: "char \<Rightarrow> bool" where
  "is_digit c \<longleftrightarrow> 48 \<le> byte c \<and> byte c \<le> 57"

definition lower_char :: "char \<Rightarrow> char" where
  "lower_char c = (if is_upper c then char_of (byte c + 32) else c)"

fun has_prefix :: "string \<Rightarrow> string \<Rightarrow> bool" where
  "has_prefix s [] = True"
| "has_prefix [] (p # ps) = False"
| "has_prefix (c # cs) (p # ps) = (c = p \<and> has_prefix cs ps)"

definition has_suffix :: "string \<Rightarrow> string \<Rightarrow> bool" where
  "has_suffix s p = has_prefix (rev s) (rev p)"

definition trim_prefix :: "string \<Rightarrow> string \<Rightarrow> string" where
  "trim_prefix s p = (if has_prefix s p then drop (length p) s else s)"

fun contains :: "string \<Rightarrow> string \<Rightarrow> bool" where
  "contains [] p = (p = [])"
| "contains (c # cs) p = (has_prefix (c # cs) p \<or> contains cs p)"

text \<open>\<open>strings.Cut\<close> for a separator of one byte: before, after, found.\<close>

fun cut :: "string \<Rightarrow> char \<Rightarrow> string \<times> string \<times> bool" where
  "cut [] sep = ([], [], False)"
| "cut (c # cs) sep =
     (if c = sep then ([], cs, True) else let (a, b, found) = cut cs sep in (c # a, b, found))"

text \<open>\<open>strings.LastIndex\<close> for one byte: \<open>-1\<close> when it does not occur.\<close>

fun last_index :: "string \<Rightarrow> char \<Rightarrow> int" where
  "last_index [] c = -1"
| "last_index (x # xs) c =
     (let i = last_index xs c in if i \<ge> 0 then i + 1 else if x = c then 0 else -1)"

fun join :: "string list \<Rightarrow> string \<Rightarrow> string" where
  "join [] sep = []"
| "join [x] sep = x"
| "join (x # y # r) sep = x @ sep @ join (y # r) sep"

text \<open>\<open>strings.Split\<close> for a separator of one byte.\<close>

fun split_at :: "string \<Rightarrow> char \<Rightarrow> string list" where
  "split_at [] sep = [[]]"
| "split_at (c # cs) sep =
     (if c = sep then [] # split_at cs sep
      else case split_at cs sep of [] \<Rightarrow> [[c]] | p # ps \<Rightarrow> (c # p) # ps)"

text \<open>\<open>strings.Replace (s, old, new, 1)\<close> for a non-empty \<open>old\<close>.\<close>

fun replace_first :: "string \<Rightarrow> string \<Rightarrow> string \<Rightarrow> string" where
  "replace_first [] old new = []"
| "replace_first (c # cs) old new =
     (if has_prefix (c # cs) old then new @ drop (length old) (c # cs)
      else c # replace_first cs old new)"

text \<open>\<open>strings.ToLower\<close>.\<close>

definition kelvin_sign :: string where
  "kelvin_sign = [CHR 0xE2, CHR 0x84, CHR 0xAA]"

definition dotted_capital_i :: string where
  "dotted_capital_i = [CHR 0xC4, CHR 0xB0]"

definition long_s :: string where
  "long_s = [CHR 0xC5, CHR 0xBF]"

fun to_lower :: "string \<Rightarrow> string" where
  "to_lower [] = []"
| "to_lower (c # cs) =
     (if has_prefix (c # cs) kelvin_sign then CHR ''k'' # to_lower (drop 2 cs)
      else if has_prefix (c # cs) dotted_capital_i then CHR ''i'' # to_lower (drop 1 cs)
      else lower_char c # to_lower cs)"

text \<open>
  \<open>strings.EqualFold\<close>: equality of the simple case foldings. The Kelvin sign folds with k and
  the long s with s.
\<close>

fun fold_case :: "string \<Rightarrow> string" where
  "fold_case [] = []"
| "fold_case (c # cs) =
     (if has_prefix (c # cs) kelvin_sign then CHR ''k'' # fold_case (drop 2 cs)
      else if has_prefix (c # cs) long_s then CHR ''s'' # fold_case (drop 1 cs)
      else lower_char c # fold_case cs)"

definition equal_fold :: "string \<Rightarrow> string \<Rightarrow> bool" where
  "equal_fold s t \<longleftrightarrow> fold_case s = fold_case t"

text \<open>\<open>strings.TrimSpace\<close>: the UTF-8 encodings of the white space code points.\<close>

definition white_space :: "string list" where
  "white_space =
     [[CHR 0x09], [CHR 0x0A], [CHR 0x0B], [CHR 0x0C], [CHR 0x0D], [CHR 0x20],
      [CHR 0xC2, CHR 0x85], [CHR 0xC2, CHR 0xA0], [CHR 0xE1, CHR 0x9A, CHR 0x80],
      [CHR 0xE2, CHR 0x80, CHR 0x80], [CHR 0xE2, CHR 0x80, CHR 0x81], [CHR 0xE2, CHR 0x80, CHR 0x82],
      [CHR 0xE2, CHR 0x80, CHR 0x83], [CHR 0xE2, CHR 0x80, CHR 0x84], [CHR 0xE2, CHR 0x80, CHR 0x85],
      [CHR 0xE2, CHR 0x80, CHR 0x86], [CHR 0xE2, CHR 0x80, CHR 0x87], [CHR 0xE2, CHR 0x80, CHR 0x88],
      [CHR 0xE2, CHR 0x80, CHR 0x89], [CHR 0xE2, CHR 0x80, CHR 0x8A], [CHR 0xE2, CHR 0x80, CHR 0xA8],
      [CHR 0xE2, CHR 0x80, CHR 0xA9], [CHR 0xE2, CHR 0x80, CHR 0xAF], [CHR 0xE2, CHR 0x81, CHR 0x9F],
      [CHR 0xE3, CHR 0x80, CHR 0x80]]"

fun strip_any :: "string list \<Rightarrow> string \<Rightarrow> string" where
  "strip_any ws [] = []"
| "strip_any ws (c # cs) =
     (case find (\<lambda>w. has_prefix (c # cs) w) ws of
        None \<Rightarrow> c # cs
      | Some w \<Rightarrow> strip_any ws (drop (length w - 1) cs))"

definition trim_space :: "string \<Rightarrow> string" where
  "trim_space s = rev (strip_any (map rev white_space) (rev (strip_any white_space s)))"

text \<open>Decimal numbers, \<open>%d\<close> and \<open>strconv.Itoa\<close>.\<close>

fun dec_nat :: "nat \<Rightarrow> string" where
  "dec_nat n = (if n < 10 then [char_of (48 + n)] else dec_nat (n div 10) @ [char_of (48 + n mod 10)])"

declare dec_nat.simps [simp del]

definition itoa :: "int \<Rightarrow> string" where
  "itoa i = (if i < 0 then CHR ''-'' # dec_nat (nat (- i)) else dec_nat (nat i))"

text \<open>\<open>%q\<close> for a string of ASCII characters; other characters are left as they are.\<close>

definition quote_char :: "char \<Rightarrow> string" where
  "quote_char c =
     (if c = CHR 0x22 \<or> c = CHR 0x5C then [CHR 0x5C, c]
      else if c = CHR 0x07 then [CHR 0x5C, CHR ''a''] else if c = CHR 0x08 then [CHR 0x5C, CHR ''b'']
      else if c = CHR 0x0C then [CHR 0x5C, CHR ''f''] else if c = CHR 0x0A then [CHR 0x5C, CHR ''n'']
      else if c = CHR 0x0D then [CHR 0x5C, CHR ''r''] else if c = CHR 0x09 then [CHR 0x5C, CHR ''t'']
      else if c = CHR 0x0B then [CHR 0x5C, CHR ''v'']
      else if byte c < 32 \<or> byte c = 127 then
        [CHR 0x5C, CHR ''x''] @ map (\<lambda>d. if d < 10 then char_of (48 + d) else char_of (87 + d)) [byte c div 16, byte c mod 16]
      else [c])"

definition quoted :: "string \<Rightarrow> string" where
  "quoted s = CHR 0x22 # concat (map quote_char s) @ [CHR 0x22]"

subsection \<open>Facts\<close>

lemma has_prefix_iff: "has_prefix s p \<longleftrightarrow> (\<exists>r. s = p @ r)"
  by (induction s p rule: has_prefix.induct) auto

lemma has_prefix_append [simp]: "has_prefix (p @ r) p"
  by (auto simp: has_prefix_iff)

lemma has_prefix_same_append [simp]: "has_prefix (p @ s) (p @ q) = has_prefix s q"
  by (induction p) auto

lemma contains_iff: "contains s p \<longleftrightarrow> (\<exists>a b. s = a @ p @ b)"
proof (induction s)
  case Nil
  then show ?case by auto
next
  case (Cons c cs)
  have "(\<exists>a b. c # cs = a @ p @ b) \<longleftrightarrow> (\<exists>b. c # cs = p @ b) \<or> (\<exists>a b. cs = a @ p @ b)"
    by (metis (no_types, opaque_lifting) append_Cons append_Nil list.inject neq_Nil_conv)
  with Cons show ?case by (simp add: has_prefix_iff)
qed

lemma contains_append [intro]: "contains s p \<Longrightarrow> contains (a @ s @ b) p"
  by (metis contains_iff append_assoc)

lemma contains_mid [simp]: "contains (a @ p @ b) p"
  by (auto simp: contains_iff)

lemma contains_trans: "contains s p \<Longrightarrow> contains p q \<Longrightarrow> contains s q"
  by (metis contains_iff append_assoc)

lemma contains_length: "contains s p \<Longrightarrow> length p \<le> length s"
  by (auto simp: contains_iff)

lemma cut_found: "cut s sep = (a, b, True) \<Longrightarrow> s = a @ sep # b \<and> sep \<notin> set a"
proof (induction s arbitrary: a)
  case Nil
  then show ?case by simp
next
  case (Cons c cs)
  obtain a' b' f where r: "cut cs sep = (a', b', f)" by (cases "cut cs sep")
  with Cons show ?case by (cases "c = sep") auto
qed

lemma cut_append [simp]: "sep \<notin> set a \<Longrightarrow> cut (a @ sep # b) sep = (a, b, True)"
  by (induction a) auto

lemma cut_absent [simp]: "sep \<notin> set s \<Longrightarrow> cut s sep = (s, [], False)"
  by (induction s) auto

lemma cut_not_found: "cut s sep = (a, b, False) \<longleftrightarrow> sep \<notin> set s \<and> a = s \<and> b = []"
  by (cases "sep \<in> set s") (auto dest: split_list_first)

lemma last_index_range: "-1 \<le> last_index s c \<and> last_index s c < int (length s)"
  by (induction s) (auto simp: Let_def)

lemma last_index_neg: "last_index s c < 0 \<longleftrightarrow> c \<notin> set s"
  by (induction s) (auto simp: Let_def)

lemma last_index_drop:
  "0 \<le> last_index s c \<Longrightarrow>
   \<exists>a b. s = a @ c # b \<and> c \<notin> set b \<and> drop (nat (last_index s c + 1)) s = b"
proof (induction s)
  case Nil
  then show ?case by simp
next
  case (Cons x xs)
  show ?case
  proof (cases "0 \<le> last_index xs c")
    case True
    with Cons.IH obtain a b where ab: "xs = a @ c # b" "c \<notin> set b" "drop (nat (last_index xs c + 1)) xs = b"
      by blast
    have "nat (last_index (x # xs) c + 1) = Suc (nat (last_index xs c + 1))"
      using True by (simp add: Let_def)
    then have "drop (nat (last_index (x # xs) c + 1)) (x # xs) = b" using ab(3) by simp
    moreover have "x # xs = (x # a) @ c # b" using ab(1) by simp
    ultimately show ?thesis using ab(2) by blast
  next
    case False
    with Cons.prems have "x = c" "c \<notin> set xs" using last_index_neg [of xs c] by (auto simp: Let_def split: if_splits)
    with False have "x # xs = [] @ c # xs \<and> c \<notin> set xs \<and> drop (nat (last_index (x # xs) c + 1)) (x # xs) = xs"
      by (simp add: Let_def)
    then show ?thesis by blast
  qed
qed

lemma byte_lt [simp]: "byte c < 256"
  by (simp add: byte_def)

lemma byte_inj: "byte c = byte d \<longleftrightarrow> c = d"
  by (simp add: byte_def)

lemma lower_char_not_upper: "\<not> is_upper (lower_char c)"
  by (auto simp: lower_char_def is_upper_def byte_def of_char_of)

lemma lower_char_idem [simp]: "lower_char (lower_char c) = lower_char c"
  using lower_char_not_upper [of c] by (simp add: lower_char_def [of "lower_char c"])

end
