(* ===== verification/Go_Values.thy ===== *)
theory Go_Values
  imports Complex_Main Go_Strings
begin

text \<open>
  Decoded JSON: the values a Go variable of type \<open>any\<close> holds after the dynamic client or
  \<open>encoding/json\<close> has decoded an object. \<open>map[string]any\<close> is an association list, since
  the program iterates over such maps; its keys are distinct in every decoded value. A float64 is
  the rational number it denotes (JSON has no NaN and no infinities).
\<close>

datatype any =
    JNull
  | JBool bool
  | JInt int
  | JFloat rat
  | JStr string
  | JList "any list"
  | JMap "(string \<times> any) list"

type_synonym object = "(string \<times> any) list"

text \<open>Type assertions with the two-value form, \<open>v, ok := x.(T)\<close>.\<close>

fun as_string :: "any option \<Rightarrow> string option" where
  "as_string (Some (JStr s)) = Some s"
| "as_string _ = None"

fun as_list :: "any option \<Rightarrow> any list option" where
  "as_list (Some (JList l)) = Some l"
| "as_list _ = None"

fun as_map :: "any option \<Rightarrow> object option" where
  "as_map (Some (JMap m)) = Some m"
| "as_map _ = None"

text \<open>\<open>s, _ := m[key].(string)\<close>: the zero value where the assertion fails.\<close>

definition str_field :: "object \<Rightarrow> string \<Rightarrow> string" where
  "str_field m k = (case as_string (map_of m k) of Some s \<Rightarrow> s | None \<Rightarrow> [])"

text \<open>
  Conversion of a float64 to a 64-bit integer: truncation towards zero; a value out of range
  gives the least integer, as the amd64 conversion instruction does.
\<close>

definition int_of_float :: "rat \<Rightarrow> int" where
  "int_of_float q =
     (let i = (if q < 0 then - \<lfloor>- q\<rfloor> else \<lfloor>q\<rfloor>)
      in if - (2 ^ 63) \<le> i \<and> i < 2 ^ 63 then i else - (2 ^ 63))"

text \<open>
  The JSON value of a slice or map variable that is nil until something is put into it, and the
  assertions \<open>m[key]\<close> on a map: null for a missing key.
\<close>

definition slice_value :: "any list \<Rightarrow> any" where
  "slice_value l = (if l = [] then JNull else JList l)"

definition text_map_value :: "(string \<times> string) list \<Rightarrow> any" where
  "text_map_value m = (if m = [] then JNull else JMap (map (\<lambda>(k, v). (k, JStr v)) m))"

text \<open>Paths into a value, and the value at a path.\<close>

datatype step = Key string | Idx nat

fun value_at :: "any \<Rightarrow> step list \<Rightarrow> any option" where
  "value_at v [] = Some v"
| "value_at (JMap m) (Key k # p) = (case map_of m k of Some v \<Rightarrow> value_at v p | None \<Rightarrow> None)"
| "value_at (JList l) (Idx i # p) = (if i < length l then value_at (l ! i) p else None)"
| "value_at _ (_ # _) = None"

lemma as_string_Some [simp]: "as_string x = Some s \<longleftrightarrow> x = Some (JStr s)"
  by (cases x rule: as_string.cases) auto

lemma as_map_Some [simp]: "as_map x = Some s \<longleftrightarrow> x = Some (JMap s)"
  by (cases x rule: as_map.cases) auto

lemma as_list_Some [simp]: "as_list x = Some s \<longleftrightarrow> x = Some (JList s)"
  by (cases x rule: as_list.cases) auto

end
