(* ===== verification/Mcp_Args.thy ===== *)
theory Mcp_Args
  imports Go_Values
begin

text \<open>
  The typed getters of a tool call's arguments, \<open>src/internal/mcp/server.go\<close>. The arguments are
  the decoded JSON object, empty when there were none or they did not decode.
\<close>

type_synonym args = object

definition arg_str :: "args \<Rightarrow> string \<Rightarrow> string" where
  "arg_str a key = (case map_of a key of Some (JStr s) \<Rightarrow> s | _ \<Rightarrow> [])"

definition arg_boolean :: "args \<Rightarrow> string \<Rightarrow> bool" where
  "arg_boolean a key = (case map_of a key of Some (JBool b) \<Rightarrow> b | _ \<Rightarrow> False)"

fun nonempty_strings :: "any list \<Rightarrow> string list" where
  "nonempty_strings [] = []"
| "nonempty_strings (JStr s # r) = (if s \<noteq> [] then s # nonempty_strings r else nonempty_strings r)"
| "nonempty_strings (_ # r) = nonempty_strings r"

definition arg_strs :: "args \<Rightarrow> string \<Rightarrow> string list" where
  "arg_strs a key = nonempty_strings (case map_of a key of Some (JList raw) \<Rightarrow> raw | _ \<Rightarrow> [])"

definition arg_intOr :: "args \<Rightarrow> string \<Rightarrow> int \<Rightarrow> int" where
  "arg_intOr a key d =
     (case map_of a key of Some (JFloat v) \<Rightarrow> int_of_float v | Some (JInt v) \<Rightarrow> v | _ \<Rightarrow> d)"

lemma nonempty_strings_not_empty: "[] \<notin> set (nonempty_strings l)"
  by (induction l rule: nonempty_strings.induct) auto

end
