(* ===== verification/Kube_Api.thy ===== *)
theory Kube_Api
  imports Go_Values
begin

text \<open>
  The data of the Kubernetes client libraries the program reads, and Go errors. The libraries
  themselves are not part of the repository: what they compute is a parameter of the definitions
  that call them. Here are only the fields of their types that the program looks at.

  An error of the API client is a value of the type parameter \<open>'e\<close>. \<open>Msg\<close> is an error made
  by \<open>errors.New\<close> or \<open>fmt.Errorf\<close>, \<open>Wrap pre e post\<close> is \<open>fmt.Errorf\<close> with one
  \<open>%w\<close>: the text before it, the wrapped error, the text after it.
\<close>

datatype 'e goerr = Api 'e | Msg string | Wrap string "'e goerr" string

text \<open>The text of an error, given the text of the client's errors.\<close>

primrec error_text :: "('e \<Rightarrow> string) \<Rightarrow> 'e goerr \<Rightarrow> string" where
  "error_text txt (Api e) = txt e"
| "error_text txt (Msg s) = s"
| "error_text txt (Wrap pre e post) = pre @ error_text txt e @ post"

text \<open>Labels and annotations: a lookup in a Go map, the empty string where the key is absent.\<close>

type_synonym labels = "(string \<times> string) list"

definition label :: "labels \<Rightarrow> string \<Rightarrow> string" where
  "label l k = (case map_of l k of Some v \<Rightarrow> v | None \<Rightarrow> [])"

record listOptions =
  Limit :: int
  Continue :: string

record ownerReference =
  or_apiVersion :: string
  or_kind :: string
  or_name :: string
  or_uid :: string
  or_controller :: bool

record objectMeta =
  om_namespace :: string
  om_name :: string
  om_uid :: string
  om_labels :: labels
  om_annotations :: labels
  om_ownerReferences :: "ownerReference list"
  om_deleting :: bool

record gvr =
  gvr_group :: string
  gvr_version :: string
  gvr_resource :: string

text \<open>
  The reply of a server to one list request: the items of the page and the token of the next. It may depend on
  how many requests of the listing were made before.
\<close>

type_synonym ('e, 'a) list_call = "nat \<Rightarrow> listOptions \<Rightarrow> ('e, 'a list \<times> string) fallible"

end
