(* ===== verification/Tool_Server.thy ===== *)
theory Tool_Server
  imports Result_Cache Mcp_Args Kube_Api
begin

text \<open>
  The call of a tool, \<open>addTool\<close> of \<open>src/internal/mcp/server.go\<close>: decoding of the arguments, the
  result cache and the rendering of the result. A handler takes the arguments and the world and
  returns a text or a value; \<open>json.MarshalIndent\<close> of such a value and \<open>json.Unmarshal\<close> of the
  arguments are parameters (\<open>decode\<close> gives the empty object for text that does not decode).
\<close>

datatype 'v toolValue = PlainText string | JsonValue 'v

type_synonym ('e, 'v, 'w) handlerFunc = "args \<Rightarrow> 'w \<Rightarrow> ('e goerr, 'v toolValue) fallible \<times> 'w"

record ('e, 'v, 'w) tool =
  tool_name :: string
  tool_handler :: "('e, 'v, 'w) handlerFunc"

record callResult =
  cr_text :: string
  cr_isError :: bool

definition textResult :: "string \<Rightarrow> callResult" where
  "textResult text = \<lparr>cr_text = text, cr_isError = False\<rparr>"

definition errResult :: "string \<Rightarrow> callResult" where
  "errResult text = \<lparr>cr_text = text, cr_isError = True\<rparr>"

text \<open>
  What the program hands the MCP library for a server: its name and version, the instructions, and
  the tools in the order they were added.
\<close>

record 't mcpServer =
  ms_name :: string
  ms_version :: string
  ms_instructions :: string
  ms_tools :: "'t list"

text \<open>\<open>version.String\<close>; the three variables are set when the program is linked.\<close>

definition version_String :: "string \<Rightarrow> string \<Rightarrow> string \<Rightarrow> string" where
  "version_String ver commit date = ver @ '' (commit '' @ commit @ '', built '' @ date @ '')''"

definition NewServerCache :: resultCache where
  "NewServerCache = newResultCache (5 * second) 512"

definition tool_key :: "string \<Rightarrow> string \<Rightarrow> string" where
  "tool_key name raw = name @ [CHR 0x00] @ raw"

definition run_handler ::
  "('v \<Rightarrow> ('e, string) fallible) \<Rightarrow> ('e, 'v, 'w) handlerFunc \<Rightarrow> args \<Rightarrow> 'w \<Rightarrow> ('e goerr, string) fallible \<times> 'w" where
  "run_handler marshal handler a w =
     (case handler a w of
        (Inl herr, w') \<Rightarrow> (Inl herr, w')
      | (Inr (PlainText s), w') \<Rightarrow> (Inr s, w')
      | (Inr (JsonValue v), w') \<Rightarrow>
          (case marshal v of
             Inl merr \<Rightarrow> (Inl (Wrap ''marshal result: '' (Api merr) []), w')
           | Inr b \<Rightarrow> (Inr b, w')))"

definition callTool ::
  "(string \<Rightarrow> ('e goerr, 'w) flight \<Rightarrow> ('e goerr, 'w) flight) \<Rightarrow> (string \<Rightarrow> args) \<Rightarrow> ('v \<Rightarrow> ('e, string) fallible) \<Rightarrow>
   ('e \<Rightarrow> string) \<Rightarrow> instant \<Rightarrow> instant \<Rightarrow> instant \<Rightarrow> ('e, 'v, 'w) tool \<Rightarrow> string \<Rightarrow> resultCache \<times> 'w \<Rightarrow>
   (callResult \<times> resultCache \<times> 'w) option" where
  "callTool group_Do decode marshal txt t1 t2 t3 t raw s =
     (let a = (if length raw > 0 then decode raw else []) in
      case cache_do group_Do t1 t2 t3 (tool_key (tool_name t) raw) (run_handler marshal (tool_handler t) a) s of
        None \<Rightarrow> None
      | Some (Inl err, s') \<Rightarrow> Some (errResult (error_text txt err), s')
      | Some (Inr text, s') \<Rightarrow> Some (textResult text, s'))"

subsection \<open>Calls and the cache\<close>

lemma tool_key_inject:
  "CHR 0x00 \<notin> set n \<Longrightarrow> CHR 0x00 \<notin> set n' \<Longrightarrow> tool_key n r = tool_key n' r' \<longleftrightarrow> n = n' \<and> r = r'"
proof (induction n arbitrary: n')
  case Nil
  then show ?case by (cases n') (auto simp: tool_key_def)
next
  case (Cons c n)
  then show ?case by (cases n') (auto simp: tool_key_def)
qed

lemma callTool_miss:
  assumes "runs_directly group_Do" and "cache_ok cap ttl c" and "0 < cap"
    and "expired_or_absent t1 (tool_key (tool_name t) raw) c"
    and "run_handler marshal (tool_handler t) (if length raw > 0 then decode raw else []) w = (Inr text, w')"
  shows "\<exists>c1. callTool group_Do decode marshal txt t1 t2 t3 t raw (c, w) = Some (textResult text, c1, w') \<and>
    cache_ok cap ttl c1 \<and> map_of (contents c1) (tool_key (tool_name t) raw) = Some (text, t3 + ttl)"
proof -
  let ?fn = "run_handler marshal (tool_handler t) (if length raw > 0 then decode raw else [])"
  obtain c1 where c1: "cache_do group_Do t1 t2 t3 (tool_key (tool_name t) raw) ?fn (c, w) = Some (Inr text, c1, w')"
    "cache_ok cap ttl c1" "contents c1 = lru_put cap ttl t3 (tool_key (tool_name t) raw) text (contents c)"
    using cache_do_miss(2) [where fn = ?fn and w = w, OF assms(1,2,4,5)] by blast
  have "map_of (contents c1) (tool_key (tool_name t) raw) = Some (text, t3 + ttl)"
    using assms(3) unfolding c1(3) lru_put_def by (cases cap) simp_all
  with c1(1,2) show ?thesis by (auto simp: callTool_def Let_def)
qed

text \<open>
  Identical queries share one result and others never do: a call that is not cached runs its
  handler once and returns the rendered result; an identical call within the time to live returns
  the same text and runs no handler; and the key of a call determines the tool and the arguments.
\<close>

theorem tool_calls_share_result:
  assumes "runs_directly group_Do" and "cache_ok cap ttl c" and "0 < cap"
    and "expired_or_absent t1 (tool_key (tool_name t) raw) c"
    and "run_handler marshal (tool_handler t) (if length raw > 0 then decode raw else []) w = (Inr text, w')"
    and "s1 \<le> t3 + ttl" and "CHR 0x00 \<notin> set (tool_name t)" and "CHR 0x00 \<notin> set name'"
  shows "\<exists>c1 c2. callTool group_Do decode marshal txt t1 t2 t3 t raw (c, w) = Some (textResult text, c1, w') \<and>
    callTool group_Do decode marshal txt s1 s2 s3 t raw (c1, v) = Some (textResult text, c2, v) \<and>
    (tool_key (tool_name t) raw = tool_key name' raw' \<longleftrightarrow> tool_name t = name' \<and> raw = raw')"
proof -
  obtain c1 where c1: "callTool group_Do decode marshal txt t1 t2 t3 t raw (c, w) = Some (textResult text, c1, w')"
    "cache_ok cap ttl c1" "map_of (contents c1) (tool_key (tool_name t) raw) = Some (text, t3 + ttl)"
    using callTool_miss [where decode = decode and raw = raw and t = t and marshal = marshal, OF assms(1-5)] by blast
  have "\<exists>c2. callTool group_Do decode marshal txt s1 s2 s3 t raw (c1, v) = Some (textResult text, c2, v)"
    using cache_do_hit [OF c1(2,3) assms(6), of group_Do s2 s3
        "run_handler marshal (tool_handler t) (if length raw > 0 then decode raw else [])" v]
    by (auto simp: callTool_def Let_def)
  with c1(1) tool_key_inject [OF assms(7,8)] show ?thesis by blast
qed

definition sample_tool :: "(string, nat, nat) tool" where
  "sample_tool = \<lparr>tool_name = ''list_pods'', tool_handler = (\<lambda>a n. (Inr (JsonValue n), n + 1))\<rparr>"

theorem tool_calls_share_result_witness:
  "\<exists>c1 c2. callTool (\<lambda>k f s. f s) (\<lambda>_. []) (\<lambda>v. Inr ''7'') id 0 0 1 sample_tool ''{}'' (NewServerCache, 7) =
       Some (textResult ''7'', c1, 8) \<and>
     callTool (\<lambda>k f s. f s) (\<lambda>_. []) (\<lambda>v. Inr ''7'') id (4 * second) 0 0 sample_tool ''{}'' (c1, 9) =
       Some (textResult ''7'', c2, 9)"
proof -
  have "\<exists>c1 c2. callTool (\<lambda>k f s. f s) (\<lambda>_. []) (\<lambda>v. Inr ''7'') id 0 0 1 sample_tool ''{}'' (NewServerCache, 7) =
       Some (textResult ''7'', c1, 8) \<and>
     callTool (\<lambda>k f s. f s) (\<lambda>_. []) (\<lambda>v. Inr ''7'') id (4 * second) 0 0 sample_tool ''{}'' (c1, 9) =
       Some (textResult ''7'', c2, 9) \<and>
     (tool_key (tool_name sample_tool) ''{}'' = tool_key [] [] \<longleftrightarrow> tool_name sample_tool = [] \<and> ''{}'' = [])"
    by (rule tool_calls_share_result [where cap = 512 and ttl = "5 * second"])
      (simp_all add: NewServerCache_def cache_ok_new [of 512, simplified] runs_directly_def expired_or_absent_def
        run_handler_def sample_tool_def second_def)
  then show ?thesis by blast
qed

end
