(* ===== verification/Net_Url.thy ===== *)
theory Net_Url
  imports Go_Strings
begin

text \<open>
  The part of Go's \<open>net/url\<close> (Go 1.25) the redactor uses: \<open>url.Parse\<close>, \<open>(*URL).String\<close>,
  \<open>url.UserPassword\<close>, \<open>(*Userinfo).Password\<close> and \<open>url.QueryEscape\<close>. Why a URL does not
  parse is never looked at, so a parse error is \<open>None\<close>.
\<close>

datatype encoding =
  EncodePath | EncodeHost | EncodeZone | EncodeUserPassword | EncodeQueryComponent | EncodeFragment

record url =
  u_scheme :: string
  u_opaque :: string
  u_user :: "(string \<times> string option) option"
  u_host :: string
  u_path :: string
  u_rawPath :: string
  u_omitHost :: bool
  u_forceQuery :: bool
  u_rawQuery :: string
  u_fragment :: string
  u_rawFragment :: string

definition empty_url :: url where
  "empty_url =
     \<lparr>u_scheme = [], u_opaque = [], u_user = None, u_host = [], u_path = [], u_rawPath = [],
      u_omitHost = False, u_forceQuery = False, u_rawQuery = [], u_fragment = [], u_rawFragment = []\<rparr>"

definition is_alnum :: "char \<Rightarrow> bool" where
  "is_alnum c \<longleftrightarrow> is_lower c \<or> is_upper c \<or> is_digit c"

definition is_hex :: "char \<Rightarrow> bool" where
  "is_hex c \<longleftrightarrow> is_digit c \<or> 97 \<le> byte c \<and> byte c \<le> 102 \<or> 65 \<le> byte c \<and> byte c \<le> 70"

definition unhex :: "char \<Rightarrow> nat" where
  "unhex c = (if is_digit c then byte c - 48 else if 97 \<le> byte c then byte c - 87 else byte c - 55)"

definition upper_hex :: "nat \<Rightarrow> char" where
  "upper_hex n = (if n < 10 then char_of (48 + n) else char_of (55 + n))"

definition should_escape :: "encoding \<Rightarrow> char \<Rightarrow> bool" where
  "should_escape mode c =
     (if is_alnum c then False
      else if mode \<in> {EncodeHost, EncodeZone} \<and> c \<in> set ''!$&'' \<union> {CHR 0x27} \<union> set ''()*+,;=:[]<>'' \<union> {CHR 0x22}
        then False
      else if c \<in> set ''-_.~'' then False
      else if c \<in> set ''$&+,/:;=?@'' then
        (case mode of
           EncodePath \<Rightarrow> c = CHR ''?''
         | EncodeUserPassword \<Rightarrow> c \<in> set ''@/?:''
         | EncodeQueryComponent \<Rightarrow> True
         | EncodeFragment \<Rightarrow> False
         | _ \<Rightarrow> True)
      else if mode = EncodeFragment \<and> c \<in> set ''!()*'' then False
      else True)"

fun escape :: "encoding \<Rightarrow> string \<Rightarrow> string" where
  "escape mode [] = []"
| "escape mode (c # cs) =
     (if should_escape mode c then
        (if c = CHR '' '' \<and> mode = EncodeQueryComponent then CHR ''+'' # escape mode cs
         else CHR ''%'' # upper_hex (byte c div 16) # upper_hex (byte c mod 16) # escape mode cs)
      else c # escape mode cs)"

fun unescape :: "encoding \<Rightarrow> string \<Rightarrow> string option" where
  "unescape mode [] = Some []"
| "unescape mode (c # cs) =
     (if c = CHR ''%'' then
        (case cs of
           h1 # h2 # rest \<Rightarrow>
             (let v = char_of (16 * unhex h1 + unhex h2) in
              if \<not> is_hex h1 \<or> \<not> is_hex h2 then None
              else if mode = EncodeHost \<and> unhex h1 < 8 \<and> [h1, h2] \<noteq> ''25'' then None
              else if mode = EncodeZone \<and> [h1, h2] \<noteq> ''25'' \<and> v \<noteq> CHR '' '' \<and> should_escape EncodeHost v
                then None
              else map_option ((#) v) (unescape mode rest))
         | _ \<Rightarrow> None)
      else if c = CHR ''+'' then
        map_option ((#) (if mode = EncodeQueryComponent then CHR '' '' else CHR ''+'')) (unescape mode cs)
      else if mode \<in> {EncodeHost, EncodeZone} \<and> byte c < 128 \<and> should_escape mode c then None
      else map_option ((#) c) (unescape mode cs))"

definition valid_encoded :: "encoding \<Rightarrow> string \<Rightarrow> bool" where
  "valid_encoded mode s =
     list_all (\<lambda>c. c \<in> set ''!$&'' \<union> {CHR 0x27} \<union> set ''()*+,;=:@[]%'' \<or> \<not> should_escape mode c) s"

text \<open>\<open>setPath\<close> and \<open>setFragment\<close>: the decoded text, and the raw text when it is not the default encoding.\<close>

definition decode_with_raw :: "encoding \<Rightarrow> string \<Rightarrow> (string \<times> string) option" where
  "decode_with_raw mode p =
     map_option (\<lambda>d. (d, if escape mode d = p then [] else p)) (unescape mode p)"

text \<open>\<open>EscapedPath\<close> and \<open>EscapedFragment\<close>.\<close>

definition escaped :: "encoding \<Rightarrow> string \<Rightarrow> string \<Rightarrow> string" where
  "escaped mode raw d =
     (if raw \<noteq> [] \<and> valid_encoded mode raw \<and> unescape mode raw = Some d then raw
      else if mode = EncodePath \<and> d = ''*'' then ''*''
      else escape mode d)"

fun scan_scheme :: "string \<Rightarrow> string \<Rightarrow> string \<Rightarrow> (string \<times> string) option" where
  "scan_scheme raw acc [] = Some ([], raw)"
| "scan_scheme raw acc (c # cs) =
     (if is_lower c \<or> is_upper c then scan_scheme raw (acc @ [c]) cs
      else if is_digit c \<or> c \<in> set ''+-.'' then
        (if acc = [] then Some ([], raw) else scan_scheme raw (acc @ [c]) cs)
      else if c = CHR '':'' then (if acc = [] then None else Some (acc, cs))
      else Some ([], raw))"

definition get_scheme :: "string \<Rightarrow> (string \<times> string) option" where
  "get_scheme raw = scan_scheme raw [] raw"

definition valid_optional_port :: "string \<Rightarrow> bool" where
  "valid_optional_port p =
     (case p of [] \<Rightarrow> True | c # cs \<Rightarrow> c = CHR '':'' \<and> list_all is_digit cs)"

text \<open>The text before the first \<open>%25\<close>, and the text from it on.\<close>

fun split_zone :: "string \<Rightarrow> (string \<times> string) option" where
  "split_zone [] = None"
| "split_zone (c # cs) =
     (if has_prefix (c # cs) ''%25'' then Some ([], c # cs)
      else map_option (\<lambda>(a, b). (c # a, b)) (split_zone cs))"

definition parse_host :: "string \<Rightarrow> string option" where
  "parse_host host =
     (if has_prefix host ''['' then
        (let i = last_index host (CHR '']'') in
         if i < 0 then None
         else if \<not> valid_optional_port (drop (nat (i + 1)) host) then None
         else case split_zone (take (nat i) host) of
                Some (h1, h2) \<Rightarrow>
                  (case (unescape EncodeHost h1, unescape EncodeZone h2,
                         unescape EncodeHost (drop (nat i) host)) of
                     (Some a, Some b, Some c) \<Rightarrow> Some (a @ b @ c)
                   | _ \<Rightarrow> None)
              | None \<Rightarrow> unescape EncodeHost host)
      else
        (let i = last_index host (CHR '':'') in
         if i \<noteq> -1 \<and> \<not> valid_optional_port (drop (nat i) host) then None
         else unescape EncodeHost host))"

definition valid_userinfo :: "string \<Rightarrow> bool" where
  "valid_userinfo s =
     list_all (\<lambda>c. is_alnum c \<or> c \<in> set ''-._:~!$&'' \<union> {CHR 0x27} \<union> set ''()*+,;=%@'') s"

definition parse_userinfo :: "string \<Rightarrow> (string \<times> string option) option" where
  "parse_userinfo ui =
     (if \<not> valid_userinfo ui then None
      else case cut ui (CHR '':'') of
             (name, pass, True) \<Rightarrow>
               (case (unescape EncodeUserPassword name, unescape EncodeUserPassword pass) of
                  (Some n, Some p) \<Rightarrow> Some (n, Some p)
                | _ \<Rightarrow> None)
           | (_, _, False) \<Rightarrow> map_option (\<lambda>n. (n, None)) (unescape EncodeUserPassword ui))"

definition parse_authority :: "string \<Rightarrow> ((string \<times> string option) option \<times> string) option" where
  "parse_authority auth =
     (let i = last_index auth (CHR ''@'') in
      if i < 0 then map_option (\<lambda>h. (None, h)) (parse_host auth)
      else case parse_host (drop (nat (i + 1)) auth) of
             None \<Rightarrow> None
           | Some h \<Rightarrow> map_option (\<lambda>u. (Some u, h)) (parse_userinfo (take (nat i) auth)))"

definition contains_ctl_byte :: "string \<Rightarrow> bool" where
  "contains_ctl_byte s = list_ex (\<lambda>c. byte c < 32 \<or> byte c = 127) s"

text \<open>\<open>parse\<close> after the scheme and the query: authority and path.\<close>

definition parse_hier :: "url \<Rightarrow> string \<Rightarrow> url option" where
  "parse_hier u rest =
     (let (auth, path) =
        (if (u_scheme u \<noteq> [] \<or> \<not> has_prefix rest ''///'') \<and> has_prefix rest ''//''
         then (Some (takeWhile (\<lambda>c. c \<noteq> CHR ''/'') (drop 2 rest)),
               dropWhile (\<lambda>c. c \<noteq> CHR ''/'') (drop 2 rest))
         else (None, rest));
       with_auth =
        (case auth of
           Some a \<Rightarrow> map_option (\<lambda>(usr, h). u\<lparr>u_user := usr, u_host := h\<rparr>) (parse_authority a)
         | None \<Rightarrow> Some (if u_scheme u \<noteq> [] \<and> has_prefix rest ''/'' then u\<lparr>u_omitHost := True\<rparr> else u))
      in case (with_auth, decode_with_raw EncodePath path) of
           (Some v, Some (p, raw)) \<Rightarrow> Some (v\<lparr>u_path := p, u_rawPath := raw\<rparr>)
         | _ \<Rightarrow> None)"

definition parse_no_fragment :: "string \<Rightarrow> url option" where
  "parse_no_fragment raw =
     (if contains_ctl_byte raw then None
      else if raw = ''*'' then Some (empty_url\<lparr>u_path := ''*''\<rparr>)
      else case get_scheme raw of
             None \<Rightarrow> None
           | Some (scheme, rest0) \<Rightarrow>
               (let force = (has_suffix rest0 ''?'' \<and> count_list rest0 (CHR ''?'') = 1);
                    (rest, query) =
                      (if force then (butlast rest0, [])
                       else let (a, b, _) = cut rest0 (CHR ''?'') in (a, b));
                    u = empty_url\<lparr>u_scheme := to_lower scheme, u_forceQuery := force, u_rawQuery := query\<rparr>
                in if \<not> has_prefix rest ''/'' \<and> u_scheme u \<noteq> [] then Some (u\<lparr>u_opaque := rest\<rparr>)
                   else if \<not> has_prefix rest ''/'' \<and> CHR '':'' \<in> set (fst (cut rest (CHR ''/''))) then None
                   else parse_hier u rest))"

definition url_parse :: "string \<Rightarrow> url option" where
  "url_parse raw =
     (let (s, frag, _) = cut raw (CHR ''#'') in
      case parse_no_fragment s of
        None \<Rightarrow> None
      | Some u \<Rightarrow>
          if frag = [] then Some u
          else map_option (\<lambda>(d, r). u\<lparr>u_fragment := d, u_rawFragment := r\<rparr>)
                 (decode_with_raw EncodeFragment frag))"

definition userinfo_string :: "string \<times> string option \<Rightarrow> string" where
  "userinfo_string ui =
     (case ui of (name, pw) \<Rightarrow>
        escape EncodeUserPassword name @
        (case pw of None \<Rightarrow> [] | Some p \<Rightarrow> CHR '':'' # escape EncodeUserPassword p))"

definition authority_string :: "url \<Rightarrow> string" where
  "authority_string u =
     (if u_scheme u = [] \<and> u_host u = [] \<and> u_user u = None then []
      else if u_omitHost u \<and> u_host u = [] \<and> u_user u = None then []
      else (if u_host u \<noteq> [] \<or> u_path u \<noteq> [] \<or> u_user u \<noteq> None then ''//'' else []) @
           (case u_user u of None \<Rightarrow> [] | Some ui \<Rightarrow> userinfo_string ui @ ''@'') @
           escape EncodeHost (u_host u))"

definition url_string :: "url \<Rightarrow> string" where
  "url_string u =
     (let scheme = (if u_scheme u \<noteq> [] then u_scheme u @ '':'' else []);
          hier =
            (if u_opaque u \<noteq> [] then u_opaque u
             else
               let auth = authority_string u;
                   path = escaped EncodePath (u_rawPath u) (u_path u);
                   slash = (if path \<noteq> [] \<and> \<not> has_prefix path ''/'' \<and> u_host u \<noteq> [] then ''/'' else []);
                   dot = (if scheme @ auth @ slash = [] \<and> CHR '':'' \<in> set (fst (cut path (CHR ''/'')))
                          then ''./'' else [])
               in auth @ slash @ dot @ path)
      in scheme @ hier @
         (if u_forceQuery u \<or> u_rawQuery u \<noteq> [] then CHR ''?'' # u_rawQuery u else []) @
         (if u_fragment u \<noteq> [] then CHR ''#'' # escaped EncodeFragment (u_rawFragment u) (u_fragment u) else []))"

definition query_escape :: "string \<Rightarrow> string" where
  "query_escape s = escape EncodeQueryComponent s"

end
