(* ===== verification/Redact.thy ===== *)
theory Redact
  imports Go_Values Net_Url
begin

text \<open>
  Redaction of credential values, \<open>src/internal/mcp/redact.go\<close>. The Go code rewrites a decoded
  object in place and counts the replaced values through a pointer; the model returns the new
  object and the new count. A Go map is visited in no fixed order; the loop writes only the entry
  it visits and never adds one, so the order of the association list does not matter.
\<close>

subsection \<open>The code\<close>

definition redacted :: string where
  "redacted = ''[redacted]''"

definition sensitiveParts :: "string list" where
  "sensitiveParts =
     [''password'', ''passwd'', ''passphrase'',
      ''secret'', ''token'', ''credential'',
      ''apikey'', ''accesskey'', ''privatekey'', ''signingkey'', ''encryptionkey'',
      ''clientsecret'', ''bearer'', ''sasl'', ''authorization'']"

definition referenceKeys :: "string list" where
  "referenceKeys =
     [''secretname'', ''secretnamespace'', ''secretref'', ''secretkeyref'', ''secretkeyselector'',
      ''existingsecret'', ''configsecret'', ''tokensecret'', ''passwordsecret'',
      ''credentialssecret'', ''secretgeneratorref'', ''imagepullsecrets'', ''secrets'']"

definition normalizeKey :: "string \<Rightarrow> string" where
  "normalizeKey k = filter (\<lambda>r. is_lower r \<or> is_digit r) (to_lower k)"

definition sensitiveKey :: "string \<Rightarrow> bool" where
  "sensitiveKey key =
     (let k = normalizeKey key in
      if List.member referenceKeys k then False
      else list_ex (\<lambda>p. contains k p) sensitiveParts)"

definition redactFlag :: "string \<Rightarrow> string \<times> bool" where
  "redactFlag s =
     (let t = trim_space s in
      if \<not> has_prefix t ''-'' then (s, False)
      else let (name, val, found) = cut t (CHR ''='') in
        if \<not> found \<or> val = [] then (s, False)
        else if \<not> sensitiveKey name then (s, False)
        else (name @ ''='' @ redacted, True))"

definition redactURL :: "string \<Rightarrow> string \<times> bool" where
  "redactURL s =
     (if \<not> contains s ''://'' \<or> \<not> contains s ''@'' then (s, False)
      else case url_parse (trim_space s) of
             None \<Rightarrow> (s, False)
           | Some u \<Rightarrow>
               (case u_user u of
                  None \<Rightarrow> (s, False)
                | Some (name, None) \<Rightarrow> (s, False)
                | Some (name, Some _) \<Rightarrow>
                    (replace_first (url_string (u\<lparr>u_user := Some (name, Some redacted)\<rparr>))
                       (query_escape redacted) redacted, True)))"

definition redactString :: "string \<Rightarrow> string \<times> bool" where
  "redactString s = (case redactFlag s of (out, True) \<Rightarrow> (out, True) | (_, False) \<Rightarrow> redactURL s)"

text \<open>The two shapes \<open>redactMap\<close> looks for before its loop: an EnvVar and a Route's TLS block.\<close>

definition redactEnvVar :: "object \<Rightarrow> nat \<Rightarrow> object \<times> nat" where
  "redactEnvVar m n =
     (case as_string (map_of m ''name'') of
        Some name \<Rightarrow>
          if sensitiveKey name then
            (case as_string (map_of m ''value'') of
               Some _ \<Rightarrow> (assoc_put ''value'' (JStr redacted) m, n + 1)
             | None \<Rightarrow> (m, n))
          else (m, n)
      | None \<Rightarrow> (m, n))"

definition redactTLS :: "object \<Rightarrow> nat \<Rightarrow> object \<times> nat" where
  "redactTLS m n =
     (if map_of m ''termination'' \<noteq> None then
        (case as_string (map_of m ''key'') of
           Some v \<Rightarrow> if v \<noteq> [] then (assoc_put ''key'' (JStr redacted) m, n + 1) else (m, n)
         | None \<Rightarrow> (m, n))
      else (m, n))"

definition obj_size :: "object \<Rightarrow> nat" where
  "obj_size m = size_list (size_prod (\<lambda>_. 0) size) m"

lemma size_assoc_put_string:
  "map_of m k = Some (JStr s) \<Longrightarrow> obj_size (assoc_put k (JStr t) m) = obj_size m"
  by (induction m) (auto simp: obj_size_def)

lemma obj_size_redactEnvVar: "obj_size (fst (redactEnvVar m n)) = obj_size m"
  by (auto simp: redactEnvVar_def size_assoc_put_string split: option.split)

lemma obj_size_redactTLS: "obj_size (fst (redactTLS m n)) = obj_size m"
  by (auto simp: redactTLS_def size_assoc_put_string split: option.split)

lemma case_redact_sizes [simp]:
  "(case redactEnvVar m n of (m', _) \<Rightarrow> obj_size m') = obj_size m"
  "(case redactTLS m n of (m', _) \<Rightarrow> obj_size m') = obj_size m"
  using obj_size_redactEnvVar [of m n] obj_size_redactTLS [of m n]
  by (simp_all add: case_prod_beta)

lemma pair_redact_size: "(m', n') = redactEnvVar m n \<Longrightarrow> obj_size m' = obj_size m"
  using obj_size_redactEnvVar [of m n] by (metis fst_conv)

function redactMap :: "object \<Rightarrow> nat \<Rightarrow> object \<times> nat"
  and redactEntries :: "object \<Rightarrow> nat \<Rightarrow> object \<times> nat"
  and redactSlice :: "any list \<Rightarrow> nat \<Rightarrow> any list \<times> nat" where
  "redactMap m n =
     (let (m1, n1) = redactEnvVar m n; (m2, n2) = redactTLS m1 n1 in redactEntries m2 n2)"
| "redactEntries [] n = ([], n)"
| "redactEntries ((k, v) # rest) n =
     (let (v', n') =
        (case v of
           JMap val \<Rightarrow> (let (r, n1) = redactMap val n in (JMap r, n1))
         | JList val \<Rightarrow> (let (r, n1) = redactSlice val n in (JList r, n1))
         | JStr val \<Rightarrow>
             if sensitiveKey k then (if val \<noteq> [] then (JStr redacted, n + 1) else (v, n))
             else (case redactString val of (s, True) \<Rightarrow> (JStr s, n + 1) | (_, False) \<Rightarrow> (v, n))
         | _ \<Rightarrow> if sensitiveKey k \<and> v \<noteq> JNull then (JStr redacted, n + 1) else (v, n));
       (rest', n'') = redactEntries rest n'
      in ((k, v') # rest', n''))"
| "redactSlice [] n = ([], n)"
| "redactSlice (v # rest) n =
     (let (v', n') =
        (case v of
           JMap val \<Rightarrow> (let (r, n1) = redactMap val n in (JMap r, n1))
         | JList val \<Rightarrow> (let (r, n1) = redactSlice val n in (JList r, n1))
         | JStr val \<Rightarrow> (case redactString val of (s, True) \<Rightarrow> (JStr s, n + 1) | (_, False) \<Rightarrow> (v, n))
         | _ \<Rightarrow> (v, n));
       (rest', n'') = redactSlice rest n'
      in (v' # rest', n''))"
  by pat_completeness auto

termination
  by (relation "measures
       [\<lambda>x. case x of Inl (m, n) \<Rightarrow> obj_size m | Inr (Inl (m, n)) \<Rightarrow> obj_size m
               | Inr (Inr (l, n)) \<Rightarrow> size_list size l,
        \<lambda>x. case x of Inl (m, n) \<Rightarrow> 1 | Inr (Inl (m, n)) \<Rightarrow> 0 | Inr (Inr (l, n)) \<Rightarrow> 0]")
    (auto dest: pair_redact_size simp: obj_size_def [of "_ # _"], auto simp: obj_size_def)

definition redactObject :: "object \<Rightarrow> object \<times> nat" where
  "redactObject obj = redactMap obj 0"

subsection \<open>What redaction means\<close>

text \<open>
  The reference definition. A field is a credential when its name is sensitive and it holds a
  non-empty literal, when it is the string \<open>value\<close> of an entry whose \<open>name\<close> is sensitive, or
  when it is the non-empty string \<open>key\<close> beside a \<open>termination\<close>. A credential becomes the
  marker, a container is redacted inside, any other string is searched for inline credentials.
\<close>

fun literal :: "any \<Rightarrow> bool" where
  "literal (JStr s) = (s \<noteq> [])"
| "literal (JBool b) = True"
| "literal (JInt i) = True"
| "literal (JFloat q) = True"
| "literal _ = False"

fun is_text :: "any \<Rightarrow> bool" where
  "is_text (JStr s) = True"
| "is_text _ = False"

definition env_shape :: "object \<Rightarrow> bool" where
  "env_shape m = (case as_string (map_of m ''name'') of Some name \<Rightarrow> sensitiveKey name | None \<Rightarrow> False)"

definition tls_shape :: "object \<Rightarrow> bool" where
  "tls_shape m = (map_of m ''termination'' \<noteq> None)"

definition credential_field :: "object \<Rightarrow> string \<Rightarrow> any \<Rightarrow> bool" where
  "credential_field m k v \<longleftrightarrow>
     sensitiveKey k \<and> literal v \<or>
     k = ''value'' \<and> env_shape m \<and> is_text v \<or>
     k = ''key'' \<and> tls_shape m \<and> is_text v \<and> literal v"

fun redact_value :: "any \<Rightarrow> any" where
  "redact_value (JMap m) =
     JMap (map (\<lambda>(k, v). (k, if credential_field m k v then JStr redacted else redact_value v)) m)"
| "redact_value (JList l) = JList (map redact_value l)"
| "redact_value (JStr s) = JStr (fst (redactString s))"
| "redact_value v = v"

fun redact_count :: "any \<Rightarrow> nat" where
  "redact_count (JMap m) =
     sum_list (map (\<lambda>(k, v). if credential_field m k v then 1 else redact_count v) m)"
| "redact_count (JList l) = sum_list (map redact_count l)"
| "redact_count (JStr s) = (if snd (redactString s) then 1 else 0)"
| "redact_count v = 0"

text \<open>Decoded values have distinct keys.\<close>

fun wf_any :: "any \<Rightarrow> bool" where
  "wf_any (JMap m) = (distinct (map fst m) \<and> list_all (\<lambda>(k, v). wf_any v) m)"
| "wf_any (JList l) = list_all wf_any l"
| "wf_any _ = True"

subsection \<open>The walk computes the reference definition\<close>

lemma redactFlag_unchanged: "redactFlag s = (t, False) \<Longrightarrow> t = s"
  by (auto simp: redactFlag_def Let_def split: if_splits prod.splits)

lemma redactURL_unchanged: "redactURL s = (t, False) \<Longrightarrow> t = s"
  by (auto simp: redactURL_def split: if_splits option.splits prod.splits)

lemma redactString_unchanged: "redactString s = (t, False) \<Longrightarrow> t = s"
  by (auto simp: redactString_def redactURL_unchanged split: prod.splits bool.splits)

lemma plain_names [simp]:
  "\<not> sensitiveKey ''value''" "\<not> sensitiveKey ''key''" "\<not> sensitiveKey ''name''"
  "\<not> sensitiveKey ''termination''"
  by code_simp+

lemma redactString_marker [simp]: "redactString redacted = (redacted, False)"
  by code_simp

lemma redactString_empty [simp]: "redactString [] = ([], False)"
  by code_simp

lemma sum_list_one_key:
  "distinct (map fst m) \<Longrightarrow>
   sum_list (map (\<lambda>(k, v). if k = c \<and> Q v then 1 else 0 :: nat) m) =
     (case map_of m c of Some v \<Rightarrow> if Q v then 1 else 0 | None \<Rightarrow> 0)"
proof (induction m)
  case Nil
  then show ?case by simp
next
  case (Cons p m)
  obtain k v where p: "p = (k, v)" by (cases p)
  show ?case
  proof (cases "k = c")
    case True
    with Cons.prems p have "map_of m c = None" by (simp add: map_of_eq_None_iff)
    with True Cons p show ?thesis by simp
  next
    case False
    with Cons p show ?thesis by simp
  qed
qed

definition mark_field :: "string \<Rightarrow> (any \<Rightarrow> bool) \<Rightarrow> object \<Rightarrow> object" where
  "mark_field c Q m = map (\<lambda>(k, v). (k, if k = c \<and> Q v then JStr redacted else v)) m"

lemma mark_field_eq:
  assumes "distinct (map fst m)"
  shows "mark_field c Q m =
    (case map_of m c of Some v \<Rightarrow> if Q v then assoc_put c (JStr redacted) m else m | None \<Rightarrow> m)"
proof (cases "map_of m c")
  case None
  then have "mark_field c Q m = m"
    unfolding mark_field_def by (intro map_idI) (auto simp: map_of_eq_None_iff image_iff)
  with None show ?thesis by simp
next
  case (Some v)
  have "(k, w) \<in> set m \<Longrightarrow> (k = c \<and> Q w) = (k = c \<and> Q v)" for k w
    using assms Some by (metis map_of_is_SomeI option.inject)
  then have m: "mark_field c Q m = map (\<lambda>(k, w). (k, if k = c \<and> Q v then JStr redacted else w)) m"
    unfolding mark_field_def by (intro map_cong) (auto split: if_splits)
  show ?thesis
  proof (cases "Q v")
    case True
    with m Some assoc_put_present [OF map_of_SomeD_fst [OF Some] assms] show ?thesis by simp
  next
    case False
    with m Some show ?thesis by (simp add: case_prod_unfold)
  qed
qed

lemma as_string_is_text: "(case as_string x of Some s \<Rightarrow> f s | None \<Rightarrow> d) =
   (case x of Some (JStr s) \<Rightarrow> f s | _ \<Rightarrow> d)"
  by (cases x rule: as_string.cases) auto

lemma as_string_None: "as_string (Some v) = None \<longleftrightarrow> \<not> is_text v"
  by (cases v) auto

lemma redactEnvVar_eq:
  assumes "distinct (map fst m)"
  shows "redactEnvVar m n =
    (mark_field ''value'' (\<lambda>v. env_shape m \<and> is_text v) m,
     n + sum_list (map (\<lambda>(k, v). if k = ''value'' \<and> env_shape m \<and> is_text v then 1 else 0) m))"
  unfolding mark_field_eq [OF assms] sum_list_one_key [OF assms]
  by (auto simp: redactEnvVar_def env_shape_def as_string_is_text as_string_None split: option.splits any.splits)

lemma redactTLS_eq:
  assumes "distinct (map fst m)"
  shows "redactTLS m n =
    (mark_field ''key'' (\<lambda>v. tls_shape m \<and> is_text v \<and> literal v) m,
     n + sum_list (map (\<lambda>(k, v). if k = ''key'' \<and> tls_shape m \<and> is_text v \<and> literal v then 1 else 0) m))"
  unfolding mark_field_eq [OF assms] sum_list_one_key [OF assms]
  by (auto simp: redactTLS_def tls_shape_def as_string_is_text split: option.splits any.splits)

lemma keys_mark_field [simp]: "map fst (mark_field c Q m) = map fst m"
  by (simp add: mark_field_def case_prod_unfold o_def)

lemma map_of_mark_field_other [simp]: "k \<noteq> c \<Longrightarrow> map_of (mark_field c Q m) k = map_of m k"
  unfolding mark_field_def map_of_map_entries [of "\<lambda>k v. if k = c \<and> Q v then JStr redacted else v"]
  by (cases "map_of m k") simp_all

lemma wf_mark_field:
  "list_all (\<lambda>(k, v). wf_any v) m \<Longrightarrow> list_all (\<lambda>(k, v). wf_any v) (mark_field c Q m)"
  by (auto simp: mark_field_def list_all_iff)

definition entry_value :: "string \<Rightarrow> any \<Rightarrow> any" where
  "entry_value k v = (if sensitiveKey k \<and> literal v then JStr redacted else redact_value v)"

definition entry_count :: "string \<Rightarrow> any \<Rightarrow> nat" where
  "entry_count k v = (if sensitiveKey k \<and> literal v then 1 else redact_count v)"

lemma string_result:
  "(case redactString s of (t, True) \<Rightarrow> (JStr t, n + 1) | (_, False) \<Rightarrow> (JStr s, n)) =
     (redact_value (JStr s), n + redact_count (JStr s))"
  by (auto dest: redactString_unchanged split: prod.splits bool.splits)

lemma mark_then_entries:
  assumes wf: "distinct (map fst m)"
  defines "m1 \<equiv> mark_field ''value'' (\<lambda>v. env_shape m \<and> is_text v) m"
  defines "m2 \<equiv> mark_field ''key'' (\<lambda>v. tls_shape m \<and> is_text v \<and> literal v) m1"
  shows "map (\<lambda>(k, v). (k, entry_value k v)) m2 =
           map (\<lambda>(k, v). (k, if credential_field m k v then JStr redacted else redact_value v)) m"
    and "sum_list (map (\<lambda>(k, v). if k = ''value'' \<and> env_shape m \<and> is_text v then 1 else 0) m) +
         sum_list (map (\<lambda>(k, v). if k = ''key'' \<and> tls_shape m \<and> is_text v \<and> literal v then 1 else 0) m1) +
         sum_list (map (\<lambda>(k, v). entry_count k v) m2) = redact_count (JMap m)"
proof -
  show "map (\<lambda>(k, v). (k, entry_value k v)) m2 =
           map (\<lambda>(k, v). (k, if credential_field m k v then JStr redacted else redact_value v)) m"
    by (auto simp: m2_def m1_def mark_field_def entry_value_def credential_field_def)
  show "sum_list (map (\<lambda>(k, v). if k = ''value'' \<and> env_shape m \<and> is_text v then 1 else 0) m) +
         sum_list (map (\<lambda>(k, v). if k = ''key'' \<and> tls_shape m \<and> is_text v \<and> literal v then 1 else 0) m1) +
         sum_list (map (\<lambda>(k, v). entry_count k v) m2) = redact_count (JMap m)"
    unfolding m2_def m1_def mark_field_def redact_count.simps map_map sum_list_addf [symmetric]
    by (intro arg_cong [of _ _ sum_list] map_cong refl)
      (auto simp: entry_count_def credential_field_def)
qed

lemma redactMap_eq:
  "wf_any (JMap m) \<Longrightarrow> (JMap (fst (redactMap m n)), snd (redactMap m n)) =
     (redact_value (JMap m), n + redact_count (JMap m))"
  "list_all (\<lambda>(k, v). wf_any v) es \<Longrightarrow> redactEntries es n =
     (map (\<lambda>(k, v). (k, entry_value k v)) es, n + sum_list (map (\<lambda>(k, v). entry_count k v) es))"
  "list_all wf_any l \<Longrightarrow> redactSlice l n = (map redact_value l, n + sum_list (map redact_count l))"
proof (induction m n and es n and l n rule: redactMap_redactEntries_redactSlice.induct)
  case (1 m n)
  let ?m1 = "mark_field ''value'' (\<lambda>v. env_shape m \<and> is_text v) m"
  let ?m2 = "mark_field ''key'' (\<lambda>v. tls_shape m \<and> is_text v \<and> literal v) ?m1"
  have d: "distinct (map fst m)" and w: "list_all (\<lambda>(k, v). wf_any v) m" using "1.prems" by simp_all
  have tls: "tls_shape ?m1 = tls_shape m" by (simp add: tls_shape_def)
  have w2: "list_all (\<lambda>(k, v). wf_any v) ?m2" using w by (simp add: wf_mark_field)
  show ?case
    using "1.IH" [OF redactEnvVar_eq [OF d, symmetric] refl redactTLS_eq [symmetric] refl] d w2
    by (simp add: redactEnvVar_eq [OF d] redactTLS_eq tls mark_then_entries [OF d, symmetric]
        del: redact_count.simps(1))
next
  case (3 k v rest n)
  then show ?case
    by (cases v) (auto simp: entry_value_def entry_count_def string_result dest: redactString_unchanged simp del: redact_value.simps(1) redact_count.simps(1)
        split: prod.splits)
next
  case (5 v rest n)
  then show ?case
    by (cases v) (auto simp: string_result dest: redactString_unchanged simp del: redact_value.simps(1) redact_count.simps(1) split: prod.splits)
qed simp_all

lemma redactObject_eq:
  "wf_any (JMap m) \<Longrightarrow> JMap (fst (redactObject m)) = redact_value (JMap m) \<and>
     snd (redactObject m) = redact_count (JMap m)"
  using redactMap_eq(1) [of m 0] by (simp add: redactObject_def del: redact_value.simps redact_count.simps)

subsection \<open>Credential positions\<close>

text \<open>The positions of a value that hold a credential.\<close>

fun credential_at :: "any \<Rightarrow> step list \<Rightarrow> bool" where
  "credential_at (JMap m) (Key k # p) =
     (case map_of m k of
        None \<Rightarrow> False
      | Some v \<Rightarrow> if p = [] then credential_field m k v else credential_at v p)"
| "credential_at (JList l) (Idx i # p) = (i < length l \<and> credential_at (l ! i) p)"
| "credential_at _ _ = False"

lemma container_no_credential:
  "value_at v (s # p) = Some x \<Longrightarrow> \<not> credential_field m k v"
  "credential_at v p \<Longrightarrow> \<not> credential_field m k v"
  by (cases v; cases s; simp add: credential_field_def) (cases v; cases p; simp add: credential_field_def)

lemma map_of_redacted:
  "map_of (map (\<lambda>(k, v). (k, if credential_field m k v then JStr redacted else redact_value v)) m') k =
     map_option (\<lambda>v. if credential_field m k v then JStr redacted else redact_value v) (map_of m' k)"
  by (rule map_of_map_entries)

lemma credential_hidden:
  "credential_at v p \<Longrightarrow> value_at (redact_value v) p = Some (JStr redacted)"
proof (induction v p rule: credential_at.induct)
  case (1 m k p)
  then obtain v where v: "map_of m k = Some v" by (auto split: option.splits)
  with 1 show ?case
    by (cases "p = []") (auto simp: map_of_redacted container_no_credential(2))
qed auto

lemma value_at_redacted:
  "value_at v p = Some x \<Longrightarrow> \<not> credential_at v p \<Longrightarrow>
   value_at (redact_value v) p = Some (redact_value x)"
proof (induction v p rule: value_at.induct)
  case (2 m k p)
  then obtain v where v: "map_of m k = Some v" "value_at v p = Some x" by (auto split: option.splits)
  show ?case
  proof (cases p)
    case Nil
    with 2 v show ?thesis by (simp add: map_of_redacted)
  next
    case (Cons s q)
    with v container_no_credential(1) have "\<not> credential_field m k v" by blast
    with 2 v Cons show ?thesis by (simp add: map_of_redacted)
  qed
qed (auto split: if_splits)

lemma value_at_absent: "value_at v p = None \<Longrightarrow> value_at (redact_value v) p = None"
proof (induction v p rule: value_at.induct)
  case (2 m k p)
  then show ?case
    by (cases p) (auto simp: map_of_redacted split: option.splits)
qed (auto split: if_splits)

lemma count_zero_same: "redact_count v = 0 \<Longrightarrow> redact_value v = v"
proof (induction v rule: redact_count.induct)
  case (1 m)
  then show ?case by (auto intro!: map_idI split: if_splits)
next
  case (2 l)
  then show ?case by (auto intro!: map_idI)
next
  case (3 s)
  then show ?case using redactString_unchanged [of s "fst (redactString s)"]
    by (auto simp: prod_eq_iff split: if_splits)
qed simp_all

subsection \<open>Values that differ in credentials only\<close>

inductive same_public :: "any \<Rightarrow> any \<Rightarrow> bool" where
  same_refl: "same_public v v"
| same_list: "list_all2 same_public l l' \<Longrightarrow> same_public (JList l) (JList l')"
| same_map: "list_all2 (\<lambda>p q. fst p = fst q \<and>
     (credential_field m (fst p) (snd p) \<and> credential_field m' (fst q) (snd q) \<or>
      same_public (snd p) (snd q))) m m' \<Longrightarrow> same_public (JMap m) (JMap m')"

inductive_cases same_public_StrE: "same_public (JStr s) v"

lemma same_public_kind:
  "same_public v v' \<Longrightarrow> literal v = literal v' \<and> is_text v = is_text v' \<and> as_string (Some v) = as_string (Some v')"
  by (induction rule: same_public.induct) auto

lemma list_all2_map_of:
  assumes "list_all2 (\<lambda>p q. fst p = fst q \<and> R (fst p) (snd p) (snd q)) m m'"
  shows "rel_option (R k) (map_of m k) (map_of m' k)"
  using assms by (induction m m' rule: list_all2_induct) auto

lemma shapes_agree:
  assumes "list_all2 (\<lambda>p q. fst p = fst q \<and>
     (credential_field m (fst p) (snd p) \<and> credential_field m' (fst q) (snd q) \<or>
      same_public (snd p) (snd q))) m m'"
  shows "env_shape m = env_shape m'" and "tls_shape m = tls_shape m'"
proof -
  let ?R = "\<lambda>k v v'. credential_field m k v \<and> credential_field m' k v' \<or> same_public v v'"
  have "list_all2 (\<lambda>p q. fst p = fst q \<and> ?R (fst p) (snd p) (snd q)) m m'"
    using assms by (rule list_all2_mono) auto
  from list_all2_map_of [OF this] have rel: "rel_option (?R k) (map_of m k) (map_of m' k)" for k .
  have "\<not> credential_field m'' ''name'' v" for m'' v by (simp add: credential_field_def)
  with rel [of "''name''"] have "as_string (map_of m ''name'') = as_string (map_of m' ''name'')"
    by (cases rule: option.rel_cases) (auto dest: same_public_kind)
  then show "env_shape m = env_shape m'" by (simp add: env_shape_def)
  show "tls_shape m = tls_shape m'"
    using rel [of "''termination''"] by (cases rule: option.rel_cases) (auto simp: tls_shape_def)
qed

lemma same_public_redacts_alike:
  "same_public v v' \<Longrightarrow> redact_value v = redact_value v' \<and> redact_count v = redact_count v'"
proof (induction rule: same_public.induct)
  case (same_refl v)
  then show ?case by simp
next
  case (same_list l l')
  then have "map redact_value l = map redact_value l'" "map redact_count l = map redact_count l'"
    by (auto simp: list_all2_conv_all_nth intro!: nth_equalityI)
  then show ?case by simp
next
  case (same_map m m')
  let ?f = "\<lambda>m (k, v). (k, if credential_field m k v then JStr redacted else redact_value v)"
  let ?g = "\<lambda>m (k, v). if credential_field m k v then 1 else redact_count v"
  have rel: "list_all2 (\<lambda>p q. fst p = fst q \<and>
     (credential_field m (fst p) (snd p) \<and> credential_field m' (fst q) (snd q) \<or>
      same_public (snd p) (snd q))) m m'"
    using same_map by (rule list_all2_mono) auto
  note shapes = shapes_agree [OF rel]
  have agree: "same_public v v' \<Longrightarrow> credential_field m k v = credential_field m' k v'" for k v v'
    using same_public_kind [of v v'] by (simp add: credential_field_def shapes)
  have "list_all2 (\<lambda>p q. ?f m p = ?f m' q \<and> ?g m p = ?g m' q) m m'"
    using same_map by (rule list_all2_mono) (auto dest: agree)
  then have "map (?f m) m = map (?f m') m'" "map (?g m) m = map (?g m') m'"
    by (auto simp: list_all2_conv_all_nth intro!: nth_equalityI)
  then show ?case by simp
qed

lemma sum_list_pos: "x \<in> set xs \<Longrightarrow> 0 < f x \<Longrightarrow> 0 < (\<Sum>x\<leftarrow>xs. f x :: nat)"
  using member_le_sum_list [of "f x" "map f xs"] by auto

lemma credential_counted: "credential_at v p \<Longrightarrow> 0 < redact_count v"
proof (induction v p rule: credential_at.induct)
  case (1 m k p)
  then obtain v where v: "map_of m k = Some v" by (auto split: option.splits)
  have "0 < (if credential_field m k v then 1 else redact_count v)"
    using 1 v by (cases "p = []") simp_all
  with sum_list_pos [where f = "\<lambda>(k, v). if credential_field m k v then 1 else redact_count v", OF map_of_SomeD [OF v]]
  show ?case by simp
next
  case (2 l i p)
  then have "l ! i \<in> set l" "0 < redact_count (l ! i)" by simp_all
  from sum_list_pos [where f = redact_count, OF this] show ?case by simp
qed simp_all

subsection \<open>The contract of a redaction\<close>

text \<open>
  What the tools rely on: a credential position of a decoded object holds the marker afterwards and
  is counted, and objects that differ in credentials only become the same.
\<close>

locale redactor =
  fixes redact :: "object \<Rightarrow> object \<times> nat"
  assumes hidden: "wf_any (JMap m) \<Longrightarrow> credential_at (JMap m) p \<Longrightarrow> redact m = (m', n) \<Longrightarrow>
      value_at (JMap m') p = Some (JStr redacted) \<and> 0 < n"
    and alike: "wf_any (JMap m) \<Longrightarrow> wf_any (JMap m') \<Longrightarrow> same_public (JMap m) (JMap m') \<Longrightarrow> redact m = redact m'"

interpretation rd: redactor redactObject
proof
  fix m m' :: object and n p
  assume "wf_any (JMap m)" "credential_at (JMap m) p" "redactObject m = (m', n)"
  then show "value_at (JMap m') p = Some (JStr redacted) \<and> 0 < n"
    using redactObject_eq [of m] credential_hidden [of "JMap m" p] credential_counted [of "JMap m" p]
    by (simp del: redact_value.simps redact_count.simps)
next
  fix m m' :: object
  assume "wf_any (JMap m)" "wf_any (JMap m')" "same_public (JMap m) (JMap m')"
  then show "redactObject m = redactObject m'"
    using redactObject_eq [of m] redactObject_eq [of m'] same_public_redacts_alike [of "JMap m" "JMap m'"]
    by (metis any.inject(6) prod_eqI)
qed

end
