(* ===== verification/K8s_List.thy ===== *)
theory K8s_List
  imports Kube_Api
begin

text \<open>
  Paged lists, \<open>src/internal/k8s/list.go\<close>. The loop of \<open>ListPages\<close> may not end (a server
  may always name a next page), so its result is an option. The callback is a Go closure that
  changes variables of its caller: it takes and returns their state.
\<close>

subsection \<open>The code\<close>

definition PageSize :: int where
  "PageSize = 500"

type_synonym ('e, 's) page_fn = "listOptions \<Rightarrow> 's \<Rightarrow> ('e goerr, string) fallible \<times> 's"

partial_function (option) listFrom ::
  "('e, 's) page_fn \<Rightarrow> listOptions \<Rightarrow> 's \<Rightarrow> ('e goerr option \<times> 's) option" where
  "listFrom list opts s =
     (case list opts s of
        (Inl err, s') \<Rightarrow> Some (Some err, s')
      | (Inr token, s') \<Rightarrow>
          if token = [] then Some (None, s')
          else listFrom list (opts\<lparr>Continue := token\<rparr>) s')"

definition ListPages :: "('e, 's) page_fn \<Rightarrow> 's \<Rightarrow> ('e goerr option \<times> 's) option" where
  "ListPages list s = listFrom list \<lparr>Limit = PageSize, Continue = []\<rparr> s"

text \<open>
  The shape of every closure given to \<open>ListPages\<close>: ask for a page, return the error in the
  caller's words, else handle the items one by one and return the next token. A server may answer the same
  request differently later: its reply depends on how many requests of the listing came before, which the
  model counts beside the variables of the caller.
\<close>

definition eachPage ::
  "('e, 'a) list_call \<Rightarrow> ('e goerr \<Rightarrow> 'e goerr) \<Rightarrow> ('a \<Rightarrow> 's \<Rightarrow> 's) \<Rightarrow> ('e, nat \<times> 's) page_fn" where
  "eachPage api describe each opts = (\<lambda>(n, s).
     case api n opts of
       Inl e \<Rightarrow> (Inl (describe (Api e)), Suc n, s)
     | Inr (items, token) \<Rightarrow> (Inr token, Suc n, fold each items s))"

definition readPages ::
  "('e, 'a) list_call \<Rightarrow> ('e goerr \<Rightarrow> 'e goerr) \<Rightarrow> ('a \<Rightarrow> 's \<Rightarrow> 's) \<Rightarrow> 's \<Rightarrow> ('e goerr option \<times> 's) option" where
  "readPages api describe each s =
     map_option (\<lambda>(err, _, s'). (err, s')) (ListPages (eachPage api describe each) (0, s))"

text \<open>
  \<open>(*Client).ListCustom\<close>. Of the client libraries it uses the list call per resource,
  \<open>apierrors.IsNotFound\<close> and \<open>GroupVersionResource.String\<close>, all parameters.
\<close>

fun ListCustom ::
  "('e goerr \<Rightarrow> bool) \<Rightarrow> (gvr \<Rightarrow> string) \<Rightarrow> (gvr \<Rightarrow> ('e, 'a) list_call) \<Rightarrow>
   string \<Rightarrow> string \<Rightarrow> string list \<Rightarrow> ('a \<Rightarrow> 's \<Rightarrow> 's) \<Rightarrow> 's \<Rightarrow> (('e goerr, bool) fallible \<times> 's) option" where
  "ListCustom isNotFound gvrString api grp resource [] each s = Some (Inr False, s)"
| "ListCustom isNotFound gvrString api grp resource (v # versions) each s =
     (let gvr = \<lparr>gvr_group = grp, gvr_version = v, gvr_resource = resource\<rparr> in
      case readPages (api gvr) id each s of
        None \<Rightarrow> None
      | Some (None, s') \<Rightarrow> Some (Inr True, s')
      | Some (Some err, s') \<Rightarrow>
          if isNotFound err then ListCustom isNotFound gvrString api grp resource versions each s'
          else Some (Inl (Wrap (''list '' @ gvrString gvr @ '': '') err []), s'))"

subsection \<open>What a server serves\<close>

text \<open>
  \<open>served api n token items r\<close>: following the pages from a token on, with \<open>n\<close> requests made before, the
  server gives these items in this order and then ends (\<open>None\<close>) or fails (\<open>Some e\<close>).
\<close>

inductive served :: "('e, 'a) list_call \<Rightarrow> nat \<Rightarrow> string \<Rightarrow> 'a list \<Rightarrow> 'e option \<Rightarrow> bool" where
  last_page: "api n \<lparr>Limit = PageSize, Continue = t\<rparr> = Inr (items, []) \<Longrightarrow> served api n t items None"
| failed_page: "api n \<lparr>Limit = PageSize, Continue = t\<rparr> = Inl e \<Longrightarrow> served api n t [] (Some e)"
| next_page: "api n \<lparr>Limit = PageSize, Continue = t\<rparr> = Inr (items, t') \<Longrightarrow> t' \<noteq> [] \<Longrightarrow>
     served api (Suc n) t' rest r \<Longrightarrow> served api n t (items @ rest) r"

inductive_cases served_cases: "served api n t items r"

lemma served_unique:
  "served api n t items r \<Longrightarrow> served api n t items' r' \<Longrightarrow> items' = items \<and> r' = r"
proof (induction arbitrary: items' r' rule: served.induct)
  case (next_page api n t items t' rest r)
  from next_page.prems next_page.hyps show ?case
    by (cases rule: served_cases) (auto dest: next_page.IH)
qed (auto elim: served_cases)

text \<open>
  The contract of a page reader: on a server that serves the items it handles every one of them
  in order, once, and reports the failure that ended the list, if any; it returns on no other
  server.
\<close>

locale page_reader =
  fixes reader :: "('e, 'a) list_call \<Rightarrow> ('e goerr \<Rightarrow> 'e goerr) \<Rightarrow> ('a \<Rightarrow> 's \<Rightarrow> 's) \<Rightarrow> 's \<Rightarrow>
      ('e goerr option \<times> 's) option"
  assumes reads: "served api 0 [] items r \<Longrightarrow>
      reader api describe each s = Some (map_option (\<lambda>e. describe (Api e)) r, fold each items s)"
    and returns: "reader api describe each s = Some out \<Longrightarrow> \<exists>items r. served api 0 [] items r"
begin

lemma reader_iff:
  "reader api describe each s = Some (err, s') \<longleftrightarrow>
     (\<exists>items r. served api 0 [] items r \<and> err = map_option (\<lambda>e. describe (Api e)) r \<and> s' = fold each items s)"
  using reads returns by (metis Pair_inject option.inject)

lemma reader_ok:
  "reader api describe each s = Some (None, s') \<longleftrightarrow> (\<exists>items. served api 0 [] items None \<and> s' = fold each items s)"
  by (auto simp: reader_iff)

end

lemma eachPage_step:
  "api n opts = Inl e \<Longrightarrow> eachPage api describe each opts (n, s) = (Inl (describe (Api e)), Suc n, s)"
  "api n opts = Inr (items, token) \<Longrightarrow> eachPage api describe each opts (n, s) = (Inr token, Suc n, fold each items s)"
  by (simp_all add: eachPage_def)

lemma listFrom_reads:
  "served api n t items r \<Longrightarrow>
   \<exists>m. listFrom (eachPage api describe each) \<lparr>Limit = PageSize, Continue = t\<rparr> (n, s) =
     Some (map_option (\<lambda>e. describe (Api e)) r, m, fold each items s)"
proof (induction arbitrary: s rule: served.induct)
  case (next_page api n t items t' rest r)
  then show ?case by (subst listFrom.simps) (simp add: eachPage_step)
qed (subst listFrom.simps, simp add: eachPage_step)+

lemma listFrom_returns:
  "listFrom list opts ns = Some out \<Longrightarrow> list = eachPage api describe each \<Longrightarrow> Limit opts = PageSize \<Longrightarrow>
   \<exists>items r. served api (fst ns) (Continue opts) items r"
proof (induction list opts ns out rule: listFrom.raw_induct [rotated, consumes 1])
  case (1 rec list opts ns out)
  obtain n s where ns: "ns = (n, s)" by (cases ns)
  have o: "opts = \<lparr>Limit = PageSize, Continue = Continue opts\<rparr>" using "1.prems"(2) by simp
  show ?case
  proof (cases "api n opts")
    case (Inl e)
    with o ns show ?thesis using failed_page by (metis fst_conv)
  next
    case (Inr p)
    obtain items token where p: "p = (items, token)" by (cases p)
    show ?thesis
    proof (cases "token = []")
      case True
      with Inr p o ns show ?thesis using last_page by (metis fst_conv)
    next
      case False
      then have "rec list (opts\<lparr>Continue := token\<rparr>) (Suc n, fold each items s) = Some out"
        using 1(2) "1.prems"(1) Inr p by (simp add: eachPage_step ns)
      from "1.IH" [OF this "1.prems"(1)] "1.prems"(2) obtain rest r where "served api (Suc n) token rest r" by auto
      with Inr p o False ns show ?thesis using next_page by (metis fst_conv)
    qed
  qed
qed

lemma readPages_reads:
  assumes "served api 0 [] items r"
  shows "readPages api describe each s = Some (map_option (\<lambda>e. describe (Api e)) r, fold each items s)"
  using listFrom_reads [OF assms, of describe each s] unfolding readPages_def ListPages_def by auto

lemma readPages_returns:
  "readPages api describe each s = Some out \<Longrightarrow> \<exists>items r. served api 0 [] items r"
  unfolding readPages_def ListPages_def using listFrom_returns [OF _ refl] by fastforce

interpretation pages: page_reader readPages
  by unfold_locales (rule readPages_reads, assumption, rule readPages_returns)

subsection \<open>Custom resources\<close>

text \<open>The list call for one version of a custom resource, and the outcome of trying it.\<close>

definition version_gvr :: "string \<Rightarrow> string \<Rightarrow> string \<Rightarrow> gvr" where
  "version_gvr grp resource v = \<lparr>gvr_group = grp, gvr_version = v, gvr_resource = resource\<rparr>"

definition not_served :: "('e goerr \<Rightarrow> bool) \<Rightarrow> ('e, 'a) list_call \<Rightarrow> bool" where
  "not_served isNotFound api =
     (case api 0 \<lparr>Limit = PageSize, Continue = []\<rparr> of Inl e \<Rightarrow> isNotFound (Api e) | Inr _ \<Rightarrow> False)"

lemma not_served_served:
  "not_served isNotFound api \<Longrightarrow> \<exists>e. served api 0 [] [] (Some e) \<and> isNotFound (Api e)"
  by (auto simp: not_served_def intro: failed_page split: sum.splits)

lemma ListCustom_skip:
  assumes "not_served isNotFound (api (version_gvr grp resource v))"
  shows "ListCustom isNotFound gvrString api grp resource (v # vs) each s =
    ListCustom isNotFound gvrString api grp resource vs each s"
proof -
  obtain e where "served (api (version_gvr grp resource v)) 0 [] [] (Some e)" "isNotFound (Api e)"
    using not_served_served [OF assms] by blast
  then show ?thesis
    using pages.reads [of "api (version_gvr grp resource v)" "[]" "Some e" id each s]
    by (simp add: version_gvr_def)
qed

lemma ListCustom_skip_all:
  assumes "list_all (\<lambda>v. not_served isNotFound (api (version_gvr grp resource v))) pre"
  shows "ListCustom isNotFound gvrString api grp resource (pre @ vs) each s =
    ListCustom isNotFound gvrString api grp resource vs each s"
  using assms by (induction pre) (simp_all add: ListCustom_skip del: ListCustom.simps)

lemma ListCustom_version:
  assumes "served (api (version_gvr grp resource v)) 0 [] items r"
    and "\<forall>e. r = Some e \<longrightarrow> \<not> isNotFound (Api e)"
  shows "ListCustom isNotFound gvrString api grp resource (v # vs) each s =
    Some (case r of
            None \<Rightarrow> Inr True
          | Some e \<Rightarrow> Inl (Wrap (''list '' @ gvrString (version_gvr grp resource v) @ '': '') (Api e) []),
          fold each items s)"
  using pages.reads [OF assms(1), of id each s] assms(2)
  by (cases r) (simp_all add: version_gvr_def)


subsection \<open>Properties\<close>

text \<open>
  A server with two pages, for the witnesses, which forgets a token after one more request; its errors are strings.
\<close>

definition two_pages :: "(string, nat) list_call" where
  "two_pages n opts =
     (if Limit opts \<noteq> 500 then Inl ''limit''
      else if Continue opts = [] then Inr ([1, 2], ''next'')
      else if Continue opts = ''next'' \<and> n < 2 then Inr ([3], []) else Inl ''expired'')"

lemma two_pages_served: "served two_pages 0 [] [1, 2, 3] None"
  using next_page [of two_pages 0 "[]" "[1, 2]" "''next''" "[3]" None] last_page [of two_pages 1 "''next''" "[3]"]
  by (simp add: two_pages_def PageSize_def)

text \<open>
  C14. Large lists are never cut short: \<open>ListPages\<close> with the closure every caller passes
  returns exactly on the servers whose chain of pages ends, also on one that changes during the listing, and then it has handled every item of
  every page once and in order up to the end or to the first failing page, whose error it returns.
\<close>

theorem list_pages_exact:
  "readPages api describe each s = Some (err, s') \<longleftrightarrow>
     (\<exists>items r. served api 0 [] items r \<and> err = map_option (\<lambda>e. describe (Api e)) r \<and> s' = fold each items s)"
  by (rule pages.reader_iff)

lemma served_progress:
  fixes m :: "string \<Rightarrow> nat"
  assumes "\<forall>n t items t'. api n \<lparr>Limit = PageSize, Continue = t\<rparr> = Inr (items, t') \<and> t' \<noteq> [] \<longrightarrow> m t' < m t"
  shows "\<exists>items r. served api n t items r"
proof (induction "m t" arbitrary: n t rule: less_induct)
  case less
  show ?case
  proof (cases "api n \<lparr>Limit = PageSize, Continue = t\<rparr>")
    case (Inl e)
    then show ?thesis using failed_page by metis
  next
    case (Inr p)
    then obtain items t' where p: "api n \<lparr>Limit = PageSize, Continue = t\<rparr> = Inr (items, t')" by (cases p) auto
    show ?thesis
    proof (cases "t' = []")
      case True
      with p show ?thesis using last_page by metis
    next
      case False
      with assms p less obtain rest r where "served api (Suc n) t' rest r" by blast
      with p False show ?thesis using next_page by metis
    qed
  qed
qed

text \<open>
  \<open>ListPages\<close> returns on every server whose tokens make progress: where each page's token
  is smaller in some measure than the one it was asked with, the loop ends.
\<close>

theorem list_pages_returns:
  fixes m :: "string \<Rightarrow> nat"
  assumes "\<forall>n t items t'. api n \<lparr>Limit = PageSize, Continue = t\<rparr> = Inr (items, t') \<and> t' \<noteq> [] \<longrightarrow> m t' < m t"
  shows "\<exists>err s'. readPages api describe each s = Some (err, s')"
proof -
  obtain items r where "served api 0 [] items r" using served_progress [OF assms, of 0 "[]"] by blast
  from pages.reads [OF this, of describe each s] show ?thesis by blast
qed

theorem list_pages_returns_witness:
  "\<exists>err s'. readPages two_pages id (\<lambda>x xs. xs @ [x]) [] = Some (err, s')"
  by (rule list_pages_returns [where m = "\<lambda>t. if t = [] then 1 else 0"])
    (simp add: two_pages_def PageSize_def)

text \<open>
  \<open>ListCustom\<close> uses the first version the cluster serves: versions it answers with not
  found are skipped without effect, the first other version decides, its items are all handed to
  the caller, a failure is returned with the resource it was for, and no later version is asked.
\<close>

theorem list_custom_first_served:
  assumes "list_all (\<lambda>u. not_served isNotFound (api (version_gvr grp resource u))) pre"
    and "served (api (version_gvr grp resource v)) 0 [] items r"
    and "\<forall>e. r = Some e \<longrightarrow> \<not> isNotFound (Api e)"
  shows "ListCustom isNotFound gvrString api grp resource (pre @ v # post) each s =
    Some (case r of
            None \<Rightarrow> Inr True
          | Some e \<Rightarrow> Inl (Wrap (''list '' @ gvrString (version_gvr grp resource v) @ '': '') (Api e) []),
          fold each items s)"
  unfolding ListCustom_skip_all [where api = api and grp = grp and resource = resource, OF assms(1)]
  by (rule ListCustom_version [where api = api and grp = grp and resource = resource, OF assms(2,3)])

definition versioned_sample :: "gvr \<Rightarrow> (string, nat) list_call" where
  "versioned_sample g = (if gvr_version g = ''v1beta2'' then (\<lambda>_ _. Inl ''absent'') else two_pages)"

theorem list_custom_first_served_witness:
  "ListCustom (\<lambda>e. e = Api ''absent'') gvr_resource versioned_sample ''g'' ''redis'' [''v1beta2'', ''v1beta1'']
     (\<lambda>x xs. xs @ [x]) [] = Some (Inr True, [1, 2, 3])"
proof -
  have "ListCustom (\<lambda>e. e = Api ''absent'') gvr_resource versioned_sample ''g'' ''redis'' ([''v1beta2''] @ ''v1beta1'' # [])
     (\<lambda>x xs. xs @ [x]) [] =
    Some (case None of None \<Rightarrow> Inr True
          | Some e \<Rightarrow> Inl (Wrap (''list '' @ gvr_resource (version_gvr ''g'' ''redis'' ''v1beta1'') @ '': '') (Api e) []),
          fold (\<lambda>x xs. xs @ [x]) [1, 2, 3] [])"
    by (rule list_custom_first_served)
      (simp_all add: not_served_def versioned_sample_def version_gvr_def two_pages_served [simplified])
  then show ?thesis by (simp del: ListCustom.simps)
qed

text \<open>
  A custom resource none of whose versions is served is reported as not installed, without
  an error and without an item.
\<close>

theorem list_custom_not_installed:
  assumes "list_all (\<lambda>u. not_served isNotFound (api (version_gvr grp resource u))) versions"
  shows "ListCustom isNotFound gvrString api grp resource versions each s = Some (Inr False, s)"
  using ListCustom_skip_all [where api = api and grp = grp and resource = resource, OF assms, of gvrString "[]"] by simp

theorem list_custom_not_installed_witness:
  "ListCustom (\<lambda>e. e = Api ''absent'') gvr_resource versioned_sample ''g'' ''redis'' [''v1beta2''] (\<lambda>x xs. x # xs) [] =
     Some (Inr False, [])"
  by (rule list_custom_not_installed) (simp add: not_served_def versioned_sample_def version_gvr_def)

end
