(* ===== verification/Go_Time.thy ===== *)
theory Go_Time
  imports Go_Strings "HOL-Library.Multiset" "HOL-Library.List_Lexorder" "HOL-Library.Char_ord"
begin

text \<open>
  Integers of 64 bits, durations and their text, and the sorting and rune functions of Go's
  standard library the program uses. Strings are ordered byte by byte, as Go orders them.
\<close>

definition wrap64 :: "int \<Rightarrow> int" where
  "wrap64 i = (i + 2 ^ 63) mod 2 ^ 64 - 2 ^ 63"

lemma wrap64_range: "- (2 ^ 63) \<le> wrap64 i \<and> wrap64 i < 2 ^ 63"
proof -
  have "0 \<le> (i + 2 ^ 63) mod (2 ^ 64 :: int)" "(i + 2 ^ 63) mod (2 ^ 64 :: int) < 2 ^ 64"
    by simp_all
  then show ?thesis unfolding wrap64_def by simp
qed

lemma wrap64_id: "- (2 ^ 63) \<le> i \<Longrightarrow> i < 2 ^ 63 \<Longrightarrow> wrap64 i = i"
  unfolding wrap64_def by (subst mod_pos_pos_trivial) auto

text \<open>\<open>Duration.String\<close>: a fraction without its trailing zeros, then the units.\<close>

definition frac_digits :: "nat \<Rightarrow> nat \<Rightarrow> string" where
  "frac_digits v prec = map (\<lambda>i. char_of (48 + v div 10 ^ i mod 10)) (rev [0..<prec])"

definition fmt_frac :: "nat \<Rightarrow> nat \<Rightarrow> string" where
  "fmt_frac v prec =
     (let ds = rev (dropWhile (\<lambda>c. c = CHR ''0'') (rev (frac_digits (v mod 10 ^ prec) prec)))
      in if ds = [] then [] else CHR ''.'' # ds)"

definition duration_string :: "duration \<Rightarrow> string" where
  "duration_string d =
     (let u = nat \<bar>d\<bar>;
          abs_text =
            (if u = 0 then ''0s''
             else if u < 1000 then dec_nat u @ ''ns''
             else if u < 1000000 then dec_nat (u div 1000) @ fmt_frac u 3 @ [CHR 0xC2, CHR 0xB5, CHR ''s'']
             else if u < 1000000000 then dec_nat (u div 1000000) @ fmt_frac u 6 @ ''ms''
             else
               let secs = u div 1000000000; mins = secs div 60; hours = mins div 60 in
               (if hours > 0 then dec_nat hours @ ''h'' else []) @
               (if mins > 0 then dec_nat (mins mod 60) @ ''m'' else []) @
               dec_nat (secs mod 60) @ fmt_frac u 9 @ ''s'')
      in if d < 0 then CHR ''-'' # abs_text else abs_text)"

text \<open>
  \<open>sort.Slice\<close> and \<open>sort.Strings\<close> with an order given by a key. The Go sort is not stable:
  where two elements have the same key the order of the two is the model's choice.
\<close>

definition sort_slice :: "('a \<Rightarrow> 'k::linorder) \<Rightarrow> 'a list \<Rightarrow> 'a list" where
  "sort_slice key xs = sort_key key xs"

lemma sort_slice_set [simp]: "set (sort_slice key xs) = set xs"
  by (simp add: sort_slice_def)

lemma sort_slice_length [simp]: "length (sort_slice key xs) = length xs"
  by (simp add: sort_slice_def)

lemma sort_slice_sorted [simp]: "sorted (map key (sort_slice key xs))"
  by (simp add: sort_slice_def)

lemma sort_slice_distinct [simp]: "distinct (map key (sort_slice key xs)) = distinct (map key xs)"
proof -
  have "mset (map key (sort_slice key xs)) = mset (map key xs)" by (simp add: sort_slice_def)
  then show ?thesis by (metis mset_eq_imp_distinct_iff)
qed

text \<open>Runes of a valid UTF-8 string: a byte that is not a continuation byte starts one.\<close>

definition continuation_byte :: "char \<Rightarrow> bool" where
  "continuation_byte c \<longleftrightarrow> 128 \<le> byte c \<and> byte c < 192"

definition rune_count :: "string \<Rightarrow> nat" where
  "rune_count s = length (filter (\<lambda>c. \<not> continuation_byte c) s)"

text \<open>\<open>string([]rune(s)[:n])\<close>: the bytes before the start of rune number \<open>n\<close>.\<close>

fun take_runes :: "nat \<Rightarrow> string \<Rightarrow> string" where
  "take_runes n [] = []"
| "take_runes n (c # cs) =
     (if continuation_byte c then c # take_runes n cs
      else case n of 0 \<Rightarrow> [] | Suc k \<Rightarrow> c # take_runes k cs)"

lemma take_runes_count: "rune_count (take_runes n s) \<le> n"
  by (induction n s rule: take_runes.induct) (auto simp: rune_count_def split: nat.split)

lemma take_runes_prefix: "\<exists>r. s = take_runes n s @ r"
  by (induction n s rule: take_runes.induct) (auto split: nat.split)

end
