(* ===== verification/Disruption_Audit.thy ===== *)
theory Disruption_Audit
  imports K8s_List Go_Time Mcp_Args "HOL-Library.Product_Lexorder"
begin

text \<open>
  The disruption audit and the list of teams, \<open>src/internal/mcp/audit.go\<close>.

  The Go code keeps \<open>*auditPDB\<close> and \<open>*workload\<close> pointers: the same PDB is reached through
  the list and through \<open>byNS\<close>, and \<open>scanPods\<close> changes it there. The model keeps the objects in
  a list and a pointer is its index. The maps a PDB keeps as sets are lists without repetition. Go
  visits a map in no fixed order: where the order can be seen (\<open>resolveOwners\<close>), the order is a
  parameter. The cluster and the client libraries are the fields of \<open>audit_api\<close>. The tasks of an
  error group write to variables of their own, so their interleaving does not matter. A
  task that would never return (a list without an end) is cut off when another one fails, since the group
  cancels the context of its requests (\<open>run_group\<close>); when none fails, the model gives no result.
\<close>

subsection \<open>Data\<close>

definition labelTeam :: string where "labelTeam = ''snappcloud.io/team''"
definition labelEnv :: string where "labelEnv = ''environment''"
definition annotationIgnore :: string where "annotationIgnore = ''snappcloud.io/best-practice-ignore''"
definition labelAppName :: string where "labelAppName = ''app.kubernetes.io/name''"
definition labelInstance :: string where "labelInstance = ''app.kubernetes.io/instance''"
definition labelComponent :: string where "labelComponent = ''app.kubernetes.io/component''"

definition defaultQuorumImages :: "string list" where
  "defaultQuorumImages =
     [''rabbitmq'', ''etcd'', ''zookeeper'', ''kafka'', ''consul'', ''nats'', ''mongo'', ''redis-sentinel'', ''elasticsearch'']"

definition cacheEngines :: "string list" where
  "cacheEngines = [''redis'', ''rabbitmq'']"

type_synonym selector = "labels \<Rightarrow> bool"

datatype intOrString = IntVal int | StrVal string

record auditOwner =
  ao_Kind :: string
  ao_Name :: string
  ao_APIVersion :: string
  ao_Replicas :: "int option"
  ao_Images :: "string list"
  ao_OperatorKind :: string
  ao_Ignore :: string

record ownerRef =
  ow_ns :: string
  ow_kind :: string
  ow_name :: string
  ow_apiVersion :: string

record auditPDB =
  ap_Namespace :: string
  ap_Name :: string
  ap_MinAvailable :: "intOrString option"
  ap_MaxUnavailable :: "intOrString option"
  ap_UnhealthyPodEvictionPolicy :: string
  ap_ExpectedPods :: int
  ap_CurrentHealthy :: int
  ap_DesiredHealthy :: int
  ap_DisruptionsAllowed :: int
  ap_Owners :: "auditOwner list"
  ap_OverlapsWith :: "string list"
  ap_Ignore :: string
  ap_selector :: selector
  ap_owners :: "ownerRef list"
  ap_overlaps :: "string list"

record auditInstance =
  ai_Namespace :: string
  ai_Name :: string
  ai_Engine :: string
  ai_Kind :: string
  ai_Workload :: string
  ai_Replicas :: int
  ai_ReadReplicas :: int
  ai_ReplicaWorkload :: string
  ai_Quorum :: bool
  ai_Source :: string
  ai_PDBs :: "string list"
  ai_Images :: "string list"
  ai_Ignore :: string

record nsOwner =
  no_Team :: string
  no_Env :: string
  no_Labels :: labels

record workload =
  wl_kind :: string
  wl_ns :: string
  wl_name :: string
  wl_replicas :: int
  wl_images :: "string list"
  wl_labels :: labels
  wl_template :: labels
  wl_controller :: "ownerReference option"
  wl_ignore :: string

text \<open>What is read of the listed objects.\<close>

record 'sel pdbItem =
  pi_meta :: objectMeta
  pi_selector :: 'sel
  pi_minAvailable :: "intOrString option"
  pi_maxUnavailable :: "intOrString option"
  pi_unhealthyPodEvictionPolicy :: "string option"
  pi_expectedPods :: int
  pi_currentHealthy :: int
  pi_desiredHealthy :: int
  pi_disruptionsAllowed :: int

record workloadItem =
  wi_meta :: objectMeta
  wi_replicas :: "int option"
  wi_templateLabels :: labels
  wi_containerImages :: "string list"

record podItem =
  po_meta :: objectMeta
  po_phase :: string

record ('e, 'sel) audit_api =
  list_pdbs :: "('e, 'sel pdbItem) list_call"
  list_deployments :: "('e, workloadItem) list_call"
  list_statefulsets :: "('e, workloadItem) list_call"
  list_namespaces :: "('e, objectMeta) list_call"
  list_replicasets :: "('e, objectMeta) list_call"
  list_all_pods :: "('e, podItem) list_call"
  list_custom :: "gvr \<Rightarrow> ('e, object) list_call"
  is_not_found :: "'e goerr \<Rightarrow> bool"
  gvr_string :: "gvr \<Rightarrow> string"
  group_wait :: "'e goerr option list \<Rightarrow> 'e goerr option"
  controller_of :: "objectMeta \<Rightarrow> ownerReference option"
  as_selector :: "'sel \<Rightarrow> selector option"
  nothing :: selector
  nested_field :: "object \<Rightarrow> string list \<Rightarrow> any option"
  nested_slice :: "object \<Rightarrow> string list \<Rightarrow> any list"
  cr_namespace :: "object \<Rightarrow> string"
  cr_name :: "object \<Rightarrow> string"
  cr_uid :: "object \<Rightarrow> string"
  cr_annotations :: "object \<Rightarrow> labels"
  map_order :: "ownerRef list \<Rightarrow> ownerRef list"

definition newNSOwner :: "labels \<Rightarrow> nsOwner" where
  "newNSOwner l = \<lparr>no_Team = label l labelTeam, no_Env = label l labelEnv, no_Labels = l\<rparr>"

definition workload_owner :: "workload \<Rightarrow> auditOwner" where
  "workload_owner w =
     \<lparr>ao_Kind = wl_kind w, ao_Name = wl_name w, ao_APIVersion = [], ao_Replicas = Some (wl_replicas w),
      ao_Images = wl_images w,
      ao_OperatorKind = (case wl_controller w of Some c \<Rightarrow> or_kind c | None \<Rightarrow> []),
      ao_Ignore = wl_ignore w\<rparr>"

subsection \<open>Listing\<close>

definition newAuditPDB :: "('e, 'sel) audit_api \<Rightarrow> 'sel pdbItem \<Rightarrow> auditPDB" where
  "newAuditPDB api pdb =
     \<lparr>ap_Namespace = om_namespace (pi_meta pdb), ap_Name = om_name (pi_meta pdb),
      ap_MinAvailable = pi_minAvailable pdb, ap_MaxUnavailable = pi_maxUnavailable pdb,
      ap_UnhealthyPodEvictionPolicy = (case pi_unhealthyPodEvictionPolicy pdb of Some p \<Rightarrow> p | None \<Rightarrow> []),
      ap_ExpectedPods = pi_expectedPods pdb, ap_CurrentHealthy = pi_currentHealthy pdb,
      ap_DesiredHealthy = pi_desiredHealthy pdb, ap_DisruptionsAllowed = pi_disruptionsAllowed pdb,
      ap_Owners = [], ap_OverlapsWith = [], ap_Ignore = label (om_annotations (pi_meta pdb)) annotationIgnore,
      ap_selector = (case as_selector api (pi_selector pdb) of Some s \<Rightarrow> s | None \<Rightarrow> nothing api),
      ap_owners = [], ap_overlaps = []\<rparr>"

text \<open>\<open>fmt.Errorf("list ...: %w", err)\<close>\<close>

definition listing :: "string \<Rightarrow> 'e goerr \<Rightarrow> 'e goerr" where
  "listing what e = Wrap (''list '' @ what @ '': '') e []"

definition listPDBs :: "('e, 'sel) audit_api \<Rightarrow> ('e goerr option \<times> auditPDB list) option" where
  "listPDBs api =
     map_option (\<lambda>(err, out). (err, sort_slice (\<lambda>p. (ap_Namespace p, ap_Name p)) out))
       (readPages (list_pdbs api) (listing ''poddisruptionbudgets'')
          (\<lambda>i out. out @ [newAuditPDB api i]) [])"

fun distinct_images :: "string list \<Rightarrow> string list \<Rightarrow> string list" where
  "distinct_images acc [] = acc"
| "distinct_images acc (i # r) = distinct_images (if List.member acc i then acc else acc @ [i]) r"

definition newWorkload :: "('e, 'sel) audit_api \<Rightarrow> string \<Rightarrow> workloadItem \<Rightarrow> workload" where
  "newWorkload api kind i =
     \<lparr>wl_kind = kind, wl_ns = om_namespace (wi_meta i), wl_name = om_name (wi_meta i),
      wl_replicas = (case wi_replicas i of Some n \<Rightarrow> n | None \<Rightarrow> 1),
      wl_images = distinct_images [] (wi_containerImages i),
      wl_labels = om_labels (wi_meta i), wl_template = wi_templateLabels i,
      wl_controller = controller_of api (wi_meta i),
      wl_ignore = label (om_annotations (wi_meta i)) annotationIgnore\<rparr>"

definition listAuditWorkloads :: "('e, 'sel) audit_api \<Rightarrow> ('e goerr option \<times> workload list) option" where
  "listAuditWorkloads api =
     (case readPages (list_deployments api) (listing ''deployments'')
             (\<lambda>d out. out @ [newWorkload api ''Deployment'' d]) [] of
        None \<Rightarrow> None
      | Some (Some err, _) \<Rightarrow> Some (Some err, [])
      | Some (None, out) \<Rightarrow>
          readPages (list_statefulsets api) (listing ''statefulsets'')
            (\<lambda>s out. out @ [newWorkload api ''StatefulSet'' s]) out)"

definition listNamespaceLabels :: "('e, 'sel) audit_api \<Rightarrow> ('e goerr option \<times> (string \<rightharpoonup> labels)) option" where
  "listNamespaceLabels api =
     readPages (list_namespaces api) (listing ''namespaces'') (\<lambda>n out. out(om_name n \<mapsto> om_labels n)) Map.empty"

text \<open>The pointers to the PDBs of each namespace.\<close>

type_synonym by_ns = "string \<rightharpoonup> nat list"

definition groupByNS :: "auditPDB list \<Rightarrow> by_ns" where
  "groupByNS pdbs = fold (\<lambda>i. map_append (ap_Namespace (pdbs ! i)) i) [0..<length pdbs] Map.empty"

definition rs_step :: "('e, 'sel) audit_api \<Rightarrow> by_ns \<Rightarrow> objectMeta \<Rightarrow> (string \<rightharpoonup> string) \<Rightarrow> (string \<rightharpoonup> string)" where
  "rs_step api byNS rs out =
     (if listed byNS (om_namespace rs) = [] then out
      else case controller_of api rs of
             Some ref \<Rightarrow>
               if or_kind ref = ''Deployment'' then out(om_namespace rs @ ''/'' @ om_name rs \<mapsto> or_name ref) else out
           | None \<Rightarrow> out)"

definition listReplicaSetDeployments ::
  "('e, 'sel) audit_api \<Rightarrow> by_ns \<Rightarrow> ('e goerr option \<times> (string \<rightharpoonup> string)) option" where
  "listReplicaSetDeployments api byNS =
     readPages (list_replicasets api) (listing ''replicasets'') (rs_step api byNS) Map.empty"

subsection \<open>Pods and the PDBs that select them\<close>

definition pod_ref :: "('e, 'sel) audit_api \<Rightarrow> podItem \<Rightarrow> ownerRef" where
  "pod_ref api pod =
     (case controller_of api (po_meta pod) of
        Some ctl \<Rightarrow> \<lparr>ow_ns = om_namespace (po_meta pod), ow_kind = or_kind ctl, ow_name = or_name ctl,
                     ow_apiVersion = or_apiVersion ctl\<rparr>
      | None \<Rightarrow> \<lparr>ow_ns = om_namespace (po_meta pod), ow_kind = ''Pod'', ow_name = om_name (po_meta pod),
                 ow_apiVersion = []\<rparr>)"

definition add_owner :: "ownerRef \<Rightarrow> nat \<Rightarrow> auditPDB list \<Rightarrow> auditPDB list" where
  "add_owner ref p pdbs = pdbs[p := (pdbs ! p)\<lparr>ap_owners := List.insert ref (ap_owners (pdbs ! p))\<rparr>]"

definition add_overlap :: "nat \<Rightarrow> nat \<Rightarrow> auditPDB list \<Rightarrow> auditPDB list" where
  "add_overlap p q pdbs =
     (if p \<noteq> q
      then pdbs[p := (pdbs ! p)\<lparr>ap_overlaps := List.insert (ap_Name (pdbs ! q)) (ap_overlaps (pdbs ! p))\<rparr>]
      else pdbs)"

definition pod_step :: "('e, 'sel) audit_api \<Rightarrow> by_ns \<Rightarrow> podItem \<Rightarrow> auditPDB list \<Rightarrow> auditPDB list" where
  "pod_step api byNS pod pdbs =
     (let nsPDBs = listed byNS (om_namespace (po_meta pod)) in
      if nsPDBs = [] \<or> po_phase pod = ''Succeeded'' \<or> po_phase pod = ''Failed'' then pdbs
      else
        let matched = filter (\<lambda>p. ap_selector (pdbs ! p) (om_labels (po_meta pod))) nsPDBs in
        if matched = [] then pdbs
        else
          let pdbs' = fold (add_owner (pod_ref api pod)) matched pdbs in
          if length matched > 1 \<and> po_phase pod \<noteq> ''Pending'' \<and> \<not> om_deleting (po_meta pod)
          then fold (\<lambda>p. fold (add_overlap p) matched) matched pdbs'
          else pdbs')"

definition scanPods :: "('e, 'sel) audit_api \<Rightarrow> by_ns \<Rightarrow> auditPDB list \<Rightarrow> ('e goerr option \<times> auditPDB list) option" where
  "scanPods api byNS pdbs = readPages (list_all_pods api) (listing ''pods'') (pod_step api byNS) pdbs"

subsection \<open>Owners\<close>

definition resolve_ref :: "(string \<rightharpoonup> string) \<Rightarrow> ownerRef \<Rightarrow> string \<times> string" where
  "resolve_ref rsDeployment ref =
     (if ow_kind ref = ''ReplicaSet'' then
        (case rsDeployment (ow_ns ref @ ''/'' @ ow_name ref) of
           Some d \<Rightarrow> (''Deployment'', d)
         | None \<Rightarrow> (ow_kind ref, ow_name ref))
      else (ow_kind ref, ow_name ref))"

fun resolve_refs ::
  "(string \<rightharpoonup> string) \<Rightarrow> (string \<rightharpoonup> workload) \<Rightarrow> string list \<Rightarrow> auditOwner list \<Rightarrow> ownerRef list \<Rightarrow> auditOwner list" where
  "resolve_refs rsDeployment wlIndex seen out [] = out"
| "resolve_refs rsDeployment wlIndex seen out (ref # refs) =
     (let (kind, name) = resolve_ref rsDeployment ref; key = kind @ ''/'' @ name in
      if List.member seen key then resolve_refs rsDeployment wlIndex seen out refs
      else
        let o1 = (case wlIndex (kind @ ''/'' @ ow_ns ref @ ''/'' @ name) of
                    Some w \<Rightarrow> workload_owner w
                  | None \<Rightarrow> \<lparr>ao_Kind = kind, ao_Name = name, ao_APIVersion = ow_apiVersion ref, ao_Replicas = None,
                             ao_Images = [], ao_OperatorKind = [], ao_Ignore = []\<rparr>)
        in resolve_refs rsDeployment wlIndex (key # seen) (out @ [o1]) refs)"

definition resolveOwners ::
  "ownerRef list \<Rightarrow> (string \<rightharpoonup> string) \<Rightarrow> (string \<rightharpoonup> workload) \<Rightarrow> auditOwner list" where
  "resolveOwners refs rsDeployment wlIndex =
     sort_slice (\<lambda>o1. (ao_Kind o1, ao_Name o1)) (resolve_refs rsDeployment wlIndex [] [] refs)"

definition coveringPDBs :: "auditPDB list \<Rightarrow> nat list \<Rightarrow> labels \<Rightarrow> string list" where
  "coveringPDBs pdbs nsPDBs template =
     map (\<lambda>p. ap_Name (pdbs ! p)) (filter (\<lambda>p. ap_selector (pdbs ! p) template) nsPDBs)"

subsection \<open>Data services found by image\<close>

definition imageName :: "string \<Rightarrow> string" where
  "imageName img =
     (let (i1, _, _) = cut img (CHR ''@'');
          k = last_index i1 (CHR ''/'');
          i2 = (if k \<ge> 0 then drop (nat (k + 1)) i1 else i1);
          (i3, _, _) = cut i2 (CHR '':'')
      in to_lower i3)"

definition better_keyword :: "string \<Rightarrow> string \<Rightarrow> string \<Rightarrow> string" where
  "better_keyword name kw best = (if length kw > length best \<and> contains name kw then kw else best)"

definition detectEngine :: "string list \<Rightarrow> string list \<Rightarrow> string" where
  "detectEngine images keywords =
     fold (\<lambda>img best.
             let name = imageName img in
             if contains name ''exporter'' then best else fold (better_keyword name) keywords best)
       images []"

definition release :: "workload \<Rightarrow> string" where
  "release w =
     (if wl_kind w \<noteq> ''StatefulSet'' \<or> wl_controller w \<noteq> None \<or> label (wl_labels w) labelInstance = [] then []
      else wl_ns w @ ''/'' @ label (wl_labels w) labelAppName @ ''/'' @ label (wl_labels w) labelInstance)"

definition bitnamiMasters :: "workload list \<Rightarrow> (string \<rightharpoonup> nat)" where
  "bitnamiMasters ws =
     fold (\<lambda>i m. if release (ws ! i) \<noteq> [] \<and> label (wl_labels (ws ! i)) labelComponent = ''master''
                  then m(release (ws ! i) \<mapsto> i) else m)
       [0..<length ws] Map.empty"

definition bitnamiReplicas :: "workload list \<Rightarrow> (nat \<times> nat) list" where
  "bitnamiReplicas ws =
     fold (\<lambda>i out.
             if release (ws ! i) \<noteq> [] \<and> label (wl_labels (ws ! i)) labelComponent = ''replica'' then
               (case bitnamiMasters ws (release (ws ! i)) of Some k \<Rightarrow> assoc_put k i out | None \<Rightarrow> out)
             else out)
       [0..<length ws] []"

definition image_instance ::
  "workload list \<Rightarrow> auditPDB list \<Rightarrow> by_ns \<Rightarrow> string list \<Rightarrow> nat \<Rightarrow> auditInstance option" where
  "image_instance ws pdbs byNS quorumImages i =
     (let w = ws ! i; replicaOf = bitnamiReplicas ws in
      if wl_controller w \<noteq> None \<or> i \<in> snd ` set replicaOf then None
      else
        let engine = detectEngine (wl_images w) (cacheEngines @ quorumImages) in
        if engine = [] then None
        else
          let quorum = (wl_kind w = ''StatefulSet'' \<and> List.member quorumImages engine) in
          if \<not> quorum \<and> \<not> List.member cacheEngines engine then None
          else Some
            \<lparr>ai_Namespace = wl_ns w, ai_Name = wl_name w, ai_Engine = engine, ai_Kind = wl_kind w, ai_Workload = [],
             ai_Replicas = wl_replicas w,
             ai_ReadReplicas = (case map_of replicaOf i of Some r \<Rightarrow> wl_replicas (ws ! r) | None \<Rightarrow> 0),
             ai_ReplicaWorkload = (case map_of replicaOf i of Some r \<Rightarrow> wl_name (ws ! r) | None \<Rightarrow> []),
             ai_Quorum = quorum, ai_Source = ''image'',
             ai_PDBs = coveringPDBs pdbs (listed byNS (wl_ns w)) (wl_template w),
             ai_Images = wl_images w, ai_Ignore = wl_ignore w\<rparr>)"

definition imageInstances ::
  "workload list \<Rightarrow> auditPDB list \<Rightarrow> by_ns \<Rightarrow> string list \<Rightarrow> auditInstance list" where
  "imageInstances ws pdbs byNS quorumImages =
     List.map_filter (image_instance ws pdbs byNS quorumImages) [0..<length ws]"

subsection \<open>Data services run by an operator\<close>

definition nestedInt :: "('e, 'sel) audit_api \<Rightarrow> object \<Rightarrow> int \<Rightarrow> string list \<Rightarrow> int" where
  "nestedInt api obj d path =
     (case nested_field api obj path of
        Some (JInt n) \<Rightarrow> n
      | Some (JFloat q) \<Rightarrow> int_of_float q
      | _ \<Rightarrow> d)"

record dataServiceKind =
  dk_group :: string
  dk_resource :: string
  dk_kind :: string
  dk_engine :: string
  dk_versions :: "string list"
  dk_quorum :: bool
  dk_replicas :: "object \<Rightarrow> int"
  dk_member :: "(string \<Rightarrow> string \<Rightarrow> bool) option"

definition opstreeGroup :: string where "opstreeGroup = ''redis.redis.opstreelabs.in''"
definition opstreeVersions :: "string list" where "opstreeVersions = [''v1beta2'', ''v1beta1'']"

definition dataServiceKinds :: "('e, 'sel) audit_api \<Rightarrow> dataServiceKind list" where
  "dataServiceKinds api =
     [\<lparr>dk_group = ''rabbitmq.com'', dk_resource = ''rabbitmqclusters'', dk_kind = ''RabbitmqCluster'',
       dk_engine = ''rabbitmq'', dk_versions = [''v1beta1''], dk_quorum = True,
       dk_replicas = (\<lambda>o1. nestedInt api o1 1 [''spec'', ''replicas'']), dk_member = None\<rparr>,
      \<lparr>dk_group = opstreeGroup, dk_resource = ''redis'', dk_kind = ''Redis'',
       dk_engine = ''redis'', dk_versions = opstreeVersions, dk_quorum = False,
       dk_replicas = (\<lambda>o1. 1), dk_member = None\<rparr>,
      \<lparr>dk_group = opstreeGroup, dk_resource = ''redisreplications'', dk_kind = ''RedisReplication'',
       dk_engine = ''redis'', dk_versions = opstreeVersions, dk_quorum = False,
       dk_replicas = (\<lambda>o1. nestedInt api o1 0 [''spec'', ''clusterSize'']), dk_member = None\<rparr>,
      \<lparr>dk_group = opstreeGroup, dk_resource = ''redisclusters'', dk_kind = ''RedisCluster'',
       dk_engine = ''redis'', dk_versions = opstreeVersions, dk_quorum = True,
       dk_replicas = (\<lambda>o1. nestedInt api o1 (nestedInt api o1 0 [''spec'', ''clusterSize''])
                                [''spec'', ''redisLeader'', ''replicas'']),
       dk_member = Some (\<lambda>cr sts. sts = cr @ ''-leader'')\<rparr>,
      \<lparr>dk_group = opstreeGroup, dk_resource = ''redissentinels'', dk_kind = ''RedisSentinel'',
       dk_engine = ''redis-sentinel'', dk_versions = opstreeVersions, dk_quorum = True,
       dk_replicas = (\<lambda>o1. nestedInt api o1 0 [''spec'', ''clusterSize'']), dk_member = None\<rparr>]"

definition operator_instance ::
  "('e, 'sel) audit_api \<Rightarrow> dataServiceKind \<Rightarrow> (string \<rightharpoonup> workload list) \<Rightarrow> auditPDB list \<Rightarrow> by_ns \<Rightarrow> object \<Rightarrow> auditInstance" where
  "operator_instance api kind ownedSTS pdbs byNS cr =
     (let member = find (\<lambda>sts. case dk_member kind of None \<Rightarrow> True | Some f \<Rightarrow> f (cr_name api cr) (wl_name sts))
                     (listed ownedSTS (cr_uid api cr))
      in \<lparr>ai_Namespace = cr_namespace api cr, ai_Name = cr_name api cr, ai_Engine = dk_engine kind,
          ai_Kind = dk_kind kind,
          ai_Workload = (case member of Some sts \<Rightarrow> wl_name sts | None \<Rightarrow> []),
          ai_Replicas = dk_replicas kind cr, ai_ReadReplicas = 0, ai_ReplicaWorkload = [],
          ai_Quorum = dk_quorum kind, ai_Source = ''operator'',
          ai_PDBs = (case member of
                       Some sts \<Rightarrow> coveringPDBs pdbs (listed byNS (wl_ns sts)) (wl_template sts) | None \<Rightarrow> []),
          ai_Images = [], ai_Ignore = label (cr_annotations api cr) annotationIgnore\<rparr>)"

text \<open>The list of one kind: whether it is installed, and its objects.\<close>

definition listKind :: "('e, 'sel) audit_api \<Rightarrow> dataServiceKind \<Rightarrow> (('e goerr, bool) fallible \<times> object list) option" where
  "listKind api kind =
     ListCustom (is_not_found api) (gvr_string api) (list_custom api) (dk_group kind) (dk_resource kind)
       (dk_versions kind) (\<lambda>o1 crs. crs @ [o1]) []"

subsection \<open>The audit\<close>

record auditResult =
  ar_pdbs :: "auditPDB list"
  ar_instances :: "auditInstance list"
  ar_namespaces :: "(string \<times> nsOwner) list"
  ar_notInstalled :: "string list"
  ar_quorumImages :: "string list"

definition quorum_images :: "args \<Rightarrow> string list" where
  "quorum_images a =
     (let custom = arg_strs a ''quorum_images'' in
      if custom \<noteq> [] then map to_lower custom else defaultQuorumImages)"

definition workloadIndex :: "workload list \<Rightarrow> (string \<rightharpoonup> workload)" where
  "workloadIndex ws = fold (\<lambda>w m. m(wl_kind w @ ''/'' @ wl_ns w @ ''/'' @ wl_name w \<mapsto> w)) ws Map.empty"

definition ownedStatefulSets :: "workload list \<Rightarrow> (string \<rightharpoonup> workload list)" where
  "ownedStatefulSets ws =
     fold (\<lambda>w m. if wl_kind w = ''StatefulSet''
                  then (case wl_controller w of Some c \<Rightarrow> map_append (or_uid c) w m | None \<Rightarrow> m) else m)
       ws Map.empty"

definition finish_pdb ::
  "('e, 'sel) audit_api \<Rightarrow> (string \<rightharpoonup> string) \<Rightarrow> (string \<rightharpoonup> workload) \<Rightarrow> auditPDB \<Rightarrow> auditPDB" where
  "finish_pdb api rsDeployment wlIndex p =
     p\<lparr>ap_Owners := resolveOwners (map_order api (ap_owners p)) rsDeployment wlIndex,
       ap_OverlapsWith := sort_slice (\<lambda>n. n) (ap_overlaps p)\<rparr>"

definition namespace_entries ::
  "auditPDB list \<Rightarrow> auditInstance list \<Rightarrow> (string \<rightharpoonup> labels) \<Rightarrow> (string \<times> nsOwner) list" where
  "namespace_entries pdbs instances nsLabels =
     fold (\<lambda>ns m. assoc_put ns (newNSOwner (case nsLabels ns of Some l \<Rightarrow> l | None \<Rightarrow> [])) m)
       (map ap_Namespace pdbs @ map ai_Namespace instances) []"

definition join_audit ::
  "('e, 'sel) audit_api \<Rightarrow> string list \<Rightarrow> auditPDB list \<Rightarrow> workload list \<Rightarrow> (string \<rightharpoonup> labels) \<Rightarrow>
   (bool \<times> object list) list \<Rightarrow> by_ns \<Rightarrow> (string \<rightharpoonup> string) \<Rightarrow> auditResult" where
  "join_audit api quorumImages pdbs workloads nsLabels crs byNS rsDeployment =
     (let kinds = zip (dataServiceKinds api) crs;
          ownedSTS = ownedStatefulSets workloads;
          pdbs' = map (finish_pdb api rsDeployment (workloadIndex workloads)) pdbs;
          operated = concat (map (\<lambda>(kind, installed, objs).
             if installed then map (operator_instance api kind ownedSTS pdbs byNS) objs else []) kinds);
          instances = sort_slice (\<lambda>i. (ai_Namespace i, ai_Name i, ai_Kind i))
             (operated @ imageInstances workloads pdbs byNS quorumImages)
      in \<lparr>ar_pdbs = pdbs', ar_instances = instances,
          ar_namespaces = namespace_entries pdbs' instances nsLabels,
          ar_notInstalled = List.map_filter (\<lambda>(kind, installed, _).
             if installed then None else Some (dk_resource kind @ ''.'' @ dk_group kind)) kinds,
          ar_quorumImages = quorumImages\<rparr>)"

text \<open>
  A group of tasks, by how each ends when it is left alone: with an error, without one, or never (\<open>None\<close>).
  \<open>Wait\<close> returns when every task has ended by itself or one has failed, which cancels the rest.
\<close>

definition run_group ::
  "('e goerr option list \<Rightarrow> 'e goerr option) \<Rightarrow> 'e goerr option option list \<Rightarrow> 'e goerr option option" where
  "run_group wait tasks =
     (let ended = List.map_filter id tasks in
      if list_all (\<lambda>t. t \<noteq> None) tasks \<or> list_ex (\<lambda>e. e \<noteq> None) ended then Some (wait ended) else None)"

definition task_error :: "('e goerr, bool) fallible \<times> 'o \<Rightarrow> 'e goerr option" where
  "task_error c = (case fst c of Inl e \<Rightarrow> Some e | Inr _ \<Rightarrow> None)"

definition handleDisruptionAudit :: "('e, 'sel) audit_api \<Rightarrow> args \<Rightarrow> ('e goerr, auditResult) fallible option" where
  "handleDisruptionAudit api a =
     (let t1 = listPDBs api; t2 = listAuditWorkloads api; t3 = listNamespaceLabels api;
          t4 = map (listKind api) (dataServiceKinds api)
      in case run_group (group_wait api)
            ([map_option fst t1, map_option fst t2, map_option fst t3] @ map (map_option task_error) t4) of
           None \<Rightarrow> None
         | Some (Some err) \<Rightarrow> Some (Inl err)
         | Some None \<Rightarrow>
             (case (t1, t2, t3, those t4) of
                (Some (_, pdbs), Some (_, workloads), Some (_, nsLabels), Some listed_crs) \<Rightarrow>
                  (let byNS = groupByNS pdbs;
                       crs = map (\<lambda>(r, objs). (r = Inr True, objs)) listed_crs;
                       t5 = listReplicaSetDeployments api byNS; t6 = scanPods api byNS pdbs
                   in case run_group (group_wait api) [map_option fst t5, map_option fst t6] of
                        None \<Rightarrow> None
                      | Some (Some err) \<Rightarrow> Some (Inl err)
                      | Some None \<Rightarrow>
                          (case (t5, t6) of
                             (Some (_, rsDeployment), Some (_, pdbs')) \<Rightarrow>
                               Some (Inr (join_audit api (quorum_images a) pdbs' workloads nsLabels crs byNS rsDeployment))
                           | _ \<Rightarrow> None))
              | _ \<Rightarrow> None))"

subsection \<open>Teams\<close>

record project =
  pj_name :: string
  pj_envLabel :: string

record team =
  tm_team :: string
  tm_admins :: "string list"
  tm_projects :: "project list"

definition team_of :: "('e, 'sel) audit_api \<Rightarrow> object \<Rightarrow> team" where
  "team_of api o1 =
     \<lparr>tm_team = cr_name api o1,
      tm_admins = List.map_filter
        (\<lambda>raw. case raw of JMap m \<Rightarrow> (if str_field m ''name'' \<noteq> [] then Some (str_field m ''name'') else None) | _ \<Rightarrow> None)
        (nested_slice api o1 [''spec'', ''teamAdmins'']),
      tm_projects = List.map_filter
        (\<lambda>raw. case raw of
            JMap m \<Rightarrow> Some \<lparr>pj_name = str_field m ''name'', pj_envLabel = str_field m ''envLabel''\<rparr> | _ \<Rightarrow> None)
        (nested_slice api o1 [''spec'', ''projects''])\<rparr>"

definition handleListTeams :: "('e, 'sel) audit_api \<Rightarrow> ('e goerr, nat \<times> team list) fallible option" where
  "handleListTeams api =
     (case ListCustom (is_not_found api) (gvr_string api) (list_custom api) ''team.snappcloud.io'' ''teams''
             [''v1alpha1''] (\<lambda>o1 teams. teams @ [team_of api o1]) [] of
        None \<Rightarrow> None
      | Some (Inl err, _) \<Rightarrow> Some (Inl err)
      | Some (Inr installed, teams) \<Rightarrow>
          if \<not> installed then
            Some (Inl (Msg ''teams.team.snappcloud.io is not served on this cluster (team-operator not installed)''))
          else Some (Inr (length teams, sort_slice tm_team teams)))"

end
