(* ===== verification/Audit_Props.thy ===== *)
theory Audit_Props
  imports Disruption_Audit
begin

text \<open>
  What the disruption audit guarantees: which owners and overlaps a scan of the pods records, how
  owners are resolved, which engine an image is taken for, which replica a Bitnami master is paired
  with, and that a report is made from complete lists only and mentions every namespace it needs.
\<close>

subsection \<open>Scanning pods\<close>

definition statics :: "auditPDB \<Rightarrow> auditPDB" where
  "statics p = p\<lparr>ap_owners := [], ap_overlaps := []\<rparr>"

lemma statics_fields [simp]:
  "ap_Name (statics p) = ap_Name p" "ap_selector (statics p) = ap_selector p" "ap_Namespace (statics p) = ap_Namespace p"
  by (simp_all add: statics_def)

lemma statics_eqD:
  assumes "statics p = statics q"
  shows "ap_Name p = ap_Name q" "ap_selector p = ap_selector q" "ap_Namespace p = ap_Namespace q"
  using assms by (metis statics_fields)+

lemma listed_groupByNS:
  "listed (groupByNS pdbs) ns = filter (\<lambda>i. ap_Namespace (pdbs ! i) = ns) [0..<length pdbs]"
  unfolding groupByNS_def by (subst listed_group [where g = "\<lambda>i. i"]) simp

text \<open>What a PDB in the heap has recorded.\<close>

lemma add_owner_obs:
  assumes "i < length pdbs"
  shows "length (add_owner ref p pdbs) = length pdbs"
    "statics (add_owner ref p pdbs ! i) = statics (pdbs ! i)"
    "ap_overlaps (add_owner ref p pdbs ! i) = ap_overlaps (pdbs ! i)"
    "set (ap_owners (add_owner ref p pdbs ! i)) = set (ap_owners (pdbs ! i)) \<union> (if i = p then {ref} else {})"
  using assms by (cases "i = p"; auto simp: add_owner_def statics_def)+

lemma add_overlap_obs:
  assumes "i < length pdbs"
  shows "length (add_overlap p q pdbs) = length pdbs"
    "statics (add_overlap p q pdbs ! i) = statics (pdbs ! i)"
    "ap_owners (add_overlap p q pdbs ! i) = ap_owners (pdbs ! i)"
    "set (ap_overlaps (add_overlap p q pdbs ! i)) =
       set (ap_overlaps (pdbs ! i)) \<union> (if i = p \<and> p \<noteq> q then {ap_Name (pdbs ! q)} else {})"
  using assms by (cases "i = p"; auto simp: add_overlap_def statics_def)+

lemma fold_add_owner:
  assumes "i < length pdbs"
  shows "length (fold (add_owner ref) ps pdbs) = length pdbs \<and>
    statics (fold (add_owner ref) ps pdbs ! i) = statics (pdbs ! i) \<and>
    ap_overlaps (fold (add_owner ref) ps pdbs ! i) = ap_overlaps (pdbs ! i) \<and>
    set (ap_owners (fold (add_owner ref) ps pdbs ! i)) = set (ap_owners (pdbs ! i)) \<union> (if i \<in> set ps then {ref} else {})"
  using assms by (induction ps arbitrary: pdbs) (auto simp: add_owner_obs)

definition names_of :: "auditPDB list \<Rightarrow> nat list \<Rightarrow> nat \<Rightarrow> string set" where
  "names_of pdbs qs p = {ap_Name (pdbs ! q) | q. q \<in> set qs \<and> q \<noteq> p}"

lemma names_of_statics:
  assumes "\<forall>q \<in> set qs. statics (pdbs' ! q) = statics (pdbs ! q)"
  shows "names_of pdbs' qs p = names_of pdbs qs p"
  unfolding names_of_def using assms statics_eqD(1) by metis

lemma fold_add_overlap:
  assumes "i < length pdbs" and "\<forall>q \<in> set qs. q < length pdbs"
  shows "length (fold (add_overlap p) qs pdbs) = length pdbs \<and>
    statics (fold (add_overlap p) qs pdbs ! i) = statics (pdbs ! i) \<and>
    ap_owners (fold (add_overlap p) qs pdbs ! i) = ap_owners (pdbs ! i) \<and>
    set (ap_overlaps (fold (add_overlap p) qs pdbs ! i)) =
      set (ap_overlaps (pdbs ! i)) \<union> (if i = p then names_of pdbs qs p else {})"
  using assms
proof (induction qs arbitrary: pdbs)
  case Nil
  then show ?case by (simp add: names_of_def)
next
  case (Cons q qs)
  let ?n = "add_overlap p q pdbs"
  have l: "length ?n = length pdbs" using Cons.prems add_overlap_obs(1) by blast
  have "names_of ?n qs p = names_of pdbs qs p"
    using Cons.prems add_overlap_obs(2) by (intro names_of_statics) auto
  moreover have "names_of pdbs (q # qs) p = names_of pdbs qs p \<union> (if p \<noteq> q then {ap_Name (pdbs ! q)} else {})"
    by (auto simp: names_of_def)
  ultimately show ?case
    using Cons.IH [of ?n] Cons.prems l add_overlap_obs [OF Cons.prems(1), of p q] by auto
qed

lemma fold_fold_add_overlap:
  assumes "i < length pdbs" and "\<forall>q \<in> set qs. q < length pdbs"
  shows "length (fold (\<lambda>p. fold (add_overlap p) qs) ps pdbs) = length pdbs \<and>
    statics (fold (\<lambda>p. fold (add_overlap p) qs) ps pdbs ! i) = statics (pdbs ! i) \<and>
    ap_owners (fold (\<lambda>p. fold (add_overlap p) qs) ps pdbs ! i) = ap_owners (pdbs ! i) \<and>
    set (ap_overlaps (fold (\<lambda>p. fold (add_overlap p) qs) ps pdbs ! i)) =
      set (ap_overlaps (pdbs ! i)) \<union> (if i \<in> set ps then names_of pdbs qs i else {})"
  using assms
proof (induction ps arbitrary: pdbs)
  case (Cons p ps)
  let ?n = "fold (add_overlap p) qs pdbs"
  have l: "length ?n = length pdbs" using fold_add_overlap [OF Cons.prems] by blast
  have "names_of ?n qs i = names_of pdbs qs i"
    using fold_add_overlap [OF _ Cons.prems(2)] Cons.prems(2) by (intro names_of_statics) blast
  then show ?case
    using Cons.IH [of ?n] Cons.prems l fold_add_overlap [OF Cons.prems, of p] by auto
qed simp

text \<open>A PDB selects a pod that still runs or may run; only a placed pod that stays can be blocked.\<close>

definition selects :: "auditPDB list \<Rightarrow> nat \<Rightarrow> podItem \<Rightarrow> bool" where
  "selects pdbs i pod \<longleftrightarrow>
     i < length pdbs \<and> ap_Namespace (pdbs ! i) = om_namespace (po_meta pod) \<and>
     po_phase pod \<noteq> ''Succeeded'' \<and> po_phase pod \<noteq> ''Failed'' \<and>
     ap_selector (pdbs ! i) (om_labels (po_meta pod))"

definition can_block :: "podItem \<Rightarrow> bool" where
  "can_block pod \<longleftrightarrow> po_phase pod \<noteq> ''Pending'' \<and> \<not> om_deleting (po_meta pod)"

definition others :: "auditPDB list \<Rightarrow> nat \<Rightarrow> podItem \<Rightarrow> string set" where
  "others pdbs i pod =
     (if selects pdbs i pod \<and> can_block pod then {ap_Name (pdbs ! q) | q. selects pdbs q pod \<and> q \<noteq> i} else {})"

definition same_statics :: "auditPDB list \<Rightarrow> auditPDB list \<Rightarrow> bool" where
  "same_statics pdbs pdbs0 \<longleftrightarrow> map statics pdbs = map statics pdbs0"

lemma same_staticsD:
  assumes "same_statics pdbs pdbs0"
  shows "length pdbs = length pdbs0" "i < length pdbs \<Longrightarrow> statics (pdbs ! i) = statics (pdbs0 ! i)"
proof -
  show l: "length pdbs = length pdbs0" using assms unfolding same_statics_def by (rule map_eq_imp_length_eq)
  show "i < length pdbs \<Longrightarrow> statics (pdbs ! i) = statics (pdbs0 ! i)"
    using assms l unfolding same_statics_def by (metis nth_map)
qed

lemma same_staticsI:
  "length pdbs = length pdbs0 \<Longrightarrow> (\<And>i. i < length pdbs \<Longrightarrow> statics (pdbs ! i) = statics (pdbs0 ! i)) \<Longrightarrow>
   same_statics pdbs pdbs0"
  unfolding same_statics_def by (simp add: list_eq_iff_nth_eq)

lemma matched_selects:
  assumes "same_statics pdbs pdbs0" and "po_phase pod \<noteq> ''Succeeded''" and "po_phase pod \<noteq> ''Failed''"
  shows "set (filter (\<lambda>p. ap_selector (pdbs ! p) (om_labels (po_meta pod)))
      (listed (groupByNS pdbs0) (om_namespace (po_meta pod)))) = {q. selects pdbs0 q pod}"
proof -
  have "ap_selector (pdbs ! q) = ap_selector (pdbs0 ! q)" if "q < length pdbs0" for q
    using that same_staticsD [OF assms(1)] by (intro statics_eqD(2)) simp
  with assms(2,3) show ?thesis by (auto simp: listed_groupByNS selects_def)
qed

lemma distinct_two: "distinct xs \<Longrightarrow> length xs \<le> 1 \<Longrightarrow> i \<in> set xs \<Longrightarrow> q \<in> set xs \<Longrightarrow> q = i"
  by (cases xs rule: remdups_adj.cases) auto

lemma pod_step_obs:
  fixes api :: "('e, 'sel) audit_api" and pod :: podItem
  assumes st: "same_statics pdbs pdbs0" and i: "i < length pdbs"
  defines "n \<equiv> pod_step api (groupByNS pdbs0) pod pdbs"
  shows "length n = length pdbs \<and> statics (n ! i) = statics (pdbs ! i) \<and>
    set (ap_owners (n ! i)) = set (ap_owners (pdbs ! i)) \<union> (if selects pdbs0 i pod then {pod_ref api pod} else {}) \<and>
    set (ap_overlaps (n ! i)) = set (ap_overlaps (pdbs ! i)) \<union> others pdbs0 i pod"
proof (cases "listed (groupByNS pdbs0) (om_namespace (po_meta pod)) = [] \<or> po_phase pod = ''Succeeded'' \<or> po_phase pod = ''Failed''")
  case True
  have "\<not> selects pdbs0 q pod" if "listed (groupByNS pdbs0) (om_namespace (po_meta pod)) = []" for q
    using that by (auto simp: listed_groupByNS selects_def filter_empty_conv)
  then have "\<not> selects pdbs0 i pod" using True by (auto simp: selects_def)
  then show ?thesis using True by (auto simp: n_def pod_step_def others_def Let_def)
next
  case False
  define M where "M = filter (\<lambda>p. ap_selector (pdbs ! p) (om_labels (po_meta pod)))
    (listed (groupByNS pdbs0) (om_namespace (po_meta pod)))"
  define ow where "ow = fold (add_owner (pod_ref api pod)) M pdbs"
  have m: "q \<in> set M \<longleftrightarrow> selects pdbs0 q pod" for q
    using matched_selects [OF st] False unfolding M_def by blast
  have d: "distinct M" by (simp add: M_def listed_groupByNS)
  have n: "n = (if length M > 1 \<and> can_block pod then fold (\<lambda>p. fold (add_overlap p) M) M ow else ow)"
    using False by (auto simp: n_def pod_step_def can_block_def Let_def M_def ow_def)
  note o = fold_add_owner [OF i, of "pod_ref api pod" M, folded ow_def]
  have lt: "\<forall>q \<in> set M. q < length ow" using m same_staticsD(1) [OF st] o by (auto simp: selects_def)
  have name: "ap_Name (ow ! q) = ap_Name (pdbs0 ! q)" if "selects pdbs0 q pod" for q
  proof -
    have q: "q < length pdbs" using that same_staticsD(1) [OF st] by (simp add: selects_def)
    then have "statics (ow ! q) = statics (pdbs ! q)"
      using fold_add_owner [of q pdbs "pod_ref api pod" M] by (simp add: ow_def)
    then show ?thesis using same_staticsD(2) [OF st q] statics_eqD(1) by metis
  qed
  have names: "names_of ow M i = {ap_Name (pdbs0 ! q) | q. selects pdbs0 q pod \<and> q \<noteq> i}"
    unfolding names_of_def m using name by metis
  show ?thesis
  proof (cases "length M > 1 \<and> can_block pod")
    case True
    then have "n = fold (\<lambda>p. fold (add_overlap p) M) M ow" by (simp add: n)
    then show ?thesis
      using fold_fold_add_overlap [of i ow M M] i lt o True by (simp add: others_def names m)
  next
    case no: False
    have "others pdbs0 i pod = {}"
      using no distinct_two [OF d, of i] m by (auto simp: others_def)
    moreover have "n = ow" unfolding n using no by (rule if_not_P)
    ultimately show ?thesis using o m by simp
  qed
qed

lemma pod_steps_obs:
  fixes api :: "('e, 'sel) audit_api" and pods :: "podItem list"
  assumes "same_statics pdbs pdbs0" and "i < length pdbs"
  defines "n \<equiv> fold (pod_step api (groupByNS pdbs0)) pods pdbs"
  shows "length n = length pdbs \<and> statics (n ! i) = statics (pdbs ! i) \<and>
    set (ap_owners (n ! i)) = set (ap_owners (pdbs ! i)) \<union> pod_ref api ` {pod \<in> set pods. selects pdbs0 i pod} \<and>
    set (ap_overlaps (n ! i)) = set (ap_overlaps (pdbs ! i)) \<union> (\<Union>pod \<in> set pods. others pdbs0 i pod)"
  using assms(1,2) unfolding n_def
proof (induction pods arbitrary: pdbs)
  case (Cons pod pods)
  let ?n = "pod_step api (groupByNS pdbs0) pod pdbs"
  note obs = pod_step_obs [OF Cons.prems(1), where api = api and pod = pod]
  have l: "length ?n = length pdbs" using obs [OF Cons.prems(2)] by blast
  have "same_statics ?n pdbs0"
    using l obs same_staticsD [OF Cons.prems(1)] by (intro same_staticsI) auto
  from Cons.IH [OF this] l obs [OF Cons.prems(2)] Cons.prems(2) show ?case by auto
qed simp

subsection \<open>Resolving owners\<close>

definition ref_key :: "(string \<rightharpoonup> string) \<Rightarrow> ownerRef \<Rightarrow> string" where
  "ref_key rsd ref = (case resolve_ref rsd ref of (kind, name) \<Rightarrow> kind @ ''/'' @ name)"

definition owner_for :: "(string \<rightharpoonup> string) \<Rightarrow> (string \<rightharpoonup> workload) \<Rightarrow> ownerRef \<Rightarrow> auditOwner" where
  "owner_for rsd wl ref =
     (case resolve_ref rsd ref of (kind, name) \<Rightarrow>
        (case wl (kind @ ''/'' @ ow_ns ref @ ''/'' @ name) of
           Some w \<Rightarrow> workload_owner w
         | None \<Rightarrow> \<lparr>ao_Kind = kind, ao_Name = name, ao_APIVersion = ow_apiVersion ref, ao_Replicas = None,
                    ao_Images = [], ao_OperatorKind = [], ao_Ignore = []\<rparr>))"

text \<open>
  What Kubernetes guarantees of the names: the references of a PDB are to owners of its namespace, and no kind
  and no name has a slash in it.
\<close>

definition no_slash :: "string \<Rightarrow> bool" where
  "no_slash s \<longleftrightarrow> CHR ''/'' \<notin> set s"

definition plain_refs :: "(string \<rightharpoonup> string) \<Rightarrow> string \<Rightarrow> ownerRef list \<Rightarrow> bool" where
  "plain_refs rsd ns refs \<longleftrightarrow>
     list_all (\<lambda>r. ow_ns r = ns \<and> no_slash (fst (resolve_ref rsd r)) \<and> no_slash (snd (resolve_ref rsd r))) refs"

definition plain_workloads :: "workload list \<Rightarrow> bool" where
  "plain_workloads ws \<longleftrightarrow> list_all (\<lambda>w. no_slash (wl_kind w) \<and> no_slash (wl_name w)) ws"

definition owner_key :: "auditOwner \<Rightarrow> string \<times> string" where
  "owner_key o1 = (ao_Kind o1, ao_Name o1)"

definition without_version :: "auditOwner \<Rightarrow> auditOwner" where
  "without_version o1 = o1\<lparr>ao_APIVersion := []\<rparr>"

lemma split_first: "c \<notin> set a \<Longrightarrow> c \<notin> set b \<Longrightarrow> a @ c # r = b @ c # t \<longleftrightarrow> a = b \<and> r = t"
proof (induction a arbitrary: b)
  case Nil
  then show ?case by (cases b) auto
next
  case (Cons x a)
  then show ?case by (cases b) auto
qed

lemma split_last: "c \<notin> set r \<Longrightarrow> c \<notin> set t \<Longrightarrow> a @ c # r = b @ c # t \<longleftrightarrow> a = b \<and> r = t"
proof -
  assume c: "c \<notin> set r" "c \<notin> set t"
  have "a @ c # r = b @ c # t \<longleftrightarrow> rev (a @ c # r) = rev (b @ c # t)" by (simp only: rev_is_rev_conv)
  also have "\<dots> \<longleftrightarrow> rev r @ c # rev a = rev t @ c # rev b" by simp
  also have "\<dots> \<longleftrightarrow> a = b \<and> r = t" using split_first [of c "rev r" "rev t" "rev a" "rev b"] c by auto
  finally show ?thesis .
qed

lemma index_key_inject:
  assumes "no_slash k" "no_slash k'" "no_slash n" "no_slash n'"
    and "k @ ''/'' @ ns @ ''/'' @ n = k' @ ''/'' @ ns' @ ''/'' @ n'"
  shows "k = k' \<and> n = n'"
proof -
  note plain = assms(1-4) [unfolded no_slash_def]
  have "k @ CHR ''/'' # (ns @ CHR ''/'' # n) = k' @ CHR ''/'' # (ns' @ CHR ''/'' # n')" using assms(5) by simp
  then have "k = k' \<and> ns @ CHR ''/'' # n = ns' @ CHR ''/'' # n'"
    unfolding split_first [OF plain(1,2)] .
  then have "k = k' \<and> ns = ns' \<and> n = n'" unfolding split_last [OF plain(3,4)] .
  then show ?thesis by (elim conjE) (intro conjI)
qed

lemma workloadIndex_Some:
  "workloadIndex ws key = Some w \<Longrightarrow> w \<in> set ws \<and> wl_kind w @ ''/'' @ wl_ns w @ ''/'' @ wl_name w = key"
proof -
  assume found: "workloadIndex ws key = Some w"
  define step where "step \<equiv> \<lambda>(w :: workload) (m :: string \<rightharpoonup> workload). m(wl_kind w @ ''/'' @ wl_ns w @ ''/'' @ wl_name w \<mapsto> w)"
  have "fold step ws m key = Some w \<Longrightarrow>
      m key = Some w \<or> w \<in> set ws \<and> wl_kind w @ ''/'' @ wl_ns w @ ''/'' @ wl_name w = key" for m
  proof (induction ws arbitrary: m)
    case (Cons x ws)
    from Cons.IH [of "step x m"] Cons.prems have "step x m key = Some w \<or>
      w \<in> set ws \<and> wl_kind w @ ''/'' @ wl_ns w @ ''/'' @ wl_name w = key" by (simp only: fold_simps)
    then show ?case
      unfolding step_def fun_upd_def by (cases "key = wl_kind x @ ''/'' @ wl_ns x @ ''/'' @ wl_name x") force+
  qed simp
  from this [of Map.empty] found show ?thesis unfolding workloadIndex_def step_def by simp
qed

text \<open>An owner is found under its own kind and name, and only its API version depends on the reference.\<close>

lemma owner_for_key:
  assumes "plain_refs rsd ns refs" and "plain_workloads ws" and "r \<in> set refs"
  shows "owner_key (owner_for rsd (workloadIndex ws) r) = resolve_ref rsd r"
proof -
  obtain kind name where k: "resolve_ref rsd r = (kind, name)" by (cases "resolve_ref rsd r")
  have p: "no_slash kind" "no_slash name" using assms(1,3) k by (auto simp: plain_refs_def list_all_iff)
  show ?thesis
  proof (cases "workloadIndex ws (kind @ ''/'' @ ow_ns r @ ''/'' @ name)")
    case (Some w)
    note w = workloadIndex_Some [OF Some]
    then have "no_slash (wl_kind w)" "no_slash (wl_name w)" using assms(2) by (auto simp: plain_workloads_def list_all_iff)
    with w p have "wl_kind w = kind \<and> wl_name w = name" by (intro index_key_inject) auto
    with Some k show ?thesis by (simp add: owner_for_def owner_key_def workload_owner_def)
  qed (simp add: owner_for_def owner_key_def k)
qed

lemma owner_for_same:
  assumes "resolve_ref rsd r = resolve_ref rsd r'" and "ow_ns r = ow_ns r'"
  shows "without_version (owner_for rsd wl r) = without_version (owner_for rsd wl r')"
  using assms by (auto simp: owner_for_def without_version_def split: prod.split option.split)

lemma ref_key_resolves:
  assumes "plain_refs rsd ns refs" and "r \<in> set refs" and "r' \<in> set refs"
  shows "ref_key rsd r = ref_key rsd r' \<longleftrightarrow> resolve_ref rsd r = resolve_ref rsd r'"
proof -
  obtain k n where r: "resolve_ref rsd r = (k, n)" by (cases "resolve_ref rsd r")
  obtain k' n' where r': "resolve_ref rsd r' = (k', n')" by (cases "resolve_ref rsd r'")
  have "CHR ''/'' \<notin> set k" "CHR ''/'' \<notin> set k'"
    using assms r r' by (auto simp: plain_refs_def list_all_iff no_slash_def)
  from split_first [OF this, of n n'] show ?thesis by (simp add: ref_key_def r r')
qed

fun first_refs :: "(string \<rightharpoonup> string) \<Rightarrow> string list \<Rightarrow> ownerRef list \<Rightarrow> ownerRef list" where
  "first_refs rsd seen [] = []"
| "first_refs rsd seen (r # rs) =
     (if ref_key rsd r \<in> set seen then first_refs rsd seen rs
      else r # first_refs rsd (ref_key rsd r # seen) rs)"

lemma resolve_refs_first:
  "resolve_refs rsd wl seen out refs = out @ map (owner_for rsd wl) (first_refs rsd seen refs)"
proof (induction refs arbitrary: seen out)
  case (Cons r rs)
  obtain kind name where k: "resolve_ref rsd r = (kind, name)" by (cases "resolve_ref rsd r")
  have "List.member seen (ref_key rsd r) = (ref_key rsd r \<in> set seen)" by (simp add: List.member_iff)
  with Cons k show ?case
    by (auto simp: ref_key_def owner_for_def Let_def split: option.split)
qed simp

lemma first_refs_keys:
  "ref_key rsd ` set (first_refs rsd seen refs) = ref_key rsd ` set refs - set seen \<and>
   distinct (map (ref_key rsd) (first_refs rsd seen refs)) \<and> set (first_refs rsd seen refs) \<subseteq> set refs"
proof (induction refs arbitrary: seen)
  case (Cons r rs)
  show ?case
  proof (cases "ref_key rsd r \<in> set seen")
    case True
    with Cons.IH [of seen] show ?thesis by auto
  next
    case False
    have ih: "ref_key rsd ` set (first_refs rsd (ref_key rsd r # seen) rs) =
        ref_key rsd ` set rs - set (ref_key rsd r # seen)" using Cons.IH by blast
    then have "ref_key rsd r \<notin> ref_key rsd ` set (first_refs rsd (ref_key rsd r # seen) rs)" by simp
    with False ih Cons.IH [of "ref_key rsd r # seen"] show ?thesis by auto
  qed
qed simp

lemma resolved_owners:
  assumes "plain_refs rsd ns refs" and "plain_workloads ws"
  shows "map owner_key (resolveOwners refs rsd (workloadIndex ws)) = sorted_list_of_set (resolve_ref rsd ` set refs)"
    and "set (resolveOwners refs rsd (workloadIndex ws)) \<subseteq> owner_for rsd (workloadIndex ws) ` set refs"
proof -
  let ?f = "first_refs rsd [] refs" and ?owner = "owner_for rsd (workloadIndex ws)"
  note k = first_refs_keys [of rsd "[]" refs]
  have f: "resolveOwners refs rsd (workloadIndex ws) = sort_slice owner_key (map ?owner ?f)"
    by (simp add: resolveOwners_def resolve_refs_first owner_key_def [abs_def])
  have keys: "map owner_key (map ?owner ?f) = map (resolve_ref rsd) ?f"
    using k owner_for_key [OF assms] by auto
  have "distinct (map (\<lambda>(a, b). a @ ''/'' @ b) (map (resolve_ref rsd) ?f))"
    using k by (simp add: ref_key_def [abs_def] o_def)
  then have d: "distinct (map (resolve_ref rsd) ?f)" unfolding distinct_map by blast
  have "resolve_ref rsd ` set ?f = resolve_ref rsd ` set refs"
  proof
    show "resolve_ref rsd ` set refs \<subseteq> resolve_ref rsd ` set ?f"
    proof
      fix x assume "x \<in> resolve_ref rsd ` set refs"
      then obtain r where r: "r \<in> set refs" "x = resolve_ref rsd r" by blast
      then have "ref_key rsd r \<in> ref_key rsd ` set ?f" using k by auto
      then obtain r' where "r' \<in> set ?f" "ref_key rsd r = ref_key rsd r'" by auto
      with ref_key_resolves [OF assms(1) r(1)] r(2) k show "x \<in> resolve_ref rsd ` set ?f" by blast
    qed
  qed (use k in blast)
  then have "owner_key ` set (map ?owner ?f) = resolve_ref rsd ` set refs"
    using arg_cong [OF keys, of set] by (simp only: set_map)
  then have "set (map owner_key (sort_slice owner_key (map ?owner ?f))) = resolve_ref rsd ` set refs"
    by (simp only: set_map sort_slice_set)
  moreover have "distinct (map owner_key (sort_slice owner_key (map ?owner ?f)))" using d keys by (simp del: map_map)
  ultimately show "map owner_key (resolveOwners refs rsd (workloadIndex ws)) = sorted_list_of_set (resolve_ref rsd ` set refs)"
    unfolding f by (metis sort_slice_sorted sorted_list_of_set.idem_if_sorted_distinct)
  show "set (resolveOwners refs rsd (workloadIndex ws)) \<subseteq> ?owner ` set refs" using k by (auto simp: f)
qed

lemma resolved_nth:
  assumes "plain_refs rsd ns refs" and "plain_workloads ws" and "i < length (resolveOwners refs rsd (workloadIndex ws))"
  shows "\<exists>r \<in> set refs. resolveOwners refs rsd (workloadIndex ws) ! i = owner_for rsd (workloadIndex ws) r \<and>
    resolve_ref rsd r = sorted_list_of_set (resolve_ref rsd ` set refs) ! i"
proof -
  let ?o = "resolveOwners refs rsd (workloadIndex ws)"
  obtain r where r: "r \<in> set refs" "?o ! i = owner_for rsd (workloadIndex ws) r"
    using resolved_owners(2) [OF assms(1,2)] nth_mem [OF assms(3)] by blast
  have "resolve_ref rsd r = map owner_key ?o ! i" using owner_for_key [OF assms(1,2) r(1)] r(2) assms(3) by simp
  then show ?thesis using r unfolding resolved_owners(1) [OF assms(1,2)] by blast
qed

subsection \<open>Engines, images and Bitnami releases\<close>

definition engine_candidate :: "string list \<Rightarrow> string list \<Rightarrow> string \<Rightarrow> bool" where
  "engine_candidate images kws0 kw =
     (kw \<in> set kws0 \<and>
      list_ex (\<lambda>img. \<not> contains (imageName img) ''exporter'' \<and> contains (imageName img) kw) images)"

lemma better_keywords:
  "let b = fold (better_keyword name) kws best in
     (b = best \<or> b \<in> set kws \<and> contains name b) \<and> length best \<le> length b \<and>
     (\<forall>kw \<in> set kws. contains name kw \<longrightarrow> length kw \<le> length b)"
proof (induction kws arbitrary: best)
  case (Cons kw kws)
  from Cons.IH [of "better_keyword name kw best"] show ?case
    by (auto simp: better_keyword_def Let_def split: if_splits)
qed simp

lemma detectEngine_fold:
  fixes kws0
  defines "step \<equiv> \<lambda>img best. let name = imageName img in
     if contains name ''exporter'' then best else fold (better_keyword name) kws0 best"
  shows "(fold step images best = best \<or> engine_candidate images kws0 (fold step images best)) \<and>
    length best \<le> length (fold step images best) \<and>
    (\<forall>kw. engine_candidate images kws0 kw \<longrightarrow> length kw \<le> length (fold step images best))"
proof (induction images arbitrary: best)
  case Nil
  then show ?case by (simp add: engine_candidate_def)
next
  case (Cons img images)
  let ?b = "step img best"
  have s: "(?b = best \<or> ?b \<in> set kws0 \<and> contains (imageName img) ?b \<and> \<not> contains (imageName img) ''exporter'') \<and>
      length best \<le> length ?b \<and>
      (\<forall>kw \<in> set kws0. \<not> contains (imageName img) ''exporter'' \<longrightarrow> contains (imageName img) kw \<longrightarrow> length kw \<le> length ?b)"
    using better_keywords [of "imageName img" kws0 best] by (auto simp: step_def Let_def)
  have c: "engine_candidate (img # images) kws0 kw \<longleftrightarrow>
      kw \<in> set kws0 \<and> \<not> contains (imageName img) ''exporter'' \<and> contains (imageName img) kw \<or>
      engine_candidate images kws0 kw" for kw
    by (auto simp: engine_candidate_def)
  note ih = Cons.IH [of ?b]
  have "length kw \<le> length (fold step images ?b)" if "engine_candidate (img # images) kws0 kw" for kw
    using that s ih unfolding c by (meson order_trans)
  moreover have "fold step images ?b = best \<or> engine_candidate (img # images) kws0 (fold step images ?b)"
    unfolding c using s ih by metis
  moreover have "length best \<le> length (fold step images ?b)" using s ih by (meson order_trans)
  ultimately show ?case by simp
qed

lemma bitnamiMasters_sound:
  assumes "bitnamiMasters ws k = Some i"
  shows "i < length ws \<and> release (ws ! i) = k \<and> k \<noteq> [] \<and> label (wl_labels (ws ! i)) labelComponent = ''master''"
proof -
  let ?step = "\<lambda>i m. if release (ws ! i) \<noteq> [] \<and> label (wl_labels (ws ! i)) labelComponent = ''master''
                  then m(release (ws ! i) \<mapsto> i) else m"
  have "fold ?step is m k = Some i \<Longrightarrow> m k = Some i \<or>
      i \<in> set is \<and> release (ws ! i) = k \<and> k \<noteq> [] \<and> label (wl_labels (ws ! i)) labelComponent = ''master''" for "is" m
  proof (induction "is" arbitrary: m)
    case (Cons j "is")
    from Cons.IH [of "?step j m"] Cons.prems
    have "?step j m k = Some i \<or> i \<in> set is \<and> release (ws ! i) = k \<and> k \<noteq> [] \<and>
      label (wl_labels (ws ! i)) labelComponent = ''master''" by simp
    then show ?case by (simp split: if_splits) blast+
  qed simp
  from this [of "[0..<length ws]" Map.empty] assms show ?thesis by (simp add: bitnamiMasters_def)
qed

lemma set_assoc_put: "set (assoc_put k v m) \<subseteq> insert (k, v) (set m)"
  by (induction m) (auto split: if_splits)

lemma bitnamiReplicas_sound:
  assumes "(k, i) \<in> set (bitnamiReplicas ws)"
  shows "i < length ws \<and> label (wl_labels (ws ! i)) labelComponent = ''replica'' \<and>
    bitnamiMasters ws (release (ws ! i)) = Some k"
proof -
  let ?step = "\<lambda>i out. if release (ws ! i) \<noteq> [] \<and> label (wl_labels (ws ! i)) labelComponent = ''replica'' then
               (case bitnamiMasters ws (release (ws ! i)) of Some k \<Rightarrow> assoc_put k i out | None \<Rightarrow> out) else out"
  have "(k, i) \<in> set (fold ?step is out) \<Longrightarrow> (k, i) \<in> set out \<or>
      i \<in> set is \<and> label (wl_labels (ws ! i)) labelComponent = ''replica'' \<and>
      bitnamiMasters ws (release (ws ! i)) = Some k" for "is" out
  proof (induction "is" arbitrary: out)
    case (Cons j "is")
    from Cons.IH [of "?step j out"] Cons.prems
    have "(k, i) \<in> set (?step j out) \<or> i \<in> set is \<and> label (wl_labels (ws ! i)) labelComponent = ''replica'' \<and>
      bitnamiMasters ws (release (ws ! i)) = Some k" by simp
    then show ?case using set_assoc_put by (fastforce split: if_splits option.splits)
  qed simp
  from this [of "[0..<length ws]" "[]"] assms show ?thesis by (simp add: bitnamiReplicas_def)
qed

subsection \<open>The report is made from complete lists\<close>

text \<open>
  The law of \<open>errgroup\<close>: \<open>Wait\<close> returns nil exactly when every task did, and else an error of one.
\<close>

definition wait_ok :: "('e goerr option list \<Rightarrow> 'e goerr option) \<Rightarrow> bool" where
  "wait_ok w \<longleftrightarrow> (\<forall>es. (w es = None \<longleftrightarrow> list_all (\<lambda>e. e = None) es) \<and> (w es = None \<or> w es \<in> set es))"

definition complete :: "('e, 'a) list_call \<Rightarrow> bool" where
  "complete call \<longleftrightarrow> (\<exists>items. served call 0 [] items None)"

definition lists_complete :: "('e, 'sel) audit_api \<Rightarrow> bool" where
  "lists_complete api \<longleftrightarrow>
     complete (list_pdbs api) \<and> complete (list_deployments api) \<and> complete (list_statefulsets api) \<and>
     complete (list_namespaces api) \<and> complete (list_replicasets api) \<and> complete (list_all_pods api) \<and>
     list_all (\<lambda>k. \<exists>b objs. listKind api k = Some (Inr b, objs)) (dataServiceKinds api)"

lemma those_Some: "those xs = Some ys \<longleftrightarrow> xs = map Some ys"
proof (induction xs arbitrary: ys)
  case (Cons x xs)
  then show ?case by (cases ys; cases x) auto
qed auto

lemma read_complete: "(\<exists>s'. readPages call describe each s = Some (None, s')) \<longleftrightarrow> complete call"
  unfolding pages.reader_ok complete_def by blast

lemma listPDBs_complete: "(\<exists>x. listPDBs api = Some (None, x)) \<longleftrightarrow> complete (list_pdbs api)"
  unfolding listPDBs_def read_complete [symmetric, of "list_pdbs api" "listing ''poddisruptionbudgets''" "\<lambda>i out. out @ [newAuditPDB api i]" "[]"]
  by auto

lemma listAuditWorkloads_complete:
  "(\<exists>x. listAuditWorkloads api = Some (None, x)) \<longleftrightarrow> complete (list_deployments api) \<and> complete (list_statefulsets api)"
proof -
  let ?d = "readPages (list_deployments api) (listing ''deployments'') (\<lambda>d out. out @ [newWorkload api ''Deployment'' d]) []"
  have "(\<exists>x. listAuditWorkloads api = Some (None, x)) \<longleftrightarrow>
      (\<exists>out. ?d = Some (None, out) \<and> (\<exists>x. readPages (list_statefulsets api) (listing ''statefulsets'')
         (\<lambda>s out. out @ [newWorkload api ''StatefulSet'' s]) out = Some (None, x)))"
    by (auto simp: listAuditWorkloads_def split: option.splits prod.splits)
  then show ?thesis by (metis read_complete)
qed

lemma wait_okD:
  assumes "wait_ok w"
  shows "w es = None \<longleftrightarrow> list_all (\<lambda>e. e = None) es" and "w es = Some e \<Longrightarrow> Some e \<in> set es"
proof -
  have "(w es = None \<longleftrightarrow> list_all (\<lambda>e. e = None) es) \<and> (w es = None \<or> w es \<in> set es)"
    using assms unfolding wait_ok_def by (rule spec)
  then show "w es = None \<longleftrightarrow> list_all (\<lambda>e. e = None) es" "w es = Some e \<Longrightarrow> Some e \<in> set es" by simp_all
qed

lemma set_map_filter_id: "x \<in> set (List.map_filter id ts) \<longleftrightarrow> Some x \<in> set ts"
  by (induction ts) (auto simp: List.map_filter_def split: option.splits)

text \<open>A group ends without an error exactly when all of its tasks do; it fails when one of them does.\<close>

lemma run_group_None:
  assumes "wait_ok w"
  shows "run_group w ts = Some None \<longleftrightarrow> list_all (\<lambda>t. t = Some None) ts"
proof
  let ?es = "List.map_filter id ts"
  assume r: "run_group w ts = Some None"
  then have "w ?es = None" by (simp add: run_group_def Let_def split: if_splits)
  then have none: "e = None" if "Some e \<in> set ts" for e
    using that wait_okD(1) [OF assms, of ?es] by (simp add: list_all_iff set_map_filter_id)
  then have "\<not> list_ex (\<lambda>e. e \<noteq> None) ?es" by (simp add: list_ex_iff set_map_filter_id)
  with r have "list_all (\<lambda>t. t \<noteq> None) ts" by (simp add: run_group_def Let_def split: if_splits)
  with none show "list_all (\<lambda>t. t = Some None) ts" by (fastforce simp: list_all_iff)
next
  let ?es = "List.map_filter id ts"
  assume t: "list_all (\<lambda>t. t = Some None) ts"
  then have "list_all (\<lambda>e. e = None) ?es" by (auto simp: list_all_iff set_map_filter_id)
  then have "w ?es = None" using wait_okD(1) [OF assms] by blast
  moreover have "list_all (\<lambda>t. t \<noteq> None) ts" using t by (auto simp: list_all_iff)
  ultimately show "run_group w ts = Some None" by (simp add: run_group_def)
qed

lemma run_group_fails:
  assumes "wait_ok w" and "Some (Some e) \<in> set ts"
  shows "\<exists>e'. run_group w ts = Some (Some e') \<and> Some (Some e') \<in> set ts"
proof -
  let ?es = "List.map_filter id ts"
  have "Some e \<in> set ?es" using assms(2) by (simp add: set_map_filter_id)
  then have "w ?es \<noteq> None" "list_ex (\<lambda>e. e \<noteq> None) ?es"
    unfolding wait_okD(1) [OF assms(1)] by (auto simp: list_all_iff list_ex_iff)
  then obtain e' where "w ?es = Some e'" "run_group w ts = Some (Some e')" by (auto simp: run_group_def Let_def)
  with wait_okD(2) [OF assms(1)] show ?thesis by (metis set_map_filter_id)
qed

text \<open>The tasks of the first step, by how they end.\<close>

definition first_tasks :: "('e, 'sel) audit_api \<Rightarrow> 'e goerr option option list" where
  "first_tasks api =
     [map_option fst (listPDBs api), map_option fst (listAuditWorkloads api), map_option fst (listNamespaceLabels api)] @
     map (map_option task_error) (map (listKind api) (dataServiceKinds api))"

lemma audit_report:
  assumes "handleDisruptionAudit api a = Some (Inr r)"
  obtains e1 pdbs e2 ws e3 nl crs e4 rsd e5 pdbs' where
    "run_group (group_wait api) (first_tasks api) = Some None"
    "listPDBs api = Some (e1, pdbs)" "listAuditWorkloads api = Some (e2, ws)" "listNamespaceLabels api = Some (e3, nl)"
    "map (listKind api) (dataServiceKinds api) = map Some crs"
    "run_group (group_wait api) [Some e4, Some e5] = Some None"
    "listReplicaSetDeployments api (groupByNS pdbs) = Some (e4, rsd)"
    "scanPods api (groupByNS pdbs) pdbs = Some (e5, pdbs')"
    "r = join_audit api (quorum_images a) pdbs' ws nl (map (\<lambda>(r, objs). (r = Inr True, objs)) crs) (groupByNS pdbs) rsd"
  using assms unfolding handleDisruptionAudit_def Let_def first_tasks_def [symmetric]
  by (auto simp: those_Some split: option.splits prod.splits)

lemma audit_cases:
  assumes "wait_ok (group_wait api)"
  shows "(\<exists>r. handleDisruptionAudit api a = Some (Inr r)) \<longleftrightarrow>
     (\<exists>pdbs ws nl crs rsd pdbs'.
        listPDBs api = Some (None, pdbs) \<and> listAuditWorkloads api = Some (None, ws) \<and>
        listNamespaceLabels api = Some (None, nl) \<and> map (listKind api) (dataServiceKinds api) = map Some crs \<and>
        list_all (\<lambda>e. e = None) (map task_error crs) \<and>
        listReplicaSetDeployments api (groupByNS pdbs) = Some (None, rsd) \<and>
        scanPods api (groupByNS pdbs) pdbs = Some (None, pdbs'))" (is "_ \<longleftrightarrow> ?r")
proof
  note g = run_group_None [OF assms]
  assume "\<exists>r. handleDisruptionAudit api a = Some (Inr r)"
  then obtain r where "handleDisruptionAudit api a = Some (Inr r)" ..
  then show ?r
  proof (cases rule: audit_report)
    case (1 e1 pdbs e2 ws e3 nl crs e4 rsd e5 pdbs')
    from 1(1) have "e1 = None" "e2 = None" "e3 = None" "list_all (\<lambda>e. e = None) (map task_error crs)"
      unfolding g first_tasks_def 1(5) by (simp_all add: 1 list_all_iff)
    moreover have "e4 = None" "e5 = None" using 1(6) by (simp_all add: g)
    ultimately show ?thesis using 1 by blast
  qed
next
  note g = run_group_None [OF assms]
  assume ?r
  then obtain pdbs ws nl crs rsd pdbs' where r: "listPDBs api = Some (None, pdbs)"
    "listAuditWorkloads api = Some (None, ws)" "listNamespaceLabels api = Some (None, nl)"
    "map (listKind api) (dataServiceKinds api) = map Some crs" "list_all (\<lambda>e. e = None) (map task_error crs)"
    "listReplicaSetDeployments api (groupByNS pdbs) = Some (None, rsd)"
    "scanPods api (groupByNS pdbs) pdbs = Some (None, pdbs')" by blast
  have "run_group (group_wait api) (first_tasks api) = Some None"
    using r(5) unfolding g first_tasks_def r(4) by (simp add: r(1-3) list_all_iff)
  moreover have "run_group (group_wait api) [Some None, Some None] = Some None" by (simp add: g)
  moreover have "those (map (listKind api) (dataServiceKinds api)) = Some crs" using r(4) by (simp add: those_Some)
  ultimately show "\<exists>r. handleDisruptionAudit api a = Some (Inr r)"
    unfolding handleDisruptionAudit_def Let_def first_tasks_def [symmetric] by (simp add: r(1-3,6,7))
qed

text \<open>A task of the first step that fails makes the audit fail, also when another one would never return.\<close>

lemma audit_reports_failure:
  assumes "wait_ok (group_wait api)" and "Some (Some e) \<in> set (first_tasks api)"
  shows "\<exists>e'. handleDisruptionAudit api a = Some (Inl e') \<and> Some (Some e') \<in> set (first_tasks api)"
  using run_group_fails [OF assms] unfolding handleDisruptionAudit_def Let_def first_tasks_def [symmetric]
  by (auto simp del: run_group_def)

lemma task_error_None: "task_error c = None \<longleftrightarrow> (\<exists>b objs. c = (Inr b, objs))"
  by (cases c) (simp add: task_error_def split: sum.split)

lemma crs_complete:
  "(\<exists>crs. map f ks = map Some crs \<and> list_all (\<lambda>e. e = None) (map task_error crs)) \<longleftrightarrow>
   list_all (\<lambda>k. \<exists>b objs. f k = Some (Inr b, objs)) ks"
proof
  assume "\<exists>crs. map f ks = map Some crs \<and> list_all (\<lambda>e. e = None) (map task_error crs)"
  then obtain crs where m: "map f ks = map Some crs" and n: "\<forall>c \<in> set crs. task_error c = None"
    by (auto simp: list_all_iff)
  have "\<exists>b objs. f k = Some (Inr b, objs)" if "k \<in> set ks" for k
  proof -
    have "f k \<in> Some ` set crs" using m that by (metis image_eqI list.set_map)
    with n show ?thesis by (auto simp: task_error_None)
  qed
  then show "list_all (\<lambda>k. \<exists>b objs. f k = Some (Inr b, objs)) ks" by (simp add: list_all_iff)
next
  assume "list_all (\<lambda>k. \<exists>b objs. f k = Some (Inr b, objs)) ks"
  then have k: "\<forall>k \<in> set ks. f k = Some (the (f k)) \<and> task_error (the (f k)) = None"
    by (fastforce simp: list_all_iff task_error_None)
  then show "\<exists>crs. map f ks = map Some crs \<and> list_all (\<lambda>e. e = None) (map task_error crs)"
    by (intro exI [of _ "map (\<lambda>k. the (f k)) ks"]) (simp add: list_all_iff)
qed

lemma keys_put_all:
  "fst ` set (fold (\<lambda>k m. assoc_put k (f k) m) ks m) = fst ` set m \<union> set ks"
  by (induction ks arbitrary: m) (auto simp: dom_assoc_put)

lemma lookup_put_all:
  "k \<in> set ks \<or> map_of m k = Some (f k) \<Longrightarrow> map_of (fold (\<lambda>k m. assoc_put k (f k) m) ks m) k = Some (f k)"
  by (induction ks arbitrary: m) auto

lemma audit_complete_iff:
  assumes "wait_ok (group_wait api)"
  shows "(\<exists>r. handleDisruptionAudit api a = Some (Inr r)) \<longleftrightarrow> lists_complete api"
proof -
  have rs: "(\<exists>x. listReplicaSetDeployments api byNS = Some (None, x)) \<longleftrightarrow> complete (list_replicasets api)" for byNS
    unfolding listReplicaSetDeployments_def by (rule read_complete)
  have sc: "(\<exists>x. scanPods api byNS pdbs = Some (None, x)) \<longleftrightarrow> complete (list_all_pods api)" for byNS pdbs
    unfolding scanPods_def by (rule read_complete)
  have ns: "(\<exists>x. listNamespaceLabels api = Some (None, x)) \<longleftrightarrow> complete (list_namespaces api)"
    unfolding listNamespaceLabels_def by (rule read_complete)
  have "(\<exists>r. handleDisruptionAudit api a = Some (Inr r)) \<longleftrightarrow>
    (\<exists>pdbs. listPDBs api = Some (None, pdbs) \<and> (\<exists>x. listReplicaSetDeployments api (groupByNS pdbs) = Some (None, x)) \<and>
       (\<exists>x. scanPods api (groupByNS pdbs) pdbs = Some (None, x))) \<and>
    (\<exists>x. listAuditWorkloads api = Some (None, x)) \<and> (\<exists>x. listNamespaceLabels api = Some (None, x)) \<and>
    (\<exists>crs. map (listKind api) (dataServiceKinds api) = map Some crs \<and> list_all (\<lambda>e. e = None) (map task_error crs))"
    unfolding audit_cases [OF assms] by blast
  also have "\<dots> \<longleftrightarrow> lists_complete api"
    unfolding rs sc ns crs_complete lists_complete_def listAuditWorkloads_complete listPDBs_complete [symmetric] by blast
  finally show ?thesis .
qed

subsection \<open>Properties\<close>

text \<open>A small cluster for the witnesses: two PDBs that select the same running pod, no operator installed.\<close>

definition sample_meta :: "string \<Rightarrow> string \<Rightarrow> labels \<Rightarrow> objectMeta" where
  "sample_meta ns name l =
     \<lparr>om_namespace = ns, om_name = name, om_uid = name, om_labels = l, om_annotations = [],
      om_ownerReferences = [], om_deleting = False\<rparr>"

definition sample_pdb :: "string \<Rightarrow> labels option pdbItem" where
  "sample_pdb name =
     \<lparr>pi_meta = sample_meta ''shop'' name [], pi_selector = Some [(''app'', ''db'')], pi_minAvailable = Some (IntVal 1),
      pi_maxUnavailable = None, pi_unhealthyPodEvictionPolicy = None, pi_expectedPods = 1, pi_currentHealthy = 1,
      pi_desiredHealthy = 1, pi_disruptionsAllowed = 0\<rparr>"

definition sample_db_pod :: podItem where
  "sample_db_pod = \<lparr>po_meta = sample_meta ''shop'' ''db-0'' [(''app'', ''db'')], po_phase = ''Running''\<rparr>"

definition one_page :: "'a list \<Rightarrow> ('e, 'a) list_call" where
  "one_page items = (\<lambda>_ _. Inr (items, []))"

definition sample_api :: "(string, labels option) audit_api" where
  "sample_api =
     \<lparr>list_pdbs = one_page [sample_pdb ''a'', sample_pdb ''b''], list_deployments = one_page [],
      list_statefulsets = one_page [], list_namespaces = one_page [sample_meta [] ''shop'' [(labelTeam, ''t1'')]],
      list_replicasets = one_page [], list_all_pods = one_page [sample_db_pod],
      list_custom = (\<lambda>_ _ _. Inl ''absent''), is_not_found = (\<lambda>e. e = Api ''absent''), gvr_string = gvr_resource,
      group_wait = (\<lambda>es. case filter (\<lambda>e. e \<noteq> None) es of [] \<Rightarrow> None | e # _ \<Rightarrow> e),
      controller_of = (\<lambda>m. find or_controller (om_ownerReferences m)),
      as_selector = map_option (\<lambda>l pod. list_all (\<lambda>(k, v). map_of pod k = Some v) l), nothing = (\<lambda>_. False),
      nested_field = (\<lambda>_ _. None), nested_slice = (\<lambda>_ _. []), cr_namespace = (\<lambda>_. []), cr_name = (\<lambda>_. []),
      cr_uid = (\<lambda>_. []), cr_annotations = (\<lambda>_. []), map_order = id\<rparr>"

lemma one_page_served: "served (one_page items) 0 [] items None"
  by (rule last_page) (simp add: one_page_def)

lemma one_page_complete: "complete (one_page items)"
  using one_page_served by (auto simp: complete_def)

lemma sample_wait: "wait_ok (group_wait sample_api)"
  unfolding wait_ok_def
proof (intro allI conjI)
  fix es :: "string goerr option list"
  show "group_wait sample_api es = None \<longleftrightarrow> list_all (\<lambda>e. e = None) es"
    by (induction es) (auto simp: sample_api_def)
  show "group_wait sample_api es = None \<or> group_wait sample_api es \<in> set es"
    by (induction es) (auto simp: sample_api_def split: list.splits)
qed

lemma sample_complete: "lists_complete sample_api"
proof -
  have "listKind sample_api k = Some (Inr False, [])" for k
  proof -
    have "list_all (\<lambda>v. not_served (is_not_found sample_api) (list_custom sample_api (version_gvr (dk_group k) (dk_resource k) v)))
        (dk_versions k)"
      by (simp add: list_all_iff not_served_def sample_api_def)
    from ListCustom_skip_all [where api = "list_custom sample_api" and grp = "dk_group k" and resource = "dk_resource k",
        OF this, of _ "[]"] show ?thesis by (simp add: listKind_def)
  qed
  moreover have "complete (list_pdbs sample_api)" "complete (list_deployments sample_api)"
    "complete (list_statefulsets sample_api)" "complete (list_namespaces sample_api)"
    "complete (list_replicasets sample_api)" "complete (list_all_pods sample_api)"
    by (simp_all add: sample_api_def one_page_complete)
  ultimately show ?thesis unfolding lists_complete_def list_all_iff by blast
qed

lemma sample_audit: "\<exists>r. handleDisruptionAudit sample_api [] = Some (Inr r)"
  using audit_complete_iff [OF sample_wait] sample_complete by blast

text \<open>
  C15. A scan of the pods is exact: once every page was read, each PDB has recorded the controller
  of every pod it selects and nothing else, and the name of another PDB exactly when some placed pod
  that is not being deleted is selected by both; nothing else of a PDB has changed.
\<close>

theorem scan_pods_exact:
  assumes "served (list_all_pods api) 0 [] pods None" and "list_all (\<lambda>p. ap_owners p = [] \<and> ap_overlaps p = []) pdbs"
    and "i < length pdbs"
  shows "\<exists>pdbs'. scanPods api (groupByNS pdbs) pdbs = Some (None, pdbs') \<and> length pdbs' = length pdbs \<and>
    statics (pdbs' ! i) = pdbs ! i \<and>
    set (ap_owners (pdbs' ! i)) = pod_ref api ` {pod \<in> set pods. selects pdbs i pod} \<and>
    set (ap_overlaps (pdbs' ! i)) = (\<Union>pod \<in> set pods. others pdbs i pod)"
proof -
  have p: "ap_owners (pdbs ! i) = []" "ap_overlaps (pdbs ! i) = []" using assms(2,3) by (simp_all add: list_all_length)
  then have "statics (pdbs ! i) = pdbs ! i" by (simp add: statics_def)
  with p pod_steps_obs [of pdbs pdbs i api pods] assms(3) show ?thesis
    using pages.reads [OF assms(1), of "listing ''pods''" "pod_step api (groupByNS pdbs)" pdbs]
    by (simp add: scanPods_def same_statics_def)
qed

theorem scan_pods_exact_witness:
  "\<exists>pdbs'. scanPods sample_api (groupByNS [newAuditPDB sample_api (sample_pdb ''a''), newAuditPDB sample_api (sample_pdb ''b'')])
       [newAuditPDB sample_api (sample_pdb ''a''), newAuditPDB sample_api (sample_pdb ''b'')] = Some (None, pdbs') \<and>
     ''b'' \<in> set (ap_overlaps (pdbs' ! 0))"
proof -
  let ?pdbs = "[newAuditPDB sample_api (sample_pdb ''a''), newAuditPDB sample_api (sample_pdb ''b'')]"
  have sv: "served (list_all_pods sample_api) 0 [] [sample_db_pod] None"
    by (simp add: sample_api_def one_page_served)
  have fr: "list_all (\<lambda>p. ap_owners p = [] \<and> ap_overlaps p = []) ?pdbs" by (simp add: newAuditPDB_def)
  have sel: "selects ?pdbs q sample_db_pod" if "q < 2" for q
    using that by (auto simp: less_2_cases_iff selects_def newAuditPDB_def sample_pdb_def sample_db_pod_def sample_api_def sample_meta_def)
  have "''b'' = ap_Name (?pdbs ! 1)" by (simp add: newAuditPDB_def sample_pdb_def sample_meta_def)
  then have "''b'' \<in> others ?pdbs 0 sample_db_pod"
    using sel [of 0] sel [of 1] unfolding others_def
    by (auto simp: can_block_def sample_db_pod_def sample_meta_def intro!: exI [of _ 1])
  moreover have "0 < length ?pdbs" by simp
  note scan_pods_exact [OF sv fr this]
  ultimately show ?thesis by auto
qed

text \<open>
  C34. The owners of a PDB are one entry per owner its references resolve to, sorted by kind and name, whatever the order the
  code visits its map in; for two orders the reports agree in everything but the API version of an owner
  that is not a listed workload, which is that of one of the references to it.
\<close>

theorem owners_order_independent:
  assumes "plain_refs rsd ns refs" and "plain_workloads ws" and "set refs' = set refs"
  shows "map without_version (resolveOwners refs' rsd (workloadIndex ws)) =
      map without_version (resolveOwners refs rsd (workloadIndex ws)) \<and>
    map owner_key (resolveOwners refs rsd (workloadIndex ws)) = sorted_list_of_set (resolve_ref rsd ` set refs) \<and>
    set (resolveOwners refs rsd (workloadIndex ws)) \<subseteq> owner_for rsd (workloadIndex ws) ` set refs"
proof -
  let ?o = "\<lambda>refs. resolveOwners refs rsd (workloadIndex ws)"
  have p: "plain_refs rsd ns refs'" using assms(1,3) by (simp add: plain_refs_def list_all_iff)
  have k: "map owner_key (?o refs') = map owner_key (?o refs)"
    unfolding resolved_owners(1) [OF p assms(2)] resolved_owners(1) [OF assms(1,2)] assms(3) ..
  then have l: "length (?o refs') = length (?o refs)" by (metis length_map)
  have "map without_version (?o refs') = map without_version (?o refs)"
  proof (rule nth_equalityI)
    fix i assume "i < length (map without_version (?o refs'))"
    then have i: "i < length (?o refs')" "i < length (?o refs)" using l by simp_all
    obtain r r' where "r \<in> set refs" "?o refs ! i = owner_for rsd (workloadIndex ws) r"
      "r' \<in> set refs" "?o refs' ! i = owner_for rsd (workloadIndex ws) r'" "resolve_ref rsd r' = resolve_ref rsd r"
      using resolved_nth [OF assms(1,2) i(2)] resolved_nth [OF p assms(2) i(1)] assms(3) by metis
    moreover have "ow_ns r' = ow_ns r" if "r \<in> set refs" "r' \<in> set refs" for r r'
      using assms(1) that by (simp add: plain_refs_def list_all_iff)
    ultimately show "map without_version (?o refs') ! i = map without_version (?o refs) ! i"
      using owner_for_same i by (metis nth_map)
  qed (simp add: l)
  with resolved_owners [OF assms(1,2)] show ?thesis by blast
qed

definition sample_refs :: "ownerRef list" where
  "sample_refs =
     [\<lparr>ow_ns = ''shop'', ow_kind = ''ReplicaSet'', ow_name = ''web-1'', ow_apiVersion = ''apps/v1''\<rparr>,
      \<lparr>ow_ns = ''shop'', ow_kind = ''Database'', ow_name = ''db'', ow_apiVersion = ''one.example/v1''\<rparr>,
      \<lparr>ow_ns = ''shop'', ow_kind = ''Database'', ow_name = ''db'', ow_apiVersion = ''two.example/v1''\<rparr>]"

theorem owners_order_independent_witness:
  "map without_version (resolveOwners (rev sample_refs) [''shop/web-1'' \<mapsto> ''web''] (workloadIndex [])) =
   map without_version (resolveOwners sample_refs [''shop/web-1'' \<mapsto> ''web''] (workloadIndex []))"
proof -
  have "plain_refs [''shop/web-1'' \<mapsto> ''web''] ''shop'' sample_refs" "plain_workloads []"
    by (simp_all add: plain_refs_def plain_workloads_def sample_refs_def resolve_ref_def no_slash_def)
  from owners_order_independent [OF this, of "rev sample_refs"] show ?thesis by simp
qed

text \<open>
  C21. The API version of an owner may depend on the order a Go map is visited in: of two references
  to the same kind and name in different API groups, to no listed workload, the report shows the one that is visited first,
  and that order is not fixed.
\<close>

theorem owner_version_by_visit_order:
  assumes "rsd (ns @ ''/'' @ name) = None" and "wl (kind @ ''/'' @ ns @ ''/'' @ name) = None"
  shows "map ao_APIVersion (resolveOwners
      [\<lparr>ow_ns = ns, ow_kind = kind, ow_name = name, ow_apiVersion = v\<rparr>,
       \<lparr>ow_ns = ns, ow_kind = kind, ow_name = name, ow_apiVersion = v'\<rparr>] rsd wl) = [v] \<and>
    map ao_APIVersion (resolveOwners
      [\<lparr>ow_ns = ns, ow_kind = kind, ow_name = name, ow_apiVersion = v'\<rparr>,
       \<lparr>ow_ns = ns, ow_kind = kind, ow_name = name, ow_apiVersion = v\<rparr>] rsd wl) = [v']"
  using assms by (cases "kind = ''ReplicaSet''") (simp_all add: resolveOwners_def resolve_ref_def sort_slice_def Let_def)

theorem owner_version_by_visit_order_witness:
  "map ao_APIVersion (resolveOwners (tl sample_refs) Map.empty Map.empty) \<noteq>
   map ao_APIVersion (resolveOwners (rev (tl sample_refs)) Map.empty Map.empty)"
  using owner_version_by_visit_order [of Map.empty "''shop''" "''db''" Map.empty "''Database''" "''one.example/v1''" "''two.example/v1''"]
  by (simp add: sample_refs_def)

text \<open>
  The engine of a workload is the longest keyword: it occurs in the name of one of the images
  that is not an exporter, no longer keyword does, and it is empty only when no keyword occurs.
\<close>

theorem detect_engine_longest:
  "(detectEngine images kws = [] \<or> engine_candidate images kws (detectEngine images kws)) \<and>
   (\<forall>kw. engine_candidate images kws kw \<longrightarrow> length kw \<le> length (detectEngine images kws))"
  using detectEngine_fold [of kws images "[]"] unfolding detectEngine_def by blast

theorem detect_engine_longest_witness:
  "length ''redis-sentinel'' \<le> length (detectEngine [''reg:5000/bitnami/Redis-Sentinel:7.2''] (cacheEngines @ defaultQuorumImages))"
proof -
  have "engine_candidate [''reg:5000/bitnami/Redis-Sentinel:7.2''] (cacheEngines @ defaultQuorumImages) ''redis-sentinel''"
    by code_simp
  with detect_engine_longest [of "[''reg:5000/bitnami/Redis-Sentinel:7.2'']" "cacheEngines @ defaultQuorumImages"]
  show ?thesis by blast
qed

text \<open>
  The name of an image is what is between the last slash of its path and the tag, in lower
  case: a registry with a port, a tag and a digest are all dropped.
\<close>

theorem image_name_of_reference:
  assumes "CHR ''@'' \<notin> set (repo @ name @ tag)" and "CHR ''/'' \<notin> set (name @ tag)" and "CHR '':'' \<notin> set name"
  shows "imageName (repo @ ''/'' @ name @ '':'' @ tag @ ''@'' @ digest) = to_lower name"
proof -
  have c: "cut (repo @ ''/'' @ name @ '':'' @ tag @ ''@'' @ digest) (CHR ''@'') = (repo @ ''/'' @ name @ '':'' @ tag, digest, True)"
    using cut_append [of "CHR ''@''" "repo @ ''/'' @ name @ '':'' @ tag" digest] assms(1) by simp
  have "CHR ''/'' \<notin> set (name @ '':'' @ tag)" using assms(2) by simp
  then have l: "last_index (repo @ CHR ''/'' # name @ '':'' @ tag) (CHR ''/'') = int (length repo)"
  proof (induction repo)
    case Nil
    then show ?case using last_index_neg [of "name @ '':'' @ tag" "CHR ''/''"] by (simp add: Let_def)
  qed (simp add: Let_def)
  have "nat (int (length repo) + 1) = Suc (length repo)" by simp
  with c l assms(3) show ?thesis by (simp add: imageName_def Let_def)
qed

theorem image_name_of_reference_witness: "imageName ''reg:5000/bitnami/redis:7.2@sha256:ab'' = ''redis''"
proof -
  have "imageName (''reg:5000/bitnami'' @ ''/'' @ ''redis'' @ '':'' @ ''7.2'' @ ''@'' @ ''sha256:ab'') = to_lower ''redis''"
    by (rule image_name_of_reference) simp_all
  moreover have "to_lower ''redis'' = ''redis''" by code_simp
  ultimately show ?thesis by simp
qed

text \<open>
  A read replica is reported on its own master only: where a workload found by image shows read
  replicas, it is the master StatefulSet of a Bitnami release, the replica is a StatefulSet of the same
  namespace and release, neither has a controller, and the replica is no instance of its own.
\<close>

theorem bitnami_replicas_paired:
  assumes "map_of (bitnamiReplicas ws) k = Some i"
  shows "k < length ws \<and> i < length ws \<and> release (ws ! k) = release (ws ! i) \<and> release (ws ! i) \<noteq> [] \<and>
    wl_kind (ws ! k) = ''StatefulSet'' \<and> wl_kind (ws ! i) = ''StatefulSet'' \<and>
    wl_controller (ws ! k) = None \<and> wl_controller (ws ! i) = None \<and>
    label (wl_labels (ws ! k)) labelComponent = ''master'' \<and>
    label (wl_labels (ws ! i)) labelComponent = ''replica'' \<and>
    image_instance ws pdbs byNS quorumImages i = None"
proof -
  have m: "(k, i) \<in> set (bitnamiReplicas ws)" using assms by (rule map_of_SomeD)
  note r = bitnamiReplicas_sound [OF m]
  then have b: "bitnamiMasters ws (release (ws ! i)) = Some k" by blast
  note k = bitnamiMasters_sound [OF b]
  have "i \<in> snd ` set (bitnamiReplicas ws)" using m by force
  then have "image_instance ws pdbs byNS quorumImages i = None" by (simp add: image_instance_def)
  moreover have "release w \<noteq> [] \<Longrightarrow> wl_kind w = ''StatefulSet'' \<and> wl_controller w = None" for w
    by (auto simp: release_def split: if_splits)
  ultimately show ?thesis using r k by metis
qed

definition sample_release :: "string \<Rightarrow> string \<Rightarrow> workload" where
  "sample_release name component =
     \<lparr>wl_kind = ''StatefulSet'', wl_ns = ''shop'', wl_name = name, wl_replicas = 2, wl_images = [''redis:7''],
      wl_labels = [(labelAppName, ''redis''), (labelInstance, ''cache''), (labelComponent, component)],
      wl_template = [], wl_controller = None, wl_ignore = []\<rparr>"

theorem bitnami_replicas_paired_witness:
  "image_instance [sample_release ''m'' ''master'', sample_release ''r'' ''replica''] [] Map.empty [] 1 = None"
proof -
  have "map_of (bitnamiReplicas [sample_release ''m'' ''master'', sample_release ''r'' ''replica'']) 0 = Some 1"
    by code_simp
  from bitnami_replicas_paired [OF this] show ?thesis by blast
qed

text \<open>
  C33. A report is all or nothing: the audit returns one exactly when every list it needs was read
  to its end - the PDBs, workloads, namespaces, ReplicaSets and pods, and each data service kind
  either listed or not installed.
\<close>

theorem audit_needs_complete_lists:
  assumes "wait_ok (group_wait api)"
  shows "(\<exists>r. handleDisruptionAudit api a = Some (Inr r)) \<longleftrightarrow> lists_complete api"
  by (rule audit_complete_iff [OF assms])

theorem audit_needs_complete_lists_witness:
  "(\<exists>r. handleDisruptionAudit sample_api [] = Some (Inr r)) \<longleftrightarrow> lists_complete sample_api"
  by (rule audit_needs_complete_lists [OF sample_wait])

text \<open>
  C35. The report is complete and ordered: its instances are sorted by namespace, name and kind, and
  it has an entry for every namespace a PDB or an instance mentions and for no other, made from the
  labels that were listed for it.
\<close>

theorem audit_report_namespaces:
  assumes "handleDisruptionAudit api a = Some (Inr r)"
  shows "sorted (map (\<lambda>i. (ai_Namespace i, ai_Name i, ai_Kind i)) (ar_instances r)) \<and>
    fst ` set (ar_namespaces r) = ap_Namespace ` set (ar_pdbs r) \<union> ai_Namespace ` set (ar_instances r) \<and>
    (\<exists>e nsLabels. listNamespaceLabels api = Some (e, nsLabels) \<and>
       list_all (\<lambda>ns. map_of (ar_namespaces r) ns =
           Some (newNSOwner (case nsLabels ns of Some l \<Rightarrow> l | None \<Rightarrow> [])))
         (map ap_Namespace (ar_pdbs r) @ map ai_Namespace (ar_instances r)))"
proof -
  obtain e3 nl q pdbs' ws crs byNS rsd where n: "listNamespaceLabels api = Some (e3, nl)"
    and r: "r = join_audit api q pdbs' ws nl crs byNS rsd"
    using assms by (cases rule: audit_report) blast
  have ns: "ar_namespaces r = namespace_entries (ar_pdbs r) (ar_instances r) nl"
    by (simp add: r join_audit_def Let_def)
  have "sorted (map (\<lambda>i. (ai_Namespace i, ai_Name i, ai_Kind i)) (ar_instances r))"
    by (simp add: r join_audit_def Let_def)
  moreover have "fst ` set (ar_namespaces r) = ap_Namespace ` set (ar_pdbs r) \<union> ai_Namespace ` set (ar_instances r)"
    unfolding ns namespace_entries_def
    by (subst keys_put_all [where f = "\<lambda>ns. newNSOwner (case nl ns of Some l \<Rightarrow> l | None \<Rightarrow> [])"]) auto
  moreover have "map_of (ar_namespaces r) k = Some (newNSOwner (case nl k of Some l \<Rightarrow> l | None \<Rightarrow> []))"
    if "k \<in> set (map ap_Namespace (ar_pdbs r) @ map ai_Namespace (ar_instances r))" for k
    unfolding ns namespace_entries_def
    by (rule lookup_put_all [where f = "\<lambda>ns. newNSOwner (case nl ns of Some l \<Rightarrow> l | None \<Rightarrow> [])"]) (use that in blast)
  ultimately show ?thesis using n unfolding list_all_iff by blast
qed

theorem audit_report_namespaces_witness:
  "\<exists>r. handleDisruptionAudit sample_api [] = Some (Inr r) \<and>
     fst ` set (ar_namespaces r) = ap_Namespace ` set (ar_pdbs r) \<union> ai_Namespace ` set (ar_instances r)"
proof -
  obtain r where h: "handleDisruptionAudit sample_api [] = Some (Inr r)" using sample_audit by blast
  from h audit_report_namespaces [OF h] show ?thesis by blast
qed

end
