(* ===== verification/Go_Float.thy ===== *)
theory Go_Float
  imports Go_Time Go_Values "HOL-Library.Log_Nat"
begin

text \<open>
  The float64 arithmetic of \<open>Duration.Hours\<close>, \<open>Minutes\<close> and \<open>Seconds\<close>: a finite float64 is
  the rational it denotes, an operation is the exact one followed by rounding to nearest, ties to
  even (values near the overflow threshold do not occur). The lemmas bound the rounding: the whole
  part of the hours of a duration is exact except in the last microsecond before the next hour.
\<close>

definition pow2 :: "int \<Rightarrow> rat" where
  "pow2 e = (if e \<ge> 0 then 2 ^ nat e else 1 / 2 ^ nat (- e))"

text \<open>The exponent of a positive rational: the greatest power of two that is at most the number.\<close>

definition exponent :: "rat \<Rightarrow> int" where
  "exponent x =
     (if x \<ge> 1 then int (floorlog 2 (nat \<lfloor>x\<rfloor>)) - 1 else - int (floorlog 2 (nat \<lceil>1 / x\<rceil> - 1)))"

definition half_even :: "rat \<Rightarrow> int" where
  "half_even q =
     (let i = \<lfloor>q\<rfloor>; r = q - of_int i in
      if r < 1 / 2 then i else if r > 1 / 2 then i + 1 else if even i then i else i + 1)"

definition round_pos :: "rat \<Rightarrow> rat" where
  "round_pos x = (let e = max (exponent x - 52) (- 1074) in of_int (half_even (x / pow2 e)) * pow2 e)"

definition float64 :: "rat \<Rightarrow> rat" where
  "float64 x = (if x = 0 then 0 else if x < 0 then - round_pos (- x) else round_pos x)"

definition go_quot :: "int \<Rightarrow> int \<Rightarrow> int" where
  "go_quot a b = (if a < 0 then - ((- a) div b) else a div b)"

text \<open>A duration in a unit: the whole units plus the rest, each step rounded.\<close>

definition in_units :: "duration \<Rightarrow> duration \<Rightarrow> rat" where
  "in_units u d =
     (let q = go_quot d u; r = d - q * u
      in float64 (float64 (of_int q) + float64 (float64 (of_int r) / of_int u)))"

definition hour :: duration where
  "hour = 60 * minute"

definition Hours :: "duration \<Rightarrow> rat" where "Hours d = in_units hour d"
definition Minutes :: "duration \<Rightarrow> rat" where "Minutes d = in_units minute d"
definition Seconds :: "duration \<Rightarrow> rat" where "Seconds d = in_units second d"

text \<open>\<open>Time.Sub\<close>, \<open>time.Since\<close> and \<open>time.Until\<close> saturate at the ends of the 64-bit range.\<close>

definition time_sub :: "instant \<Rightarrow> instant \<Rightarrow> duration" where
  "time_sub t u = max (- (2 ^ 63)) (min (2 ^ 63 - 1) (t - u))"

subsection \<open>Rounding\<close>

lemma pow2_pos [simp]: "0 < pow2 e"
  by (simp add: pow2_def)

lemma pow2_nz [simp]: "pow2 e \<noteq> 0"
  using pow2_pos [of e] by linarith

lemma pow2_mono: "e \<le> f \<Longrightarrow> pow2 e \<le> pow2 f"
proof -
  assume "e \<le> f"
  consider "0 \<le> e" | "e < 0" "0 \<le> f" | "f < 0" using \<open>e \<le> f\<close> by linarith
  then show ?thesis
  proof cases
    case 1
    with \<open>e \<le> f\<close> show ?thesis by (simp add: pow2_def)
  next
    case 2
    have "1 / 2 ^ nat (- e) \<le> (1 :: rat)" by simp
    also have "\<dots> \<le> 2 ^ nat f" by simp
    finally show ?thesis using 2 by (simp add: pow2_def)
  next
    case 3
    with \<open>e \<le> f\<close> have "(2 :: rat) ^ nat (- f) \<le> 2 ^ nat (- e)" by (intro power_increasing) simp_all
    with 3 \<open>e \<le> f\<close> show ?thesis by (simp add: pow2_def frac_le)
  qed
qed

lemma pow2_whole: "e \<le> 0 \<Longrightarrow> of_int n / pow2 e = of_int (n * 2 ^ nat (- e))"
  by (cases "e = 0") (simp_all add: pow2_def)

lemma half_even_error: "\<bar>of_int (half_even q) - q\<bar> \<le> 1 / 2"
proof -
  have "of_int \<lfloor>q\<rfloor> \<le> q" "q < of_int \<lfloor>q\<rfloor> + 1" by linarith+
  then show ?thesis unfolding half_even_def Let_def by (auto simp: abs_le_iff)
qed

lemma half_even_int_le: "of_int n \<le> q \<Longrightarrow> n \<le> half_even q"
  by (simp add: half_even_def Let_def le_floor_iff) linarith

lemma half_even_of_int [simp]: "half_even (of_int n) = n"
  by (simp add: half_even_def)

lemma exponent_less:
  assumes "x < 2 ^ k" "0 < x" "0 < k"
  shows "exponent x < int k"
proof (cases "x \<ge> 1")
  case True
  from assms(1) have "\<lfloor>x\<rfloor> < 2 ^ k" by (simp add: floor_less_iff)
  with True have "nat \<lfloor>x\<rfloor> < 2 ^ k" "nat \<lfloor>x\<rfloor> > 0" by (simp_all add: nat_less_iff)
  then have "floorlog 2 (nat \<lfloor>x\<rfloor>) \<le> k" by (simp add: floorlog_leI)
  with True show ?thesis by (simp add: exponent_def)
next
  case False
  then have "exponent x \<le> 0" by (simp add: exponent_def)
  with assms(3) show ?thesis by linarith
qed

lemma round_pos_ge_int:
  assumes "of_int n \<le> x" "0 < x" "x < 2 ^ 53"
  shows "of_int n \<le> round_pos x"
proof -
  define e where "e = max (exponent x - 52) (- 1074)"
  have "e \<le> 0" using exponent_less [OF assms(3,2)] by (simp add: e_def)
  have "of_int (n * 2 ^ nat (- e)) \<le> x / pow2 e"
    unfolding pow2_whole [OF \<open>e \<le> 0\<close>, symmetric]
    by (rule divide_right_mono [OF assms(1)]) (simp add: less_imp_le)
  from half_even_int_le [OF this] have "of_int (n * 2 ^ nat (- e)) \<le> (of_int (half_even (x / pow2 e)) :: rat)"
    by (simp only: of_int_le_iff)
  then have "of_int n / pow2 e \<le> of_int (half_even (x / pow2 e))"
    by (simp only: pow2_whole [OF \<open>e \<le> 0\<close>])
  then show ?thesis by (simp add: round_pos_def Let_def e_def [symmetric] pos_divide_le_eq)
qed

lemma round_pos_error:
  assumes "x < 2 ^ k" "0 < x" "0 < k"
  shows "\<bar>round_pos x - x\<bar> \<le> pow2 (int k - 53) / 2"
proof -
  define e where "e = max (exponent x - 52) (- 1074)"
  have "e \<le> int k - 53" using exponent_less [OF assms] assms(3) by (simp add: e_def)
  have "\<bar>round_pos x - x\<bar> = \<bar>of_int (half_even (x / pow2 e)) - x / pow2 e\<bar> * pow2 e"
  proof -
    have "round_pos x - x = (of_int (half_even (x / pow2 e)) - x / pow2 e) * pow2 e"
      by (simp add: round_pos_def Let_def e_def [symmetric] left_diff_distrib)
    then show ?thesis by (simp add: abs_mult less_imp_le)
  qed
  also have "\<dots> \<le> 1 / 2 * pow2 e"
    by (rule mult_right_mono [OF half_even_error]) (simp add: less_imp_le)
  finally show ?thesis using pow2_mono [OF \<open>e \<le> int k - 53\<close>] by simp
qed

lemma float64_pos: "0 < x \<Longrightarrow> float64 x = round_pos x"
  by (simp add: float64_def)

lemma float64_nonneg_int:
  assumes "0 \<le> n" "n < 2 ^ 53"
  shows "float64 (of_int n) = of_int n"
proof (cases "n = 0")
  case False
  with assms have p: "0 < (of_int n :: rat)" "(of_int n :: rat) < 2 ^ 53"
    by (simp_all flip: of_int_power_less_of_int_cancel_iff)
  define e where "e = max (exponent (of_int n) - 52) (- 1074)"
  have "e \<le> 0" using exponent_less [OF p(2,1)] by (simp add: e_def)
  have "round_pos (of_int n) = of_int (n * 2 ^ nat (- e)) * pow2 e"
    unfolding round_pos_def Let_def e_def [symmetric] pow2_whole [OF \<open>e \<le> 0\<close>] half_even_of_int ..
  also have "\<dots> = of_int n"
    unfolding pow2_whole [OF \<open>e \<le> 0\<close>, symmetric] by simp
  finally show ?thesis by (simp add: float64_pos [OF p(1)])
qed (simp add: float64_def)

lemma in_units_split:
  fixes u d :: int
  defines "f \<equiv> float64 (of_int (d mod u) / of_int u)"
  assumes "0 < u" "u \<le> hour" "0 \<le> d" "d div u < 2 ^ 52"
  shows "in_units u d = float64 (of_int (d div u) + f)" and "0 \<le> f"
    and "\<bar>f - of_int (d mod u) / of_int u\<bar> \<le> 1 / 2 ^ 53"
proof -
  define q r where "q = d div u" and "r = d mod u"
  have q: "0 \<le> q" "q < 2 ^ 52" using assms(2,4,5) by (simp_all add: q_def pos_imp_zdiv_nonneg_iff)
  have r: "0 \<le> r" "r < u" using assms(2) by (simp_all add: r_def)
  have h: "hour = 3600000000000" by (simp add: hour_def minute_def second_def)
  have fq: "float64 (of_int q) = of_int q" using q by (intro float64_nonneg_int) simp_all
  have fr: "float64 (of_int r) = of_int r" using r assms(3) h by (intro float64_nonneg_int) simp_all
  have "go_quot d u = q" using assms(4) by (simp add: go_quot_def q_def)
  moreover have "d - q * u = r" by (simp add: q_def r_def minus_div_mult_eq_mod)
  ultimately show "in_units u d = float64 (of_int (d div u) + f)"
    by (simp only: in_units_def Let_def fq fr f_def q_def [symmetric] r_def [symmetric])
  have "0 \<le> f \<and> \<bar>f - of_int r / of_int u\<bar> \<le> 1 / 2 ^ 53"
  proof (cases "r = 0")
    case False
    with r have p: "0 < (of_int r / of_int u :: rat)" using assms(2) by simp
    have "of_int r / of_int u < (1 :: rat)" using r assms(2) by (simp add: divide_less_eq)
    then have lt: "of_int r / of_int u < (2 :: rat) ^ 1" by simp
    then have "of_int r / of_int u < (2 :: rat) ^ 53" by simp
    from round_pos_ge_int [OF _ p this, of 0] p have "0 \<le> f" by (simp add: f_def r_def [symmetric] float64_pos)
    moreover have "\<bar>f - of_int r / of_int u\<bar> \<le> 1 / 2 ^ 53"
      using round_pos_error [OF lt p] by (simp add: f_def r_def [symmetric] float64_pos [OF p] pow2_def)
    ultimately show ?thesis ..
  qed (simp add: f_def r_def [symmetric] float64_def)
  then show "0 \<le> f" and "\<bar>f - of_int (d mod u) / of_int u\<bar> \<le> 1 / 2 ^ 53" by (simp_all add: r_def)
qed

lemma in_units_ge:
  assumes "0 < u" "u \<le> hour" "0 \<le> d" "d div u < 2 ^ 52"
  shows "of_int (d div u) \<le> in_units u d" and "in_units u d \<le> of_int (d div u) + 3"
proof -
  define f where "f = (float64 (of_int (d mod u) / of_int u) :: rat)"
  note sp = in_units_split [OF assms, folded f_def]
  have "of_int (d mod u) / of_int u < (1 :: rat)" using assms(1) by (simp add: divide_less_eq)
  moreover have "(1 / 2 ^ 53 :: rat) \<le> 1" by simp
  ultimately have f2: "f \<le> 2" using sp(3) unfolding abs_le_iff by linarith
  define s where "s = of_int (d div u) + f"
  have "0 \<le> d div u" using assms(1,3) by (simp add: pos_imp_zdiv_nonneg_iff)
  then have q: "(0 :: rat) \<le> of_int (d div u)" by simp
  have "d div u \<le> 2 ^ 52 - 1" using assms(4) by simp
  then have "(of_int (d div u) :: rat) \<le> of_int (2 ^ 52 - 1)" by (simp only: of_int_le_iff)
  with f2 have lt: "s < 2 ^ 53" by (simp add: s_def)
  have ge: "of_int (d div u) \<le> s" using sp(2) by (simp add: s_def)
  have "of_int (d div u) \<le> float64 s \<and> float64 s \<le> of_int (d div u) + 3"
  proof (cases "s = 0")
    case True
    with ge q show ?thesis by (simp add: float64_def)
  next
    case False
    with ge q have p: "0 < s" by linarith
    have "\<bar>round_pos s - s\<bar> \<le> 1" using round_pos_error [OF lt p] by (simp add: pow2_def)
    with f2 have "round_pos s \<le> of_int (d div u) + 3" by (simp add: s_def)
    with round_pos_ge_int [OF ge p lt] show ?thesis by (simp add: float64_pos [OF p])
  qed
  with sp(1) show "of_int (d div u) \<le> in_units u d" "in_units u d \<le> of_int (d div u) + 3"
    by (simp_all add: s_def)
qed

text \<open>
  The whole units of a duration: what the program prints is exact unless the duration is within a
  2.4e-10th of a unit of the next whole one (for hours less than a microsecond).
\<close>

lemma in_units_whole:
  assumes "0 < u" "u \<le> hour" "0 \<le> d" "d div u < 2 ^ 22" "(d mod u) * 2 ^ 31 \<le> u * (2 ^ 31 - 1)"
  shows "\<lfloor>in_units u d\<rfloor> = d div u"
proof -
  define q r where "q = d div u" and "r = d mod u"
  have q: "0 \<le> q" "q < 2 ^ 22" using assms(1,3,4) by (simp_all add: q_def pos_imp_zdiv_nonneg_iff)
  define f where "f = (float64 (of_int r / of_int u) :: rat)"
  have "d div u < 2 ^ 52" using assms(4) by simp
  note sp = in_units_split [OF assms(1-3) this, folded r_def, folded f_def q_def]
  have "of_int r / of_int u \<le> (1 - 1 / 2 ^ 31 :: rat)"
  proof -
    have "(of_int (r * 2 ^ 31) :: rat) \<le> of_int (u * (2 ^ 31 - 1))"
      using assms(5) unfolding r_def of_int_le_iff .
    then show ?thesis using assms(1) by (simp add: field_simps)
  qed
  with sp(3) have f: "0 \<le> f" "f \<le> 1 - 1 / 2 ^ 31 + 1 / 2 ^ 53" using sp(2) unfolding abs_le_iff by linarith+
  define s where "s = of_int q + f"
  have s: "of_int q \<le> s" "s \<le> of_int q + (1 - 1 / 2 ^ 31 + 1 / 2 ^ 53)" using f by (simp_all add: s_def)
  have "q \<le> 2 ^ 22 - 1" using q by simp
  then have "(of_int q :: rat) \<le> of_int (2 ^ 22 - 1)" by (simp only: of_int_le_iff)
  with s have lt: "s < 2 ^ 22" by simp
  show ?thesis
  proof (cases "s = 0")
    case False
    have "(0 :: rat) \<le> of_int q" using q by simp
    with s(1) False have p: "0 < s" by linarith
    have up: "\<bar>round_pos s - s\<bar> \<le> 1 / 2 ^ 32" using round_pos_error [OF lt p] by (simp add: pow2_def)
    have "(1 / 2 ^ 32 + (1 - 1 / 2 ^ 31 + 1 / 2 ^ 53) :: rat) < 1" by simp
    with up s(2) have "round_pos s < of_int q + 1" by linarith
    moreover have "of_int q \<le> round_pos s" using round_pos_ge_int [OF s(1) p] lt by simp
    ultimately have "\<lfloor>round_pos s\<rfloor> = q" by (simp add: floor_eq_iff)
    moreover have "in_units u d = round_pos s"
      unfolding sp(1) s_def [symmetric] by (rule float64_pos [OF p])
    ultimately show ?thesis by (simp add: q_def)
  next
    case True
    with s(1) q have "q = 0" by simp
    moreover have "in_units u d = float64 s" unfolding sp(1) s_def [symmetric] ..
    ultimately show ?thesis using True by (simp add: float64_def q_def)
  qed
qed

text \<open>
  \<open>int64(d.Seconds())\<close> and \<open>int32(d.Seconds())\<close>, the whole seconds of a duration; out of the range
  of the type the amd64 conversion gives its least integer.
\<close>

definition whole_seconds :: "duration \<Rightarrow> int" where
  "whole_seconds d = int_of_float (Seconds d)"

definition whole_seconds32 :: "duration \<Rightarrow> int" where
  "whole_seconds32 d = (let i = whole_seconds d in if - (2 ^ 31) \<le> i \<and> i < 2 ^ 31 then i else - (2 ^ 31))"

lemma whole_seconds_floor:
  assumes "0 \<le> d" "d < 2 ^ 63"
  shows "whole_seconds d = \<lfloor>Seconds d\<rfloor>" and "d div second \<le> whole_seconds d"
proof -
  have h: "0 < second" "second \<le> hour" by (simp_all add: hour_def minute_def second_def)
  have "d div second < 2 ^ 52" using assms(2) by (simp add: second_def div_less_iff_less_mult)
  note b = in_units_ge [OF h assms(1) this, folded Seconds_def]
  have q: "0 \<le> d div second" using assms(1) by (simp add: second_def pos_imp_zdiv_nonneg_iff)
  have "d div second \<le> 2 ^ 52" using assms(2) by (simp add: second_def)
  then have "(of_int (d div second) :: rat) \<le> of_int (2 ^ 52)" by (simp only: of_int_le_iff)
  with b(2) have "Seconds d < 2 ^ 63" by simp
  moreover have "(0 :: rat) \<le> of_int (d div second)" using q by simp
  with b(1) have "0 \<le> Seconds d" by linarith
  ultimately show w: "whole_seconds d = \<lfloor>Seconds d\<rfloor>"
    by (simp add: whole_seconds_def int_of_float_def Let_def floor_less_iff not_less [symmetric])
  show "d div second \<le> whole_seconds d" unfolding w using b(1) by (simp add: le_floor_iff)
qed

text \<open>Below 48 days the result is the exact number of whole seconds.\<close>

lemma whole_seconds_exact:
  assumes "0 \<le> d" "d < 2 ^ 22 * second"
  shows "whole_seconds d = d div second"
proof -
  have lt: "d div second < 2 ^ 22" using assms(2) by (simp add: second_def div_less_iff_less_mult)
  have "d mod second < second" by (simp add: second_def)
  then have "(d mod second) * 2 ^ 31 \<le> second * (2 ^ 31 - 1)" by (simp add: second_def)
  from in_units_whole [OF _ _ assms(1) lt this] have "\<lfloor>Seconds d\<rfloor> = d div second"
    by (simp add: Seconds_def hour_def minute_def second_def)
  moreover have "d < 2 ^ 63" using assms(2) by (simp add: second_def)
  ultimately show ?thesis using whole_seconds_floor(1) [OF assms(1)] by simp
qed

end
