(* ===== verification/Debug_Pod.thy ===== *)
theory Debug_Pod
  imports Kube_Api Go_Float
begin

text \<open>
  Debug pods, \<open>src/internal/debugpod/debugpod.go\<close>: the group cache, the caller's identity, the
  Job, waiting for its pod, running commands in it and the bounded output buffer.

  The cluster is not part of the program. Every request to it is an element of a trace, and what
  the cluster answers (also the clock and whether a context has expired) is a field of the record
  \<open>outside\<close>, a function of the trace so far and of the request, so that the same request may be
  answered differently later. \<open>ctx_done\<close> is whether a context is over; \<open>select_done\<close> is the case the \<open>select\<close> of
  \<open>waitRunning\<close> takes: a context that is over makes Done ready, but where a tick is ready too Go takes either of
  the two. The functions of the client libraries are fields of the record too. The state the operations thread is
  the trace and the runner's group cache.
\<close>

subsection \<open>The bounded output buffer\<close>

record limitBuffer =
  lb_buf :: string
  lb_max :: int
  lb_dropped :: int

definition new_limitBuffer :: "int \<Rightarrow> limitBuffer" where
  "new_limitBuffer n = \<lparr>lb_buf = [], lb_max = n, lb_dropped = 0\<rparr>"

text \<open>\<open>Write\<close> returns the number of bytes taken; it never fails.\<close>

definition lb_Write :: "string \<Rightarrow> limitBuffer \<Rightarrow> int \<times> limitBuffer" where
  "lb_Write p b =
     (let room = lb_max b - int (length (lb_buf b)) in
      if room \<le> 0 then (int (length p), b\<lparr>lb_dropped := lb_dropped b + int (length p)\<rparr>)
      else if int (length p) > room then
        (int (length p),
         b\<lparr>lb_buf := lb_buf b @ take (nat room) p, lb_dropped := lb_dropped b + (int (length p) - room)\<rparr>)
      else (int (length p), b\<lparr>lb_buf := lb_buf b @ p\<rparr>))"

definition lb_String :: "limitBuffer \<Rightarrow> string" where
  "lb_String b =
     (if lb_dropped b > 0 then
        lb_buf b @ [CHR 0x0A] @ ''[output truncated: '' @ itoa (lb_dropped b) @ '' more bytes; narrow the command]''
      else lb_buf b)"

definition truncate_runes :: "string \<Rightarrow> nat \<Rightarrow> string" where
  "truncate_runes s n = (if rune_count s \<le> n then s else take_runes n s)"

subsection \<open>Data\<close>

definition LabelDebug :: string where
  "LabelDebug = ''snappcloud.io/debug-pod''"

definition AnnotationRequester :: string where
  "AnnotationRequester = ''snappcloud.io/requested-by''"

definition AnnotationReason :: string where
  "AnnotationReason = ''snappcloud.io/reason''"

definition debug_container :: string where
  "debug_container = ''debug''"

definition doneFile :: string where
  "doneFile = ''/tmp/done''"

definition implicitGroups :: "string list" where
  "implicitGroups = [''system:authenticated'', ''system:authenticated:oauth'']"

text \<open>A resource quantity is a value of the client library, only passed on: a type parameter.\<close>

record 'q config =
  cfg_Enabled :: bool
  cfg_Image :: string
  cfg_CPU :: 'q
  cfg_Memory :: 'q
  cfg_Lifetime :: duration
  cfg_TTL :: duration
  cfg_StartTimeout :: duration
  cfg_ExecTimeout :: duration
  cfg_MaxOutput :: int
  cfg_PriorityClass :: string

text \<open>The identity a client acts as (\<open>rest.ImpersonationConfig\<close>).\<close>

record ident =
  id_user :: string
  id_groups :: "string list"

record 'q container =
  ct_name :: string
  ct_image :: string
  ct_imagePullPolicy :: string
  ct_command :: "string list"
  ct_requests :: "(string \<times> 'q) list"
  ct_limits :: "(string \<times> 'q) list"
  ct_allowPrivilegeEscalation :: bool
  ct_drop :: "string list"

record 'q podTemplate =
  pt_labels :: labels
  pt_annotations :: labels
  pt_restartPolicy :: string
  pt_automountServiceAccountToken :: bool
  pt_enableServiceLinks :: bool
  pt_terminationGracePeriodSeconds :: int
  pt_priorityClassName :: string
  pt_runAsNonRoot :: bool
  pt_seccompProfile :: string
  pt_containers :: "'q container list"

record 'q job =
  job_generateName :: string
  job_labels :: labels
  job_annotations :: labels
  job_activeDeadlineSeconds :: int
  job_ttlSecondsAfterFinished :: int
  job_backoffLimit :: int
  job_template :: "'q podTemplate"

text \<open>What the program reads of a created Job, of a pod and of an event.\<close>

record createdJob =
  cj_name :: string
  cj_created :: instant

record pod =
  pod_name :: string
  pod_labels :: labels
  pod_annotations :: labels
  pod_phase :: string
  pod_nodeName :: string
  pod_created :: instant
  pod_waiting :: "(string \<times> string) option list"

record event =
  ev_reason :: string
  ev_message :: string

datatype 'q call =
    FetchGroups
  | CreateJob ident string "'q job"
  | ListPods ident string string
  | GetPod ident string string
  | ListEvents ident string string
  | ExecPod ident string string string "string list"

type_synonym 'q trace = "'q call list"

record ('e, 'q) outside =
  at_time :: "'q trace \<Rightarrow> instant"
  ctx_done :: "'q trace \<Rightarrow> bool"
  select_done :: "'q trace \<Rightarrow> bool"
  fetch_groups :: "'q trace \<Rightarrow> ('e, string) fallible"
  parse_json :: "string \<Rightarrow> any option"
  new_client :: "ident \<Rightarrow> 'e option"
  create_job :: "'q trace \<Rightarrow> ident \<Rightarrow> string \<Rightarrow> 'q job \<Rightarrow> ('e, createdJob) fallible"
  list_pods :: "'q trace \<Rightarrow> ident \<Rightarrow> string \<Rightarrow> string \<Rightarrow> ('e, pod list) fallible"
  get_pod :: "'q trace \<Rightarrow> ident \<Rightarrow> string \<Rightarrow> string \<Rightarrow> ('e, pod) fallible"
  list_events :: "'q trace \<Rightarrow> ident \<Rightarrow> string \<Rightarrow> string \<Rightarrow> ('e, event list) fallible"
  new_executor :: "'q trace \<Rightarrow> ident \<Rightarrow> string \<Rightarrow> string \<Rightarrow> string list \<Rightarrow> 'e option list"
  stream :: "'q trace \<Rightarrow> ident \<Rightarrow> string \<Rightarrow> string \<Rightarrow> string list \<Rightarrow> string list \<times> 'e option"
  is_forbidden :: "'e goerr \<Rightarrow> bool"
  is_already_exists :: "'e goerr \<Rightarrow> bool"
  is_invalid :: "'e goerr \<Rightarrow> bool"
  status_message :: "'e goerr \<Rightarrow> string option"
  api_text :: "'e \<Rightarrow> string"

record groupCache =
  gc_ttl :: duration
  gc_expires :: instant
  gc_byUser :: "string \<rightharpoonup> string list"

record 'q runner =
  r_groups :: groupCache
  r_trace :: "'q trace"

definition zero_time :: instant where
  "zero_time = - 62135596800 * second"

definition newGroupCache :: "duration \<Rightarrow> groupCache" where
  "newGroupCache ttl = \<lparr>gc_ttl = ttl, gc_expires = zero_time, gc_byUser = Map.empty\<rparr>"

definition New_runner :: "'q runner" where
  "New_runner = \<lparr>r_groups = newGroupCache (5 * minute), r_trace = []\<rparr>"

definition request :: "'q call \<Rightarrow> 'q runner \<Rightarrow> 'q runner" where
  "request c st = st\<lparr>r_trace := r_trace st @ [c]\<rparr>"

subsection \<open>Groups and identity\<close>

text \<open>
  \<open>json.Unmarshal\<close> into the anonymous struct of \<open>parseGroups\<close>, from the decoded JSON value, whose objects list
  their members in the order of the text: every member is decoded into the field its name equals up to case,
  into what an earlier member left there, so that the last one wins. Null leaves a string and a struct as they are
  and empties a list, an element of a list is decoded into the earlier one at its index, and a value of another
  type is an error. (What a list holds again that was made shorter and then longer, by three members of one
  name, is not modelled.)
\<close>

fun json_string :: "any \<Rightarrow> string \<Rightarrow> string option" where
  "json_string JNull old = Some old"
| "json_string (JStr s) old = Some s"
| "json_string _ old = None"

fun json_members :: "(string \<Rightarrow> any \<Rightarrow> 'a \<Rightarrow> 'a option) \<Rightarrow> object \<Rightarrow> 'a \<Rightarrow> 'a option" where
  "json_members f [] old = Some old"
| "json_members f ((k, v) # m) old = (case f k v old of None \<Rightarrow> None | Some new \<Rightarrow> json_members f m new)"

fun json_struct :: "(string \<Rightarrow> any \<Rightarrow> 'a \<Rightarrow> 'a option) \<Rightarrow> any \<Rightarrow> 'a \<Rightarrow> 'a option" where
  "json_struct f JNull old = Some old"
| "json_struct f (JMap m) old = json_members f m old"
| "json_struct f _ old = None"

fun json_array :: "(any \<Rightarrow> 'a \<Rightarrow> 'a option) \<Rightarrow> 'a \<Rightarrow> any \<Rightarrow> 'a list \<Rightarrow> 'a list option" where
  "json_array f zero JNull old = Some []"
| "json_array f zero (JList l) old = those (map2 f l (old @ replicate (length l - length old) zero))"
| "json_array f zero _ old = None"

definition json_metadata :: "any \<Rightarrow> string \<Rightarrow> string option" where
  "json_metadata = json_struct (\<lambda>k v name. if equal_fold k ''name'' then json_string v name else Some name)"

definition json_group :: "any \<Rightarrow> string \<times> string list \<Rightarrow> (string \<times> string list) option" where
  "json_group = json_struct (\<lambda>k v (name, users).
     if equal_fold k ''metadata'' then map_option (\<lambda>n. (n, users)) (json_metadata v name)
     else if equal_fold k ''users'' then map_option (\<lambda>us. (name, us)) (json_array json_string [] v users)
     else Some (name, users))"

definition json_groups :: "any \<Rightarrow> (string \<times> string list) list option" where
  "json_groups v =
     json_struct (\<lambda>k v items. if equal_fold k ''items'' then json_array json_group ([], []) v items else Some items) v []"

definition parseGroups :: "(string \<Rightarrow> any option) \<Rightarrow> string \<Rightarrow> (string \<rightharpoonup> string list)" where
  "parseGroups parse data =
     (case parse data of
        None \<Rightarrow> Map.empty
      | Some v \<Rightarrow>
          (case json_groups v of
             None \<Rightarrow> Map.empty
           | Some items \<Rightarrow> fold (\<lambda>(g, users) m. fold (\<lambda>u. map_append u g) users m) items Map.empty))"

definition groupsFor :: "('e, 'q) outside \<Rightarrow> string \<Rightarrow> 'q runner \<Rightarrow> string list \<times> 'q runner" where
  "groupsFor out user st =
     (let st' =
        (if at_time out (r_trace st) > gc_expires (r_groups st) then
           (let g = r_groups st;
                st1 = request FetchGroups st;
                g1 = (case fetch_groups out (r_trace st) of
                        Inr data \<Rightarrow> g\<lparr>gc_byUser := parseGroups (parse_json out) data\<rparr>
                      | Inl _ \<Rightarrow> g)
            in st1\<lparr>r_groups := g1\<lparr>gc_expires := at_time out (r_trace st1) + gc_ttl g1\<rparr>\<rparr>)
         else st)
      in (listed (gc_byUser (r_groups st')) user, st'))"

text \<open>\<open>impersonating\<close>: the client that acts as the user, or the error of making it.\<close>

definition impersonating :: "('e, 'q) outside \<Rightarrow> string \<Rightarrow> string list \<Rightarrow> ('e goerr, ident) fallible" where
  "impersonating out user groups =
     (let i = \<lparr>id_user = user, id_groups = groups\<rparr> in
      case new_client out i of Some e \<Rightarrow> Inl (Api e) | None \<Rightarrow> Inr i)"

definition caller :: "('e, 'q) outside \<Rightarrow> string \<Rightarrow> 'q runner \<Rightarrow> ('e goerr, ident) fallible \<times> 'q runner" where
  "caller out user0 st =
     (let user = trim_space user0 in
      if user = [] then (Inl (Msg ''no caller identity: a debug pod runs as the person who asked for it''), st)
      else if has_prefix user ''system:'' \<or> user = ''kube:admin'' then
        (Inl (Msg (user @ '' is not a person; debug pods run only as a user'')), st)
      else
        (let (groups, st') = groupsFor out user st
         in (impersonating out user (groups @ implicitGroups), st')))"

text \<open>\<open>explain\<close>: what the caller lacks.\<close>

definition explain :: "('e, 'q) outside \<Rightarrow> 'e goerr \<Rightarrow> string \<Rightarrow> 'e goerr" where
  "explain out err what =
     (if is_forbidden out err then
        Msg (''your access does not allow you to '' @ what @ '' ('' @ error_text (api_text out) err @
             ''). A debug pod needs create on jobs and pods/exec in the namespace'')
      else if is_already_exists out err \<or> is_invalid out err then Wrap (what @ '': '') err []
      else if (case status_message out err of Some m \<Rightarrow> contains (to_lower m) ''quota'' | None \<Rightarrow> False) then
        Wrap ''the namespace quota does not leave room for a debug pod: '' err []
      else Wrap (what @ '': '') err [])"

subsection \<open>The Job\<close>

definition debug_labels :: labels where
  "debug_labels = [(LabelDebug, ''true''), (''app.kubernetes.io/managed-by'', ''snappcloud-bot'')]"

definition debug_script :: string where
  "debug_script = ''trap '' @ [CHR 0x27] @ ''exit 0'' @ [CHR 0x27] @ '' TERM INT; while [ ! -e '' @ doneFile @ '' ]; do sleep 1; done''"

definition debug_job :: "'q config \<Rightarrow> string \<Rightarrow> string \<Rightarrow> 'q job" where
  "debug_job cfg user reason =
     (let ann = [(AnnotationRequester, user), (AnnotationReason, truncate_runes reason 500)];
          res = [(''cpu'', cfg_CPU cfg), (''memory'', cfg_Memory cfg)]
      in \<lparr>job_generateName = ''snappcloud-debug-'', job_labels = debug_labels, job_annotations = ann,
          job_activeDeadlineSeconds = whole_seconds (cfg_Lifetime cfg),
          job_ttlSecondsAfterFinished = whole_seconds32 (cfg_TTL cfg),
          job_backoffLimit = 0,
          job_template =
            \<lparr>pt_labels = debug_labels, pt_annotations = ann,
             pt_restartPolicy = ''Never'',
             pt_automountServiceAccountToken = False,
             pt_enableServiceLinks = False,
             pt_terminationGracePeriodSeconds = 1,
             pt_priorityClassName = cfg_PriorityClass cfg,
             pt_runAsNonRoot = True,
             pt_seccompProfile = ''RuntimeDefault'',
             pt_containers =
               [\<lparr>ct_name = debug_container, ct_image = cfg_Image cfg, ct_imagePullPolicy = ''IfNotPresent'',
                 ct_command = [''sh'', ''-c'', debug_script], ct_requests = res, ct_limits = res,
                 ct_allowPrivilegeEscalation = False, ct_drop = [''ALL'']\<rparr>]\<rparr>\<rparr>)"

subsection \<open>Starting\<close>

definition pull_failures :: "string list" where
  "pull_failures = [''ErrImagePull'', ''ImagePullBackOff'', ''InvalidImageName'',
     ''CreateContainerConfigError'', ''CreateContainerError'']"

fun first_waiting :: "(string \<times> string) option list \<Rightarrow> string" where
  "first_waiting [] = []"
| "first_waiting (None # r) = first_waiting r"
| "first_waiting (Some (reason, message) # r) =
     (if List.member pull_failures reason then reason @ '': '' @ message else first_waiting r)"

definition waitingReason :: "pod \<Rightarrow> string" where
  "waitingReason p = first_waiting (pod_waiting p)"

definition events :: "('e, 'q) outside \<Rightarrow> ident \<Rightarrow> string \<Rightarrow> string \<Rightarrow> string \<Rightarrow> string list \<Rightarrow> 'q runner \<Rightarrow> string \<times> 'q runner" where
  "events out cs ns kind name reasons st =
     (let sel = ''involvedObject.kind='' @ kind @ '',involvedObject.name='' @ name in
      (case list_events out (r_trace st) cs ns sel of
         Inl _ \<Rightarrow> []
       | Inr evs \<Rightarrow>
           (case find (\<lambda>e. List.member reasons (ev_reason e)) evs of
              Some e \<Rightarrow> ev_reason e @ '': '' @ ev_message e
            | None \<Rightarrow> []),
       request (ListEvents cs ns sel) st))"

text \<open>
  One round of \<open>waitRunning\<close> up to its \<open>select\<close>: an outcome, or \<open>None\<close> to wait for the next tick.
\<close>

definition podRound :: "('e, 'q) outside \<Rightarrow> ident \<Rightarrow> string \<Rightarrow> pod \<Rightarrow> 'q runner \<Rightarrow> ('e goerr, pod) fallible option \<times> 'q runner" where
  "podRound out cs ns p st =
     (if pod_phase p = ''Running'' then (Some (Inr p), st)
      else if pod_phase p = ''Failed'' \<or> pod_phase p = ''Succeeded'' then
        (Some (Inl (Msg (''pod '' @ pod_name p @ '' ended ('' @ pod_phase p @ '') before it could be used''))), st)
      else if waitingReason p \<noteq> [] then (Some (Inl (Msg (waitingReason p))), st)
      else
        (let (why, st') = events out cs ns ''Pod'' (pod_name p)
               [''FailedScheduling'', ''FailedCreatePodSandBox'', ''FailedMount''] st
         in (if why \<noteq> [] then Some (Inl (Msg why)) else None, st')))"

definition podsRound :: "('e, 'q) outside \<Rightarrow> ident \<Rightarrow> string \<Rightarrow> string \<Rightarrow> 'q runner \<Rightarrow> ('e goerr, pod) fallible option \<times> 'q runner" where
  "podsRound out cs ns job st =
     (let sel = ''job-name='' @ job; st' = request (ListPods cs ns sel) st in
      case list_pods out (r_trace st) cs ns sel of
        Inr (p # _) \<Rightarrow> podRound out cs ns p st'
      | _ \<Rightarrow> (None, st'))"

definition waitRound :: "('e, 'q) outside \<Rightarrow> ident \<Rightarrow> string \<Rightarrow> string \<Rightarrow> 'q runner \<Rightarrow> ('e goerr, pod) fallible option \<times> 'q runner" where
  "waitRound out cs ns job st =
     (case podsRound out cs ns job st of
        (Some r, st') \<Rightarrow> (Some r, st')
      | (None, st') \<Rightarrow>
          (let (why, st'') = events out cs ns ''Job'' job [''FailedCreate''] st'
           in (if why \<noteq> [] then Some (Inl (Msg why)) else None, st'')))"

partial_function (option) waitRunning ::
  "'q config \<Rightarrow> ('e, 'q) outside \<Rightarrow> ident \<Rightarrow> string \<Rightarrow> string \<Rightarrow> 'q runner \<Rightarrow> (('e goerr, pod) fallible \<times> 'q runner) option" where
  "waitRunning cfg out cs ns job st =
     (case waitRound out cs ns job st of
        (Some r, st') \<Rightarrow> Some (r, st')
      | (None, st') \<Rightarrow>
          if select_done out (r_trace st')
          then Some (Inl (Msg (''not running after '' @ duration_string (cfg_StartTimeout cfg))), st')
          else waitRunning cfg out cs ns job st')"

record started =
  sd_namespace :: string
  sd_job :: string
  sd_pod :: string
  sd_node :: string
  sd_image :: string
  sd_expiresAt :: instant
  sd_note :: string

definition start_note :: string where
  "start_note =
     ''Run commands with debug_pod_exec. Call debug_pod_finish when done: the pod then exits and is deleted '' @
     ''automatically. It has no extra capabilities (no NET_RAW: ping and tcpdump do not work; use curl, dig, nc).''"

definition Start ::
  "'q config \<Rightarrow> ('e, 'q) outside \<Rightarrow> string \<Rightarrow> string \<Rightarrow> string \<Rightarrow> 'q runner \<Rightarrow> (('e goerr, started) fallible \<times> 'q runner) option" where
  "Start cfg out user ns reason st =
     (case caller out user st of
        (Inl err, st1) \<Rightarrow> Some (Inl err, st1)
      | (Inr cs, st1) \<Rightarrow>
          (let j = debug_job cfg user reason;
               reply = create_job out (r_trace st1) cs ns j;
               st2 = request (CreateJob cs ns j) st1
           in case reply of
                Inl e \<Rightarrow> Some (Inl (explain out (Api e) (''create a Job in '' @ ns)), st2)
              | Inr created \<Rightarrow>
                  (case waitRunning cfg out cs ns (cj_name created) st2 of
                     None \<Rightarrow> None
                   | Some (Inl err, st3) \<Rightarrow>
                       Some (Inl (Wrap (''debug pod for job '' @ cj_name created @ '' did not start: '') err
                               (''. It is removed automatically within '' @
                                duration_string (wrap64 (cfg_Lifetime cfg + cfg_TTL cfg)))), st3)
                   | Some (Inr p, st3) \<Rightarrow>
                       Some (Inr \<lparr>sd_namespace = ns, sd_job = cj_name created, sd_pod = pod_name p,
                                 sd_node = pod_nodeName p, sd_image = cfg_Image cfg,
                                 sd_expiresAt = cj_created created + cfg_Lifetime cfg,
                                 sd_note = start_note\<rparr>, st3))))"

subsection \<open>Running a command, finishing, listing\<close>

definition owned :: "('e, 'q) outside \<Rightarrow> ident \<Rightarrow> string \<Rightarrow> string \<Rightarrow> string \<Rightarrow> 'q runner \<Rightarrow> 'e goerr option \<times> 'q runner" where
  "owned out cs user ns pod st =
     (let st' = request (GetPod cs ns pod) st in
      case get_pod out (r_trace st) cs ns pod of
        Inl e \<Rightarrow> (Some (explain out (Api e) (''read pod '' @ ns @ ''/'' @ pod)), st')
      | Inr p \<Rightarrow>
          if label (pod_labels p) LabelDebug \<noteq> ''true'' \<or> label (pod_annotations p) AnnotationRequester \<noteq> user
          then (Some (Msg (ns @ ''/'' @ pod @ '' is not a debug pod you started'')), st')
          else if pod_phase p \<noteq> ''Running''
          then (Some (Msg (''debug pod '' @ pod @ '' is '' @ pod_phase p @ '', not running; start a new one'')), st')
          else (None, st'))"

definition remoteExec ::
  "('e, 'q) outside \<Rightarrow> ident \<Rightarrow> string \<Rightarrow> string \<Rightarrow> string list \<Rightarrow> limitBuffer \<Rightarrow> 'q runner \<Rightarrow> 'e goerr option \<times> limitBuffer \<times> 'q runner" where
  "remoteExec out cs ns pod cmd buf st =
     (case List.map_filter id (new_executor out (r_trace st) cs ns pod cmd) of
        e # _ \<Rightarrow> (Some (Api e), buf, st)
      | [] \<Rightarrow>
          (let (chunks, err) = stream out (r_trace st) cs ns pod cmd;
               st' = request (ExecPod cs ns pod debug_container cmd) st;
               buf' = fold (\<lambda>p b. snd (lb_Write p b)) chunks buf
           in case err of
                None \<Rightarrow> (None, buf', st')
              | Some e \<Rightarrow>
                  (Some (if is_forbidden out (Api e) then explain out (Api e) (''exec into '' @ ns @ ''/'' @ pod)
                         else Api e), buf', st')))"

definition exec_command :: "duration \<Rightarrow> string \<Rightarrow> string list" where
  "exec_command timeout command =
     [''sh'', ''-c'',
      ''if command -v timeout >/dev/null 2>&1; then exec timeout '' @ itoa (whole_seconds timeout) @
      '' sh -c '' @ [CHR 0x22] @ ''$1'' @ [CHR 0x22] @ ''; else exec sh -c '' @ [CHR 0x22] @ ''$1'' @ [CHR 0x22] @ ''; fi'',
      ''sh'', command]"

definition exec_timeout :: "'q config \<Rightarrow> duration \<Rightarrow> duration" where
  "exec_timeout cfg timeout = (if timeout \<le> 0 \<or> timeout > cfg_ExecTimeout cfg then cfg_ExecTimeout cfg else timeout)"

definition Exec ::
  "'q config \<Rightarrow> ('e, 'q) outside \<Rightarrow> string \<Rightarrow> string \<Rightarrow> string \<Rightarrow> string \<Rightarrow> duration \<Rightarrow> 'q runner \<Rightarrow> (string \<times> 'e goerr option) \<times> 'q runner" where
  "Exec cfg out user ns pod command timeout0 st =
     (if trim_space command = [] then (([], Some (Msg ''command is empty'')), st)
      else
        let timeout = exec_timeout cfg timeout0 in
        (case caller out user st of
           (Inl err, st1) \<Rightarrow> (([], Some err), st1)
         | (Inr cs, st1) \<Rightarrow>
             (case owned out cs user ns pod st1 of
                (Some err, st2) \<Rightarrow> (([], Some err), st2)
              | (None, st2) \<Rightarrow>
                  (let (eerr, buf, st3) =
                     remoteExec out cs ns pod (exec_command timeout command) (new_limitBuffer (cfg_MaxOutput cfg)) st2;
                       text = lb_String buf
                   in case eerr of
                        None \<Rightarrow> ((text, None), st3)
                      | Some e \<Rightarrow>
                          if ctx_done out (r_trace st3) then
                            ((text, Some (Msg (''timed out after '' @ duration_string timeout @ ''; output so far:'' @
                                               [CHR 0x0A] @ text))), st3)
                          else ((text @ [CHR 0x0A] @ ''[exit: '' @ error_text (api_text out) e @ '']'', None), st3)))))"

definition Finish ::
  "('e, 'q) outside \<Rightarrow> string \<Rightarrow> string \<Rightarrow> string \<Rightarrow> 'q runner \<Rightarrow> 'e goerr option \<times> 'q runner" where
  "Finish out user ns pod st =
     (case caller out user st of
        (Inl err, st1) \<Rightarrow> (Some err, st1)
      | (Inr cs, st1) \<Rightarrow>
          (case owned out cs user ns pod st1 of
             (Some err, st2) \<Rightarrow> (Some err, st2)
           | (None, st2) \<Rightarrow>
               (let (err, _, st3) = remoteExec out cs ns pod [''touch'', doneFile] (new_limitBuffer 1024) st2
                in (err, st3))))"

record podRow =
  row_pod :: string
  row_job :: string
  row_phase :: string
  row_node :: string
  row_started :: instant
  row_reason :: string

definition pod_row :: "pod \<Rightarrow> podRow" where
  "pod_row p =
     \<lparr>row_pod = pod_name p, row_job = label (pod_labels p) ''job-name'', row_phase = pod_phase p,
      row_node = pod_nodeName p, row_started = pod_created p, row_reason = label (pod_annotations p) AnnotationReason\<rparr>"

definition List_pods ::
  "('e, 'q) outside \<Rightarrow> string \<Rightarrow> string \<Rightarrow> 'q runner \<Rightarrow> ('e goerr, podRow list) fallible \<times> 'q runner" where
  "List_pods out user ns st =
     (case caller out user st of
        (Inl err, st1) \<Rightarrow> (Inl err, st1)
      | (Inr cs, st1) \<Rightarrow>
          (let sel = LabelDebug @ ''=true'';
               st2 = request (ListPods cs ns sel) st1
           in case list_pods out (r_trace st1) cs ns sel of
                Inl e \<Rightarrow> (Inl (explain out (Api e) (''list pods in '' @ ns)), st2)
              | Inr pods \<Rightarrow>
                  (Inr (sort_slice row_pod
                         (map pod_row (filter (\<lambda>p. label (pod_annotations p) AnnotationRequester = user) pods))), st2)))"

end
