(* ===== verification/Debug_Config.thy ===== *)
theory Debug_Config
  imports Debug_Pod
begin

text \<open>
  The configuration of debug pods, \<open>ConfigFromEnv\<close> of \<open>src/internal/debugpod/debugpod.go\<close>.
  Parameters are the environment, the quantities of the client library, and \<open>time.ParseDuration\<close>,
  whose fractions go through floating point numbers: what it returns is only compared with zero and
  stored.
\<close>

text \<open>\<open>strconv.Atoi\<close>: an optional sign and digits, in the range of an int.\<close>

definition digits_value :: "string \<Rightarrow> int" where
  "digits_value ds = fold (\<lambda>c v. 10 * v + (int (byte c) - 48)) ds 0"

definition atoi :: "string \<Rightarrow> int option" where
  "atoi s =
     (let signed = has_prefix s ''-'' \<or> has_prefix s ''+'';
          ds = (if signed then tl s else s);
          v = (if has_prefix s ''-'' then - digits_value ds else digits_value ds)
      in if ds = [] \<or> \<not> list_all is_digit ds then None
         else if - (2 ^ 63) \<le> v \<and> v < 2 ^ 63 then Some v else None)"

record ('e, 'q) config_env =
  getenv :: "string \<Rightarrow> string"
  must_parse :: "string \<Rightarrow> 'q"
  parse_quantity :: "string \<Rightarrow> ('e, 'q) fallible"
  parse_duration :: "string \<Rightarrow> duration option"

text \<open>The closures \<open>quantity\<close> and \<open>duration\<close>: the new value of the field and the errors so far.\<close>

definition read_quantity :: "('e, 'q) config_env \<Rightarrow> string \<Rightarrow> 'q \<Rightarrow> 'e goerr list \<Rightarrow> 'q \<times> 'e goerr list" where
  "read_quantity env name dst errs =
     (let v = getenv env name in
      if v = [] then (dst, errs)
      else case parse_quantity env v of
             Inl err \<Rightarrow> (dst, errs @ [Wrap (name @ '': '') (Api err) []])
           | Inr q \<Rightarrow> (q, errs))"

definition read_duration :: "('e, 'q) config_env \<Rightarrow> string \<Rightarrow> duration \<Rightarrow> 'e goerr list \<Rightarrow> duration \<times> 'e goerr list" where
  "read_duration env name dst errs =
     (let v = getenv env name in
      if v = [] then (dst, errs)
      else case parse_duration env v of
             Some d \<Rightarrow> if d \<le> 0 then (dst, errs @ [Msg (name @ '': invalid duration '' @ quoted v)]) else (d, errs)
           | None \<Rightarrow> (dst, errs @ [Msg (name @ '': invalid duration '' @ quoted v)]))"

definition read_max_output :: "('e, 'q) config_env \<Rightarrow> int \<Rightarrow> 'e goerr list \<Rightarrow> int \<times> 'e goerr list" where
  "read_max_output env dst errs =
     (let v = getenv env ''DEBUG_POD_MAX_OUTPUT'' in
      if v = [] then (dst, errs)
      else case atoi v of
             Some n \<Rightarrow> if n \<le> 0 then (dst, errs @ [Msg (''DEBUG_POD_MAX_OUTPUT: invalid '' @ quoted v)]) else (n, errs)
           | None \<Rightarrow> (dst, errs @ [Msg (''DEBUG_POD_MAX_OUTPUT: invalid '' @ quoted v)]))"

text \<open>\<open>errors.Join\<close> of the collected errors is nil exactly when there are none: the list stands for it.\<close>

definition ConfigFromEnv :: "('e, 'q) config_env \<Rightarrow> 'q config \<times> 'e goerr list" where
  "ConfigFromEnv env =
     (let (cpu, e1) = read_quantity env ''DEBUG_POD_CPU'' (must_parse env ''200m'') [];
          (memory, e2) = read_quantity env ''DEBUG_POD_MEMORY'' (must_parse env ''256Mi'') e1;
          (lifetime, e3) = read_duration env ''DEBUG_POD_LIFETIME'' (15 * minute) e2;
          (ttl, e4) = read_duration env ''DEBUG_POD_TTL'' (30 * second) e3;
          (start, e5) = read_duration env ''DEBUG_POD_START_TIMEOUT'' (60 * second) e4;
          (exec, e6) = read_duration env ''DEBUG_POD_EXEC_TIMEOUT'' (60 * second) e5;
          (maxOutput, e7) = read_max_output env 65536 e6;
          enabled = (getenv env ''DEBUG_POD_ENABLED'' = ''true'');
          img = getenv env ''DEBUG_POD_IMAGE'';
          e8 = (if enabled \<and> img = []
                then e7 @ [Msg ''DEBUG_POD_IMAGE is required when DEBUG_POD_ENABLED=true''] else e7)
      in (\<lparr>cfg_Enabled = enabled, cfg_Image = img, cfg_CPU = cpu, cfg_Memory = memory, cfg_Lifetime = lifetime,
           cfg_TTL = ttl, cfg_StartTimeout = start, cfg_ExecTimeout = exec, cfg_MaxOutput = maxOutput,
           cfg_PriorityClass = getenv env ''DEBUG_POD_PRIORITY_CLASS''\<rparr>, e8))"

subsection \<open>What is read is usable\<close>

lemma read_duration_positive: "0 < dst \<Longrightarrow> 0 < fst (read_duration env name dst errs)"
  by (auto simp: read_duration_def Let_def split: option.split)

lemma read_max_output_positive: "0 < dst \<Longrightarrow> 0 < fst (read_max_output env dst errs)"
  by (auto simp: read_max_output_def Let_def split: option.split)

lemma config_positive:
  "0 < cfg_Lifetime (fst (ConfigFromEnv env))" "0 < cfg_TTL (fst (ConfigFromEnv env))"
  "0 < cfg_StartTimeout (fst (ConfigFromEnv env))" "0 < cfg_ExecTimeout (fst (ConfigFromEnv env))"
  "0 < cfg_MaxOutput (fst (ConfigFromEnv env))"
  by (simp_all add: ConfigFromEnv_def Let_def case_prod_beta read_duration_positive read_max_output_positive
      minute_def second_def)

lemma read_errors_grow:
  "\<exists>es. snd (read_quantity env name q errs) = errs @ es"
  "\<exists>es. snd (read_duration env name d errs) = errs @ es"
  "\<exists>es. snd (read_max_output env n errs) = errs @ es"
  by (auto simp: read_quantity_def read_duration_def read_max_output_def Let_def split: option.split sum.split)

lemma config_image:
  "snd (ConfigFromEnv env) = [] \<Longrightarrow> cfg_Enabled (fst (ConfigFromEnv env)) \<Longrightarrow> cfg_Image (fst (ConfigFromEnv env)) \<noteq> []"
  by (auto simp: ConfigFromEnv_def Let_def case_prod_beta split: if_splits)

end
