(* ===== verification/Debug_Pod_Props.thy ===== *)
theory Debug_Pod_Props
  imports Debug_Config
begin

text \<open>
  What the debug pod runner guarantees: the output buffer, the groups of a caller, that every
  request but the list of the groups is made as the caller, that commands run only in a running debug pod the caller started,
  and that starting a pod ends.
\<close>

subsection \<open>The bounded buffer keeps a prefix\<close>

definition lb_writes :: "string list \<Rightarrow> limitBuffer \<Rightarrow> limitBuffer" where
  "lb_writes ps b = fold (\<lambda>p b. snd (lb_Write p b)) ps b"

definition lb_holds :: "int \<Rightarrow> string \<Rightarrow> limitBuffer \<Rightarrow> bool" where
  "lb_holds n s b \<longleftrightarrow>
     lb_max b = n \<and> lb_buf b = take (nat n) s \<and> lb_dropped b = int (length s - nat n)"

lemma lb_holds_new: "lb_holds n [] (new_limitBuffer n)"
  by (simp add: lb_holds_def new_limitBuffer_def)

lemma lb_holds_Write:
  assumes "lb_holds n s b"
  shows "lb_holds n (s @ p) (snd (lb_Write p b))"
proof -
  have b: "lb_max b = n" "lb_buf b = take (nat n) s" "lb_dropped b = int (length s - nat n)"
    using assms by (simp_all add: lb_holds_def)
  show ?thesis
  proof (cases "int (length s) < n")
    case True
    then have "lb_buf b = s" "lb_dropped b = 0" "nat (n - int (length s)) = nat n - length s"
      using b by (simp_all add: nat_diff_distrib')
    with True b(1) show ?thesis
      by (auto simp: lb_Write_def lb_holds_def Let_def)
  next
    case False
    then have "nat n \<le> length s" by simp
    with False b show ?thesis
      by (auto simp: lb_Write_def lb_holds_def Let_def)
  qed
qed

lemma lb_holds_writes: "lb_holds n s b \<Longrightarrow> lb_holds n (s @ concat ps) (lb_writes ps b)"
proof (induction ps arbitrary: s b)
  case (Cons p ps)
  from Cons.IH [OF lb_holds_Write [OF Cons.prems]] show ?case by (simp add: lb_writes_def)
qed (simp add: lb_writes_def)

lemma lb_writes_new: "lb_holds n (concat ps) (lb_writes ps (new_limitBuffer n))"
  using lb_holds_writes [OF lb_holds_new] by simp

subsection \<open>Who makes the requests\<close>

text \<open>
  The user a request to the cluster is made as. Every one is impersonated but the list of the groups: the
  runner reads it with the server's own access, to learn the groups of a caller before it can act as the caller.
\<close>

fun call_user :: "'q call \<Rightarrow> string option" where
  "call_user FetchGroups = None"
| "call_user (CreateJob i _ _) = Some (id_user i)"
| "call_user (ListPods i _ _) = Some (id_user i)"
| "call_user (GetPod i _ _) = Some (id_user i)"
| "call_user (ListEvents i _ _) = Some (id_user i)"
| "call_user (ExecPod i _ _ _ _) = Some (id_user i)"

definition call_by :: "string \<Rightarrow> 'q call \<Rightarrow> bool" where
  "call_by u c \<longleftrightarrow> c = FetchGroups \<or> call_user c = Some u"

text \<open>
  From one state to a later one, requests as the user only; and such requests with reads of the groups among them.
\<close>

definition only_as :: "string \<Rightarrow> 'q runner \<Rightarrow> 'q runner \<Rightarrow> bool" where
  "only_as u st st' \<longleftrightarrow> (\<exists>cs. r_trace st' = r_trace st @ cs \<and> list_all (\<lambda>c. call_user c = Some u) cs)"

definition acts_as :: "string \<Rightarrow> 'q runner \<Rightarrow> 'q runner \<Rightarrow> bool" where
  "acts_as u st st' \<longleftrightarrow> (\<exists>cs. r_trace st' = r_trace st @ cs \<and> list_all (call_by u) cs)"

text \<open>
  One operation: at most one read of the groups, the first request and only when those of the cache have
  expired, and nothing after it but requests as the trimmed user.
\<close>

definition run_as :: "('e, 'q) outside \<Rightarrow> string \<Rightarrow> 'q runner \<Rightarrow> 'q runner \<Rightarrow> bool" where
  "run_as out user st st' \<longleftrightarrow>
     (\<exists>groups calls. r_trace st' = r_trace st @ groups @ calls \<and>
        (groups = [] \<or> groups = [FetchGroups] \<and> at_time out (r_trace st) > gc_expires (r_groups st)) \<and>
        list_all (\<lambda>c. call_user c = Some (trim_space user)) calls)"

lemma acts_as_refl [simp, intro]: "acts_as u st st"
  by (simp add: acts_as_def)

lemma acts_as_trans [trans]: "acts_as u st st' \<Longrightarrow> acts_as u st' st'' \<Longrightarrow> acts_as u st st''"
  by (auto simp: acts_as_def)

lemma only_as_refl [simp, intro]: "only_as u st st"
  by (simp add: only_as_def)

lemma only_as_trans [trans]: "only_as u st st' \<Longrightarrow> only_as u st' st'' \<Longrightarrow> only_as u st st''"
  by (auto simp: only_as_def)

lemma r_trace_request [simp]: "r_trace (request c st) = r_trace st @ [c]"
  by (simp add: request_def)

lemma only_as_request: "call_user c = Some u \<Longrightarrow> only_as u st (request c st)"
  by (simp add: only_as_def)

lemma run_as_refl: "run_as out user st st"
  by (simp add: run_as_def)

lemma run_as_acts_as: "run_as out user st st' \<Longrightarrow> acts_as (trim_space user) st st'"
  unfolding run_as_def acts_as_def
  by (elim exE conjE, intro exI conjI, assumption) (auto simp: call_by_def list_all_iff)

lemma groupsFor_trace:
  "groupsFor out user st = (gs, st') \<Longrightarrow> r_trace st' = r_trace st \<or>
     r_trace st' = r_trace st @ [FetchGroups] \<and> at_time out (r_trace st) > gc_expires (r_groups st)"
  by (auto simp: groupsFor_def Let_def request_def split: if_splits sum.splits)

definition person :: "string \<Rightarrow> bool" where
  "person user =
     (let u = trim_space user in u \<noteq> [] \<and> \<not> has_prefix u ''system:'' \<and> u \<noteq> ''kube:admin'')"

lemma caller_refused:
  "\<not> person user \<Longrightarrow> \<exists>m. caller out user st = (Inl (Msg m), st)"
  by (auto simp: person_def caller_def Let_def)

lemma caller_trace:
  assumes "caller out user st = (r, st')"
  shows "r_trace st' = r_trace st \<or>
    r_trace st' = r_trace st @ [FetchGroups] \<and> at_time out (r_trace st) > gc_expires (r_groups st)"
  using assms groupsFor_trace by (fastforce simp: caller_def Let_def split: if_splits prod.splits)

lemma caller_ident:
  assumes "caller out user st = (Inr cs, st')"
  shows "id_user cs = trim_space user" and "person user" and "set implicitGroups \<subseteq> set (id_groups cs)"
  using assms
  by (auto simp: caller_def impersonating_def person_def Let_def split: if_splits prod.splits option.splits)

lemma caller_run_as:
  assumes "caller out user st = (r, st1)" and "only_as (trim_space user) st1 st'"
  shows "run_as out user st st'"
proof -
  obtain calls where c: "r_trace st' = r_trace st1 @ calls" "list_all (\<lambda>c. call_user c = Some (trim_space user)) calls"
    using assms(2) unfolding only_as_def by blast
  show ?thesis
    unfolding run_as_def using caller_trace [OF assms(1)] c
    by (intro exI [of _ "drop (length (r_trace st)) (r_trace st1)"] exI [of _ calls]) auto
qed

lemma events_trace: "events out cs ns kind name reasons st = (why, st') \<Longrightarrow>
   \<exists>sel. st' = request (ListEvents cs ns sel) st"
  by (auto simp: events_def Let_def)

lemma owned_trace: "owned out cs user ns pod st = (err, st') \<Longrightarrow> st' = request (GetPod cs ns pod) st"
  by (auto simp: owned_def Let_def split: sum.splits if_splits)

lemma remoteExec_trace:
  "remoteExec out cs ns pod cmd buf st = (err, buf', st') \<Longrightarrow> st' = st \<or> st' = request (ExecPod cs ns pod debug_container cmd) st"
  by (auto simp: remoteExec_def Let_def split: list.splits prod.splits option.splits)

lemma podRound_only_as:
  assumes "podRound out cs ns p st = (r, st')"
  shows "only_as (id_user cs) st st'"
  using assms events_trace
  by (fastforce simp: podRound_def only_as_request split: if_splits prod.splits)

lemma podsRound_only_as:
  assumes "podsRound out cs ns job st = (r, st')"
  shows "only_as (id_user cs) st st'"
proof -
  let ?st1 = "request (ListPods cs ns (''job-name='' @ job)) st"
  have "only_as (id_user cs) ?st1 st'"
    using assms podRound_only_as by (auto simp: podsRound_def Let_def split: sum.splits list.splits)
  with only_as_request [of "ListPods cs ns (''job-name='' @ job)" "id_user cs" st] show ?thesis
    by (auto intro: only_as_trans)
qed

lemma events_only_as:
  "events out cs ns kind name reasons st = (why, st') \<Longrightarrow> only_as (id_user cs) st st'"
  using events_trace only_as_request [of "ListEvents cs ns _" "id_user cs"] by fastforce

lemma waitRound_cases:
  assumes "waitRound out cs ns job st = (r, st')"
  obtains (pods) x where "podsRound out cs ns job st = (Some x, st')" "r = Some x"
    | (events) st1 why where "podsRound out cs ns job st = (None, st1)"
        "events out cs ns ''Job'' job [''FailedCreate''] st1 = (why, st')"
        "r = (if why \<noteq> [] then Some (Inl (Msg why)) else None)"
  using assms by (auto simp: waitRound_def Let_def split: prod.splits option.splits)

lemma waitRound_only_as:
  assumes "waitRound out cs ns job st = (r, st')"
  shows "only_as (id_user cs) st st'"
  using assms
proof (cases rule: waitRound_cases)
  case (events st1 why)
  then show ?thesis using podsRound_only_as events_only_as only_as_trans by blast
qed (rule podsRound_only_as)

lemma waitRunning_only_as:
  assumes "waitRunning cfg out cs ns job st = Some (r, st')"
  shows "only_as (id_user cs) st st'"
proof -
  have "only_as (id_user cs) st (snd res)" if "waitRunning cfg out cs ns job st = Some res" for res
    using that
  proof (induction rule: waitRunning.raw_induct [rotated, consumes 1])
    case (1 rec cfg out cs ns job st res)
    obtain q st1 where w: "waitRound out cs ns job st = (q, st1)" by (cases "waitRound out cs ns job st")
    then have a: "only_as (id_user cs) st st1" by (rule waitRound_only_as)
    show ?case
    proof (cases "snd res = st1")
      case True
      with a show ?thesis by simp
    next
      case False
      with 1(2) w have "rec cfg out cs ns job st1 = Some res" by (auto split: option.splits if_splits)
      from 1(1) [OF this] a show ?thesis by (blast intro: only_as_trans)
    qed
  qed
  from this [OF assms] show ?thesis by simp
qed

lemma Start_run_as:
  assumes "Start cfg out user ns reason st = Some (r, st')"
  shows "run_as out user st st'"
proof (cases "caller out user st")
  case (Pair c st1)
  show ?thesis
  proof (cases c)
    case (Inl err)
    with assms Pair have "st' = st1" by (simp add: Start_def)
    then show ?thesis by (intro caller_run_as [OF Pair]) simp
  next
    case (Inr cs)
    have u: "id_user cs = trim_space user" using caller_ident(1) Pair Inr by blast
    let ?st2 = "request (CreateJob cs ns (debug_job cfg user reason)) st1"
    have "only_as (trim_space user) st1 ?st2" using u by (simp add: only_as_request)
    moreover have "only_as (trim_space user) ?st2 st'"
      using assms Pair Inr waitRunning_only_as [of cfg out cs ns _ ?st2] u
      by (auto simp: Start_def Let_def split: sum.splits option.splits prod.splits)
    ultimately show ?thesis by (intro caller_run_as [OF Pair]) (rule only_as_trans)
  qed
qed

subsection \<open>Where commands run\<close>

definition owned_running :: "string \<Rightarrow> pod \<Rightarrow> bool" where
  "owned_running user p \<longleftrightarrow>
     label (pod_labels p) LabelDebug = ''true'' \<and> label (pod_annotations p) AnnotationRequester = user \<and>
     pod_phase p = ''Running''"

lemma owned_None:
  "owned out cs user ns pod st = (None, st') \<longleftrightarrow>
     st' = request (GetPod cs ns pod) st \<and>
     (\<exists>p. get_pod out (r_trace st) cs ns pod = Inr p \<and> owned_running user p)"
  by (auto simp: owned_def owned_running_def Let_def split: sum.splits if_splits)

text \<open>
  The requests of a guarded run: perhaps the groups, then the pod is read, and only when the reply
  is a running debug pod of the user the command is executed, in that pod.
\<close>

definition guarded_run ::
  "('e, 'q) outside \<Rightarrow> string \<Rightarrow> string \<Rightarrow> string \<Rightarrow> string list \<Rightarrow> 'q runner \<Rightarrow> 'q runner \<Rightarrow> bool" where
  "guarded_run out user ns pod cmd st st' \<longleftrightarrow>
     (\<exists>pre. set pre \<subseteq> {FetchGroups} \<and>
        (r_trace st' = r_trace st @ pre \<or>
         (\<exists>cs. id_user cs = trim_space user \<and>
            (r_trace st' = r_trace st @ pre @ [GetPod cs ns pod] \<or>
             r_trace st' = r_trace st @ pre @ [GetPod cs ns pod, ExecPod cs ns pod debug_container cmd] \<and>
             (\<exists>p. get_pod out (r_trace st @ pre) cs ns pod = Inr p \<and> owned_running user p)))))"

text \<open>How far such a run gets in the code.\<close>

inductive guarded_steps ::
  "('e, 'q) outside \<Rightarrow> string \<Rightarrow> string \<Rightarrow> string \<Rightarrow> string list \<Rightarrow> 'q runner \<Rightarrow> 'q runner \<Rightarrow> bool"
  for out user ns pod cmd st where
  nothing: "guarded_steps out user ns pod cmd st st"
| known: "caller out user st = (c, st1) \<Longrightarrow> guarded_steps out user ns pod cmd st st1"
| checked: "caller out user st = (Inr cs, st1) \<Longrightarrow> owned out cs user ns pod st1 = (err, st2) \<Longrightarrow>
    guarded_steps out user ns pod cmd st st2"
| executed: "caller out user st = (Inr cs, st1) \<Longrightarrow> owned out cs user ns pod st1 = (None, st2) \<Longrightarrow>
    guarded_steps out user ns pod cmd st (request (ExecPod cs ns pod debug_container cmd) st2)"

lemma guarded_remote:
  "caller out user st = (Inr cs, st1) \<Longrightarrow> owned out cs user ns pod st1 = (None, st2) \<Longrightarrow>
   remoteExec out cs ns pod cmd buf st2 = (err, buf', st') \<Longrightarrow> guarded_steps out user ns pod cmd st st'"
  using remoteExec_trace by (metis checked executed)

lemma Exec_steps:
  assumes "Exec cfg out user ns pod command timeout st = (r, st')"
  shows "guarded_steps out user ns pod (exec_command (exec_timeout cfg timeout) command) st st'"
proof (cases "trim_space command = []")
  case True
  with assms have "st' = st" by (simp add: Exec_def)
  then show ?thesis by (simp only: guarded_steps.nothing)
next
  case False
  note E = assms [unfolded Exec_def Let_def]
  obtain c st1 where c: "caller out user st = (c, st1)" by (cases "caller out user st")
  show ?thesis
  proof (cases c)
    case (Inl e)
    with E False c show ?thesis by (auto intro: known)
  next
    case (Inr cs)
    obtain o1 st2 where o: "owned out cs user ns pod st1 = (o1, st2)" by (cases "owned out cs user ns pod st1")
    show ?thesis
      using E False c Inr o
      by (cases o1) (auto intro: checked guarded_remote split: prod.splits option.splits if_splits)
  qed
qed

lemma Finish_steps:
  assumes "Finish out user ns pod st = (r, st')"
  shows "guarded_steps out user ns pod [''touch'', doneFile] st st'"
proof -
  note E = assms [unfolded Finish_def Let_def]
  obtain c st1 where c: "caller out user st = (c, st1)" by (cases "caller out user st")
  show ?thesis
  proof (cases c)
    case (Inl e)
    with E c show ?thesis by (auto intro: known)
  next
    case (Inr cs)
    obtain o1 st2 where o: "owned out cs user ns pod st1 = (o1, st2)" by (cases "owned out cs user ns pod st1")
    show ?thesis
      using E c Inr o by (cases o1) (auto intro: checked guarded_remote split: prod.splits)
  qed
qed

lemma caller_fetches: "caller out user st = (r, st1) \<Longrightarrow>
    \<exists>pre. set pre \<subseteq> {FetchGroups} \<and> r_trace st1 = r_trace st @ pre"
  using caller_trace [of out user st r st1]
  by (metis append_Nil2 empty_set empty_subsetI list.simps(15) order_refl)

lemma guarded_steps_run:
  "guarded_steps out user ns pod cmd st st' \<Longrightarrow> guarded_run out user ns pod cmd st st'"
proof (induction rule: guarded_steps.induct)
  case nothing
  show ?case unfolding guarded_run_def by (intro exI [of _ "[]"]) simp
next
  case (known c st1)
  from caller_fetches [OF known] show ?case unfolding guarded_run_def by blast
next
  case (checked cs st1 err st2)
  obtain pre where pre: "set pre \<subseteq> {FetchGroups}" "r_trace st1 = r_trace st @ pre"
    using caller_fetches [OF checked(1)] by blast
  then have "r_trace st2 = r_trace st @ pre @ [GetPod cs ns pod]" using owned_trace [OF checked(2)] by simp
  with pre(1) caller_ident(1) [OF checked(1)] show ?case unfolding guarded_run_def by blast
next
  case (executed cs st1 st2)
  obtain pre where pre: "set pre \<subseteq> {FetchGroups}" "r_trace st1 = r_trace st @ pre"
    using caller_fetches [OF executed(1)] by blast
  obtain p where "get_pod out (r_trace st @ pre) cs ns pod = Inr p" "owned_running user p"
    using executed(2) pre(2) by (auto simp: owned_None)
  moreover have "r_trace (request (ExecPod cs ns pod debug_container cmd) st2) =
      r_trace st @ pre @ [GetPod cs ns pod, ExecPod cs ns pod debug_container cmd]"
    using owned_trace [OF executed(2)] pre(2) by simp
  ultimately show ?case unfolding guarded_run_def using pre(1) caller_ident(1) [OF executed(1)] by blast
qed

lemma guarded_steps_run_as: "guarded_steps out user ns pod cmd st st' \<Longrightarrow> run_as out user st st'"
proof (induction rule: guarded_steps.induct)
  case (checked cs st1 err st2)
  have "only_as (trim_space user) st1 st2"
    using owned_trace [OF checked(2)] caller_ident(1) [OF checked(1)] by (simp add: only_as_request)
  then show ?case by (rule caller_run_as [OF checked(1)])
next
  case (executed cs st1 st2)
  have "only_as (trim_space user) st1 (request (ExecPod cs ns pod debug_container cmd) st2)"
    using owned_trace [OF executed(2)] caller_ident(1) [OF executed(1)]
    by (auto intro: only_as_trans [OF only_as_request only_as_request])
  then show ?case by (rule caller_run_as [OF executed(1)])
qed (auto intro: run_as_refl caller_run_as)

lemmas Exec_guarded = guarded_steps_run [OF Exec_steps]
lemmas Finish_guarded = guarded_steps_run [OF Finish_steps]
lemmas Exec_run_as = guarded_steps_run_as [OF Exec_steps]
lemmas Finish_run_as = guarded_steps_run_as [OF Finish_steps]

lemma List_pods_run_as:
  assumes "List_pods out user ns st = (r, st')"
  shows "run_as out user st st'"
proof -
  obtain c st1 where c: "caller out user st = (c, st1)" by (cases "caller out user st")
  have "only_as (trim_space user) st1 st'"
  proof (cases c)
    case (Inr cs)
    have "st' = request (ListPods cs ns (LabelDebug @ ''=true'')) st1"
      using assms c Inr by (auto simp: List_pods_def Let_def split: sum.splits)
    moreover have "id_user cs = trim_space user" using caller_ident(1) c Inr by blast
    ultimately show ?thesis by (simp add: only_as_request)
  qed (use assms c in \<open>simp add: List_pods_def\<close>)
  then show ?thesis by (rule caller_run_as [OF c])
qed

lemmas Start_acts_as = run_as_acts_as [OF Start_run_as]
lemmas Exec_acts_as = run_as_acts_as [OF Exec_run_as]
lemmas Finish_acts_as = run_as_acts_as [OF Finish_run_as]
lemmas List_pods_acts_as = run_as_acts_as [OF List_pods_run_as]

subsection \<open>Waiting ends, with a running pod or a reason\<close>

lemma podsRound_longer:
  assumes "podsRound out cs ns job st = (r, st')"
  shows "\<exists>c calls. r_trace st' = r_trace st @ c # calls"
proof -
  let ?st1 = "request (ListPods cs ns (''job-name='' @ job)) st"
  have "only_as (id_user cs) ?st1 st'"
    using assms podRound_only_as by (auto simp: podsRound_def Let_def split: sum.splits list.splits)
  then show ?thesis by (auto simp: only_as_def)
qed

lemma waitRound_longer:
  assumes "waitRound out cs ns job st = (r, st')"
  shows "\<exists>c calls. r_trace st' = r_trace st @ c # calls"
  using assms
proof (cases rule: waitRound_cases)
  case (events st1 why)
  from podsRound_longer [OF events(1)] events_only_as [OF events(2)] show ?thesis by (auto simp: only_as_def)
qed (rule podsRound_longer)


text \<open>
  Waiting ends unless the \<open>select\<close> takes the tick for ever: there is no endless sequence of longer and longer
  traces on none of which it takes Done.
\<close>

definition done_in_the_end :: "('e, 'q) outside \<Rightarrow> bool" where
  "done_in_the_end out \<longleftrightarrow>
     (\<forall>f. (\<forall>i. \<exists>c calls. f (Suc i) = f i @ c # calls) \<longrightarrow> (\<exists>i. select_done out (f i)))"

lemma done_after:
  fixes out :: "('e, 'q) outside"
  assumes "\<forall>t. n \<le> length t \<longrightarrow> select_done out t"
  shows "done_in_the_end out"
  unfolding done_in_the_end_def
proof (intro allI impI)
  fix f :: "nat \<Rightarrow> 'q trace" assume f: "\<forall>i. \<exists>c calls. f (Suc i) = f i @ c # calls"
  have "i \<le> length (f i)" for i
  proof (induction i)
    case (Suc i)
    from f obtain c calls where "f (Suc i) = f i @ c # calls" by blast
    with Suc show ?case by simp
  qed simp
  with assms show "\<exists>i. select_done out (f i)" by blast
qed

lemma waitRunning_returns:
  assumes "done_in_the_end out"
  shows "\<exists>res. waitRunning cfg out cs ns job st = Some res"
proof (rule ccontr)
  assume "\<nexists>res. waitRunning cfg out cs ns job st = Some res"
  then have none: "waitRunning cfg out cs ns job st = None" using not_None_eq by blast
  define next_state where "next_state \<equiv> \<lambda>st. snd (waitRound out cs ns job st)"
  define g where "g \<equiv> \<lambda>i. (next_state ^^ i) st"
  have step: "waitRunning cfg out cs ns job (next_state st') = None \<and> \<not> select_done out (r_trace (next_state st'))"
    if "waitRunning cfg out cs ns job st' = None" for st'
    using that by (subst (asm) waitRunning.simps) (auto simp: next_state_def split: prod.splits option.splits if_splits)
  have "waitRunning cfg out cs ns job (g i) = None" for i
    by (induction i) (simp_all add: g_def none step)
  with step have never: "\<not> select_done out (r_trace (g (Suc i)))" for i by (simp add: g_def)
  have "\<exists>c calls. r_trace (g (Suc (Suc i))) = r_trace (g (Suc i)) @ c # calls" for i
    using waitRound_longer [of out cs ns job "g (Suc i)"] by (simp add: g_def next_state_def prod_eq_iff)
  with assms never show False unfolding done_in_the_end_def by meson
qed

lemma podsRound_running:
  assumes "podsRound out cs ns job st = (Some (Inr p), st')"
  shows "pod_phase p = ''Running'' \<and> (\<exists>pods. list_pods out (r_trace st) cs ns (''job-name='' @ job) = Inr (p # pods))"
  using assms by (auto simp: podsRound_def podRound_def Let_def split: sum.splits list.splits if_splits prod.splits)

lemma waitRound_running:
  assumes "waitRound out cs ns job st = (Some (Inr p), st')"
  shows "pod_phase p = ''Running'' \<and> (\<exists>pods. list_pods out (r_trace st) cs ns (''job-name='' @ job) = Inr (p # pods))"
  using assms by (cases rule: waitRound_cases) (auto dest: podsRound_running split: if_splits)

lemma waitRunning_running:
  assumes "waitRunning cfg out cs ns job st = Some (Inr p, st')"
  shows "pod_phase p = ''Running'' \<and> (\<exists>t pods. list_pods out t cs ns (''job-name='' @ job) = Inr (p # pods))"
proof -
  have "fst res = Inr p \<longrightarrow> pod_phase p = ''Running'' \<and>
      (\<exists>t pods. list_pods out t cs ns (''job-name='' @ job) = Inr (p # pods))"
    if "waitRunning cfg out cs ns job st = Some res" for res
    using that
  proof (induction rule: waitRunning.raw_induct [rotated, consumes 1])
    case (1 rec cfg out cs ns job st res)
    obtain q st1 where w: "waitRound out cs ns job st = (q, st1)" by (cases "waitRound out cs ns job st")
    show ?case
    proof (cases "rec cfg out cs ns job st1 = Some res")
      case True
      from 1(1) [OF this] show ?thesis .
    next
      case False
      have "fst res = Inr p \<Longrightarrow> q = Some (Inr p)" using 1(2) w False by (auto split: option.splits if_splits)
      with w waitRound_running [of out cs ns job st p st1] show ?thesis by blast
    qed
  qed
  from this [OF assms] show ?thesis by simp
qed

subsection \<open>Groups of a user\<close>

lemma map_const_filter: "map (\<lambda>_. g) (filter (\<lambda>x. x = u) us) = replicate (count_list us u) g"
  by (induction us) auto

lemma listed_groups:
  "listed (fold (\<lambda>(g, us) m. fold (\<lambda>u. map_append u g) us m) items m) u =
     listed m u @ concat (map (\<lambda>(g, us). replicate (count_list us u) g) items)"
  by (induction items arbitrary: m)
    (auto simp: listed_group [where f = "\<lambda>x. x", simplified] map_const_filter)

subsection \<open>Properties\<close>

text \<open>A cluster with one debug pod, started by ann, for the witnesses.\<close>

definition sample_pod :: pod where
  "sample_pod =
     \<lparr>pod_name = ''d1'', pod_labels = [(LabelDebug, ''true''), (''job-name'', ''d'')],
      pod_annotations = [(AnnotationRequester, ''ann'')], pod_phase = ''Running'', pod_nodeName = ''n1'',
      pod_created = 0, pod_waiting = []\<rparr>"

definition sample_outside :: "(string, nat) outside" where
  "sample_outside =
     \<lparr>at_time = (\<lambda>t. int (length t) * second), ctx_done = (\<lambda>t. 9 \<le> length t), select_done = (\<lambda>t. 9 \<le> length t),
      fetch_groups = (\<lambda>_. Inr ''json''),
      parse_json = (\<lambda>_. Some (JMap [(''items'', JList [JMap
         [(''metadata'', JMap [(''name'', JStr ''devs'')]), (''users'', JList [JStr ''ann'', JStr ''bob''])]])])),
      new_client = (\<lambda>_. None),
      create_job = (\<lambda>_ _ _ _. Inr \<lparr>cj_name = ''d'', cj_created = 0\<rparr>),
      list_pods = (\<lambda>_ _ _ _. Inr [sample_pod]), get_pod = (\<lambda>_ _ _ _. Inr sample_pod),
      list_events = (\<lambda>_ _ _ _. Inr []), new_executor = (\<lambda>_ _ _ _ _. [None, None, None]),
      stream = (\<lambda>_ _ _ _ _. ([''10.0'', ''.0.1''], None)),
      is_forbidden = (\<lambda>_. False), is_already_exists = (\<lambda>_. False), is_invalid = (\<lambda>_. False),
      status_message = (\<lambda>_. None), api_text = id\<rparr>"

definition sample_config :: "nat config" where
  "sample_config =
     \<lparr>cfg_Enabled = True, cfg_Image = ''img'', cfg_CPU = 200, cfg_Memory = 256, cfg_Lifetime = 15 * minute,
      cfg_TTL = 30 * second, cfg_StartTimeout = minute, cfg_ExecTimeout = minute, cfg_MaxOutput = 6,
      cfg_PriorityClass = []\<rparr>"

text \<open>
  C7. Commands run only where they may: \<open>Exec\<close> and \<open>Finish\<close> execute something only after the
  pod was read as the caller and the reply was a running debug pod whose requester is the user, and
  then exactly one command, in that pod: the shell command with its time limit, or the touch of the
  done file.
\<close>

theorem exec_only_in_own_pod:
  "guarded_run out user ns pod (exec_command (exec_timeout cfg timeout) command) st
     (snd (Exec cfg out user ns pod command timeout st)) \<and>
   guarded_run out user ns pod [''touch'', doneFile] st (snd (Finish out user ns pod st))"
  using Exec_guarded Finish_guarded by (metis prod.collapse)

text \<open>
  C8. Every request an operation makes to the cluster is impersonated as the trimmed user it was given, with
  one exception: where the cached groups have expired, its first request is the list of the groups, read with
  the server's own access. There is at most one such read in an operation and nothing else is
  done with that access.
\<close>

theorem runner_acts_as_caller:
  "(case Start cfg out user ns reason st of None \<Rightarrow> True | Some (_, st') \<Rightarrow> run_as out user st st') \<and>
   run_as out user st (snd (Exec cfg out user ns pod command timeout st)) \<and>
   run_as out user st (snd (Finish out user ns pod st)) \<and>
   run_as out user st (snd (List_pods out user ns st))"
proof (intro conjI)
  show "case Start cfg out user ns reason st of None \<Rightarrow> True | Some (_, st') \<Rightarrow> run_as out user st st'"
    using Start_run_as by (auto split: option.split)
qed (metis Exec_run_as Finish_run_as List_pods_run_as prod.collapse)+

text \<open>
  The server stands in only for people: without a user, for a system user, a service account
  or the cluster administrator every operation fails and makes no request at all.
\<close>

theorem runner_refuses_system_users:
  assumes "\<not> person user"
  shows "\<exists>m. Start cfg out user ns reason st = Some (Inl (Msg m), st) \<and>
    Finish out user ns pod st = (Some (Msg m), st) \<and> List_pods out user ns st = (Inl (Msg m), st) \<and>
    Exec cfg out user ns pod command timeout st =
      (([], Some (Msg (if trim_space command = [] then ''command is empty'' else m))), st)"
proof -
  obtain m where "caller out user st = (Inl (Msg m), st)" using caller_refused [OF assms] by blast
  then show ?thesis by (intro exI [of _ m]) (simp add: Start_def Finish_def List_pods_def Exec_def)
qed

theorem runner_refuses_system_users_witness:
  "\<exists>m. Finish sample_outside '' system:serviceaccount:x:y'' ''ns'' ''d1'' New_runner = (Some (Msg m), New_runner)"
proof -
  have "\<not> person '' system:serviceaccount:x:y''" by code_simp
  from runner_refuses_system_users [OF this, of sample_config sample_outside "''ns''" "[]" New_runner "''d1''" "[]" 0]
  show ?thesis by blast
qed

text \<open>
  C24. The pod of a Job that \<open>Start\<close> creates belongs to the user who asked: a running pod with
  the labels and annotations of the Job's template passes the ownership check for that user and
  for no other.
\<close>

theorem started_pod_is_owned:
  assumes "map_of (pt_labels (job_template (debug_job cfg user reason))) \<subseteq>\<^sub>m map_of (pod_labels p)"
    and "map_of (pt_annotations (job_template (debug_job cfg user reason))) \<subseteq>\<^sub>m map_of (pod_annotations p)"
    and "pod_phase p = ''Running''" and "get_pod out (r_trace st) cs ns pod = Inr p"
  shows "fst (owned out cs user' ns pod st) = None \<longleftrightarrow> user' = user"
proof -
  have "map_of (pod_labels p) LabelDebug = Some ''true''"
    using assms(1) by (auto simp: debug_job_def debug_labels_def Let_def map_le_def)
  moreover have "map_of (pod_annotations p) AnnotationRequester = Some user"
    using assms(2) by (auto simp: debug_job_def Let_def map_le_def)
  ultimately have "owned_running user' p \<longleftrightarrow> user' = user"
    using assms(3) by (auto simp: owned_running_def label_def)
  then show ?thesis using assms(4) owned_None by (metis fst_conv prod.collapse sum.inject(2) owned_trace)
qed

theorem started_pod_is_owned_witness:
  "fst (owned (sample_outside\<lparr>get_pod := \<lambda>_ _ _ _. Inr (sample_pod\<lparr>pod_annotations := [(AnnotationRequester, ''ann''), (AnnotationReason, ''dns'')],
        pod_labels := debug_labels\<rparr>)\<rparr>) \<lparr>id_user = ''bob'', id_groups = []\<rparr> ''bob'' ''ns'' ''d1'' New_runner) = None \<longleftrightarrow>
     ''bob'' = ''ann''"
proof -
  have "truncate_runes ''dns'' 500 = ''dns''" by code_simp
  then show ?thesis
    by (intro started_pod_is_owned [where cfg = sample_config and reason = "''dns''"])
      (simp_all add: debug_job_def Let_def sample_pod_def)
qed

text \<open>
  C25. \<open>Start\<close> ends: unless the \<open>select\<close> of its waiting takes the tick for ever, though the start context
  has expired, it returns, whatever the cluster answers.
\<close>

theorem start_returns:
  assumes "done_in_the_end out"
  shows "\<exists>r st'. Start cfg out user ns reason st = Some (r, st')"
proof -
  obtain c st1 where c: "caller out user st = (c, st1)" by (cases "caller out user st")
  show ?thesis
  proof (cases c)
    case (Inr cs)
    let ?j = "debug_job cfg user reason"
    show ?thesis
    proof (cases "create_job out (r_trace st1) cs ns ?j")
      case k: (Inr created)
      obtain res where "waitRunning cfg out cs ns (cj_name created) (request (CreateJob cs ns ?j) st1) = Some res"
        using waitRunning_returns [OF assms] by blast
      with c Inr k show ?thesis by (cases res; cases "fst res") (simp_all add: Start_def)
    qed (use c Inr in \<open>simp add: Start_def\<close>)
  qed (use c in \<open>simp add: Start_def\<close>)
qed

theorem start_returns_witness:
  "\<exists>r st'. Start sample_config sample_outside ''ann'' ''ns'' ''dns'' New_runner = Some (r, st')"
  by (rule start_returns, rule done_after [of 9]) (simp add: sample_outside_def)

text \<open>
  What \<open>Start\<close> reports is a running pod of the Job it created as the caller: the pod the
  cluster listed first for that Job, in phase Running, with the deadline counted from the creation
  of the Job.
\<close>

theorem start_reports_running_pod:
  assumes "Start cfg out user ns reason st = Some (Inr sd, st')"
  shows "\<exists>cs st1 created p t pods. caller out user st = (Inr cs, st1) \<and>
    create_job out (r_trace st1) cs ns (debug_job cfg user reason) = Inr created \<and>
    list_pods out t cs ns (''job-name='' @ cj_name created) = Inr (p # pods) \<and> pod_phase p = ''Running'' \<and>
    sd_namespace sd = ns \<and> sd_job sd = cj_name created \<and> sd_pod sd = pod_name p \<and>
    sd_expiresAt sd = cj_created created + cfg_Lifetime cfg"
proof -
  obtain cs st1 where c: "caller out user st = (Inr cs, st1)"
    using assms by (auto simp: Start_def split: prod.splits sum.splits)
  let ?st2 = "request (CreateJob cs ns (debug_job cfg user reason)) st1"
  obtain created where k: "create_job out (r_trace st1) cs ns (debug_job cfg user reason) = Inr created"
    using assms c by (auto simp: Start_def Let_def split: sum.splits)
  obtain p where w: "waitRunning cfg out cs ns (cj_name created) ?st2 = Some (Inr p, st')"
    and sd: "sd_namespace sd = ns" "sd_job sd = cj_name created" "sd_pod sd = pod_name p"
      "sd_expiresAt sd = cj_created created + cfg_Lifetime cfg"
    using assms c k by (auto simp: Start_def Let_def split: option.splits prod.splits sum.splits)
  from waitRunning_running [OF w] c k sd show ?thesis by blast
qed

lemma sample_caller: "\<exists>cs st1. caller sample_outside ''ann'' New_runner = (Inr cs, st1)"
proof -
  have u: "trim_space ''ann'' = ''ann''" by code_simp
  show ?thesis
    by (cases "caller sample_outside ''ann'' New_runner")
      (auto simp: caller_def u Let_def impersonating_def sample_outside_def split: prod.splits)
qed

lemma sample_start:
  "\<exists>sd st'. Start sample_config sample_outside ''ann'' ''ns'' ''dns'' New_runner = Some (Inr sd, st')"
proof -
  obtain cs st1 where c: "caller sample_outside ''ann'' New_runner = (Inr cs, st1)" using sample_caller by blast
  have p: "podsRound sample_outside cs ns job st = (Some (Inr sample_pod), request (ListPods cs ns (''job-name='' @ job)) st)"
    for ns job st by (simp add: podsRound_def podRound_def sample_outside_def sample_pod_def)
  show ?thesis
    using c by (simp add: Start_def Let_def sample_outside_def [THEN arg_cong, of create_job] waitRunning.simps waitRound_def p)
qed











theorem start_reports_running_pod_witness:
  "\<exists>sd st' cs st1. \<exists>p :: pod. Start sample_config sample_outside ''ann'' ''ns'' ''dns'' New_runner = Some (Inr sd, st') \<and>
     caller sample_outside ''ann'' New_runner = (Inr cs, st1) \<and> pod_phase p = ''Running'' \<and> sd_pod sd = pod_name p"
proof -
  obtain sd st' where s: "Start sample_config sample_outside ''ann'' ''ns'' ''dns'' New_runner = Some (Inr sd, st')"
    using sample_start by blast
  obtain cs st1 and p :: pod where "caller sample_outside ''ann'' New_runner = (Inr cs, st1)" "pod_phase p = ''Running''"
    "sd_pod sd = pod_name p"
    using start_reports_running_pod [OF s] by blast
  with s show ?thesis by blast
qed

text \<open>
  The output of a command is bounded and what is lost is said: after any sequence of writes
  the buffer holds the first bytes written, up to its limit, and counts exactly the rest.
\<close>

theorem limit_buffer_exact:
  "lb_buf (lb_writes ps (new_limitBuffer n)) = take (nat n) (concat ps) \<and>
   lb_dropped (lb_writes ps (new_limitBuffer n)) = int (length (concat ps) - nat n) \<and>
   lb_String (lb_writes ps (new_limitBuffer n)) =
     (if length (concat ps) \<le> nat n then concat ps
      else take (nat n) (concat ps) @ [CHR 0x0A] @ ''[output truncated: '' @
           itoa (int (length (concat ps) - nat n)) @ '' more bytes; narrow the command]'')"
  using lb_writes_new [of n ps] by (simp add: lb_holds_def lb_String_def)

lemma remoteExec_ok:
  assumes "List.map_filter id (new_executor out (r_trace st) cs ns pod cmd) = []"
    and "stream out (r_trace st) cs ns pod cmd = (chunks, err)"
  shows "remoteExec out cs ns pod cmd buf st =
    (map_option (\<lambda>e. if is_forbidden out (Api e) then explain out (Api e) (''exec into '' @ ns @ ''/'' @ pod) else Api e) err,
     lb_writes chunks buf, request (ExecPod cs ns pod debug_container cmd) st)"
  using assms by (cases err) (simp_all add: remoteExec_def lb_writes_def)

text \<open>
  What a command returns: in an owned pod, a command that ends well gives exactly its output
  (cut at the limit, with the note), one that exits with an error gives its output and the exit
  line as a result, and one that ends because the time is up is an error that quotes the output.
\<close>

theorem exec_result:
  fixes cfg :: "'q config" and out :: "('e, 'q) outside"
  assumes "trim_space command \<noteq> []" and "caller out user st = (Inr cs, st1)"
    and "owned out cs user ns pod st1 = (None, st2)"
    and "List.map_filter id (new_executor out (r_trace st2) cs ns pod (exec_command (exec_timeout cfg timeout) command)) = []"
    and "stream out (r_trace st2) cs ns pod (exec_command (exec_timeout cfg timeout) command) = (chunks, err)"
  shows "fst (Exec cfg out user ns pod command timeout st) =
    (let text = lb_String (lb_writes chunks (new_limitBuffer (cfg_MaxOutput cfg)));
         cmd = exec_command (exec_timeout cfg timeout) command
     in case err of
          None \<Rightarrow> (text, None)
        | Some e \<Rightarrow>
            if ctx_done out (r_trace st2 @ [ExecPod cs ns pod debug_container cmd]) then
              (text, Some (Msg (''timed out after '' @ duration_string (exec_timeout cfg timeout) @
                                ''; output so far:'' @ [CHR 0x0A] @ text)))
            else (text @ [CHR 0x0A] @ ''[exit: '' @
                  error_text (api_text out)
                    (if is_forbidden out (Api e) then explain out (Api e) (''exec into '' @ ns @ ''/'' @ pod) else Api e) @ '']'',
                  None))"
  using assms(1-3) remoteExec_ok [OF assms(4,5)]
  by (cases err) (simp_all add: Exec_def Let_def)

lemma sample_owned: "owned sample_outside cs ''ann'' ns pod st = (None, request (GetPod cs ns pod) st)"
  unfolding owned_None by (simp add: sample_outside_def sample_pod_def owned_running_def label_def LabelDebug_def AnnotationRequester_def)

theorem exec_result_witness:
  "fst (Exec sample_config sample_outside ''ann'' ''ns'' ''d1'' ''dig api'' 0 New_runner) =
     (''10.0.0'' @ [CHR 0x0A] @ ''[output truncated: '' @ itoa 2 @ '' more bytes; narrow the command]'', None)"
proof -
  obtain cs st1 where c: "caller sample_outside ''ann'' New_runner = (Inr cs, st1)" using sample_caller by blast
  have t: "trim_space ''dig api'' \<noteq> []" by code_simp
  have "lb_String (lb_writes [''10.0'', ''.0.1''] (new_limitBuffer 6)) =
      ''10.0.0'' @ [CHR 0x0A] @ ''[output truncated: '' @ itoa 2 @ '' more bytes; narrow the command]''"
    by (simp add: lb_writes_def new_limitBuffer_def lb_Write_def lb_String_def)
  then show ?thesis
    by (subst exec_result [OF t c sample_owned, where chunks = "[''10.0'', ''.0.1'']" and err = None])
      (simp_all add: sample_outside_def List.map_filter_def sample_config_def)
qed

text \<open>
  C37. The time limit of a command is the server's at most: whatever the environment holds, the
  configuration has a positive limit; a request of no, a negative or a longer time gets that limit,
  another its own. The limit written into the command is a whole second or more only when the limit
  itself is: a fraction of a second is written as 0.
\<close>

theorem exec_time_bounded:
  assumes "ConfigFromEnv env = (cfg, errs)"
  shows "0 < exec_timeout cfg timeout \<and> exec_timeout cfg timeout \<le> cfg_ExecTimeout cfg \<and>
    exec_timeout cfg timeout \<in> {timeout, cfg_ExecTimeout cfg} \<and>
    (exec_timeout cfg timeout < 2 ^ 63 \<longrightarrow>
      (whole_seconds (exec_timeout cfg timeout) = 0 \<longleftrightarrow> exec_timeout cfg timeout < second))"
proof -
  let ?t = "exec_timeout cfg timeout"
  have "0 < cfg_ExecTimeout cfg" using config_positive(4) [of env] assms by simp
  then have t: "0 < ?t" "?t \<le> cfg_ExecTimeout cfg" "?t \<in> {timeout, cfg_ExecTimeout cfg}"
    by (auto simp: exec_timeout_def)
  have "whole_seconds ?t = 0 \<longleftrightarrow> ?t < second" if "?t < 2 ^ 63"
  proof (cases "?t < second")
    case True
    with t(1) show ?thesis by (simp add: whole_seconds_exact second_def)
  next
    case False
    then have "1 \<le> ?t div second" by (simp add: second_def)
    with whole_seconds_floor(2) [of ?t] t(1) that False show ?thesis by simp
  qed
  with t show ?thesis by simp
qed

definition sample_env :: "(string, nat) config_env" where
  "sample_env =
     \<lparr>getenv = (\<lambda>k. if k = ''DEBUG_POD_EXEC_TIMEOUT'' then ''500ms'' else []), must_parse = (\<lambda>_. 0),
      parse_quantity = (\<lambda>_. Inr 0), parse_duration = (\<lambda>s. if s = ''500ms'' then Some 500000000 else None)\<rparr>"

theorem exec_time_bounded_witness:
  "whole_seconds (exec_timeout (fst (ConfigFromEnv sample_env)) minute) = 0"
proof -
  obtain cfg errs where c: "ConfigFromEnv sample_env = (cfg, errs)" by (cases "ConfigFromEnv sample_env")
  have "cfg_ExecTimeout (fst (ConfigFromEnv sample_env)) = 500000000"
    by (simp add: ConfigFromEnv_def Let_def case_prod_beta read_duration_def sample_env_def)
  with c have "cfg_ExecTimeout cfg = 500000000" by simp
  with exec_time_bounded [OF c, of minute] c show ?thesis by (simp add: second_def)
qed

text \<open>
  The groups of a user are exactly those of the group objects that list the user, in their
  order, once per listing; a list that cannot be decoded gives nobody a group.
\<close>

theorem parse_groups_exact:
  "listed (parseGroups parse data) user =
     (case parse data of
        None \<Rightarrow> []
      | Some v \<Rightarrow>
          (case json_groups v of
             None \<Rightarrow> []
           | Some items \<Rightarrow> concat (map (\<lambda>(g, us). replicate (count_list us user) g) items)))"
  by (simp add: parseGroups_def listed_groups split: option.split)

text \<open>
  A caller sees only own debug pods: the list has, sorted by name, a row for every debug pod
  of the reply whose requester is the user and for no other.
\<close>

theorem list_own_pods:
  assumes "List_pods out user ns st = (Inr rows, st')"
  shows "sorted (map row_pod rows) \<and>
    (\<exists>cs t pods. list_pods out t cs ns (LabelDebug @ ''=true'') = Inr pods \<and> id_user cs = trim_space user \<and>
       set rows = pod_row ` {p \<in> set pods. label (pod_annotations p) AnnotationRequester = user} \<and>
       length rows = length (filter (\<lambda>p. label (pod_annotations p) AnnotationRequester = user) pods))"
proof -
  obtain cs st1 where c: "caller out user st = (Inr cs, st1)"
    using assms by (auto simp: List_pods_def split: prod.splits sum.splits)
  then obtain pods where p: "list_pods out (r_trace st1) cs ns (LabelDebug @ ''=true'') = Inr pods"
    and r: "rows = sort_slice row_pod (map pod_row (filter (\<lambda>p. label (pod_annotations p) AnnotationRequester = user) pods))"
    using assms by (auto simp: List_pods_def Let_def split: sum.splits)
  have "set rows = pod_row ` {p \<in> set pods. label (pod_annotations p) AnnotationRequester = user}" by (simp add: r)
  then show ?thesis using p caller_ident(1) [OF c] by (auto simp: r)
qed

theorem list_own_pods_witness:
  "\<exists>rows st'. List_pods sample_outside ''ann'' ''ns'' New_runner = (Inr rows, st') \<and> sorted (map row_pod rows)"
proof -
  obtain cs st1 where c: "caller sample_outside ''ann'' New_runner = (Inr cs, st1)" using sample_caller by blast
  then obtain rows st' where l: "List_pods sample_outside ''ann'' ''ns'' New_runner = (Inr rows, st')"
    by (simp add: List_pods_def Let_def sample_outside_def)
  from l list_own_pods [OF l] show ?thesis by blast
qed

end
