(* ===== verification/Tool_Schemas.thy ===== *)
theory Tool_Schemas
  imports Mcp_Args
begin

text \<open>
  The input schemas of tools, the builders of \<open>src/internal/mcp/tools.go\<close>: a schema is the JSON
  object the program builds. Beside them, what a schema promises: the declared properties with
  their types, two argument objects that agree on them, and that a schema is well formed.
\<close>

subsection \<open>The builders\<close>

definition objSchema :: "(string \<times> any) list \<Rightarrow> string list \<Rightarrow> any" where
  "objSchema props required =
     JMap ([(''type'', JStr ''object''), (''properties'', JMap props)] @
           (if length required > 0 then [(''required'', JList (map JStr required))] else []))"

definition schema_str :: "string \<Rightarrow> any" where
  "schema_str desc = JMap [(''type'', JStr ''string''), (''description'', JStr desc)]"

definition strEnum :: "string \<Rightarrow> string list \<Rightarrow> any" where
  "strEnum desc vals =
     JMap [(''type'', JStr ''string''), (''description'', JStr desc), (''enum'', JList (map JStr vals))]"

definition strArray :: "string \<Rightarrow> any" where
  "strArray desc =
     JMap [(''type'', JStr ''array''), (''items'', JMap [(''type'', JStr ''string'')]), (''description'', JStr desc)]"

definition schema_boolean :: "string \<Rightarrow> any" where
  "schema_boolean desc = JMap [(''type'', JStr ''boolean''), (''description'', JStr desc)]"

definition schema_integer :: "string \<Rightarrow> any" where
  "schema_integer desc = JMap [(''type'', JStr ''integer''), (''description'', JStr desc)]"

definition nsDesc :: string where
  "nsDesc = ''Kubernetes namespace.''"

subsection \<open>What a schema promises\<close>

text \<open>Two argument objects that give the same value to every declared property, read at its declared type.\<close>

definition same_argument :: "string \<Rightarrow> string \<Rightarrow> args \<Rightarrow> args \<Rightarrow> bool" where
  "same_argument ty k a b \<longleftrightarrow>
     (if ty = ''string'' then arg_str a k = arg_str b k
      else if ty = ''boolean'' then arg_boolean a k = arg_boolean b k
      else if ty = ''integer'' then (\<forall>d. arg_intOr a k d = arg_intOr b k d)
      else ty = ''array'' \<and> arg_strs a k = arg_strs b k)"

definition declared :: "any \<Rightarrow> (string \<times> string) list" where
  "declared schema =
     (case schema of
        JMap m \<Rightarrow> (case map_of m ''properties'' of
            Some (JMap ps) \<Rightarrow> map (\<lambda>(k, p). (k, case p of JMap q \<Rightarrow> str_field q ''type'' | _ \<Rightarrow> [])) ps
          | _ \<Rightarrow> [])
      | _ \<Rightarrow> [])"

definition same_arguments :: "any \<Rightarrow> args \<Rightarrow> args \<Rightarrow> bool" where
  "same_arguments schema a b \<longleftrightarrow> list_all (\<lambda>(k, ty). same_argument ty k a b) (declared schema)"

lemma same_arguments_objSchema:
  "same_arguments (objSchema ps r) a b \<longleftrightarrow>
     list_all (\<lambda>(k, p). same_argument (case p of JMap q \<Rightarrow> str_field q ''type'' | _ \<Rightarrow> []) k a b) ps"
  by (simp add: same_arguments_def declared_def objSchema_def list_all_iff case_prod_beta)

lemma schema_types:
  "(case schema_str d of JMap q \<Rightarrow> str_field q ''type'' | _ \<Rightarrow> []) = ''string''"
  "(case strEnum d vs of JMap q \<Rightarrow> str_field q ''type'' | _ \<Rightarrow> []) = ''string''"
  "(case strArray d of JMap q \<Rightarrow> str_field q ''type'' | _ \<Rightarrow> []) = ''array''"
  "(case schema_boolean d of JMap q \<Rightarrow> str_field q ''type'' | _ \<Rightarrow> []) = ''boolean''"
  "(case schema_integer d of JMap q \<Rightarrow> str_field q ''type'' | _ \<Rightarrow> []) = ''integer''"
  by (simp_all add: schema_str_def strEnum_def strArray_def schema_boolean_def schema_integer_def str_field_def)

lemma same_argument_types:
  "same_argument ''string'' k a b \<longleftrightarrow> arg_str a k = arg_str b k"
  "same_argument ''boolean'' k a b \<longleftrightarrow> arg_boolean a k = arg_boolean b k"
  "same_argument ''integer'' k a b \<longleftrightarrow> (\<forall>d. arg_intOr a k d = arg_intOr b k d)"
  "same_argument ''array'' k a b \<longleftrightarrow> arg_strs a k = arg_strs b k"
  by (simp_all add: same_argument_def)

lemmas schema_simps = same_arguments_objSchema schema_types same_argument_types

subsection \<open>Well-formed schemas\<close>

definition property_ok :: "string \<times> any \<Rightarrow> bool" where
  "property_ok kp =
     (case snd kp of
        JMap q \<Rightarrow> str_field q ''type'' \<in> {''string'', ''boolean'', ''integer'', ''array''} \<and> str_field q ''description'' \<noteq> []
      | _ \<Rightarrow> False)"

definition schema_ok :: "any \<Rightarrow> bool" where
  "schema_ok schema =
     (case schema of
        JMap m \<Rightarrow> str_field m ''type'' = ''object'' \<and>
          (case map_of m ''properties'' of
             Some (JMap ps) \<Rightarrow> distinct (map fst ps) \<and> list_all property_ok ps \<and>
               (case map_of m ''required'' of
                  Some (JList r) \<Rightarrow> r \<noteq> [] \<and> list_all (\<lambda>x. x \<in> set (map (\<lambda>p. JStr (fst p)) ps)) r
                | Some _ \<Rightarrow> False
                | None \<Rightarrow> True)
           | _ \<Rightarrow> False)
      | _ \<Rightarrow> False)"

lemma schema_ok_objSchema:
  "schema_ok (objSchema ps r) \<longleftrightarrow>
     distinct (map fst ps) \<and> list_all property_ok ps \<and> list_all (\<lambda>x. x \<in> set (map fst ps)) r"
  by (auto simp: schema_ok_def objSchema_def str_field_def list_all_iff image_iff)

lemma property_ok_simps:
  "property_ok (k, schema_str d) \<longleftrightarrow> d \<noteq> []" "property_ok (k, strEnum d vs) \<longleftrightarrow> d \<noteq> []"
  "property_ok (k, strArray d) \<longleftrightarrow> d \<noteq> []" "property_ok (k, schema_boolean d) \<longleftrightarrow> d \<noteq> []"
  "property_ok (k, schema_integer d) \<longleftrightarrow> d \<noteq> []"
  by (simp_all add: property_ok_def schema_str_def strEnum_def strArray_def schema_boolean_def schema_integer_def
      str_field_def)

end
