(* ===== verification/Instructions.thy ===== *)
theory Instructions
  imports Go_Strings
begin

text \<open>
  The instructions both servers give to their clients: the constants \<open>instructions\<close> of
  \<open>src/internal/mcp/server.go\<close> and \<open>debugInstructions\<close> of \<open>src/internal/mcp/debug.go\<close>, line by line, and the
  words of such a text that name a tool.
\<close>

text \<open>The bytes of an em dash.\<close>

definition em_dash :: string where
  "em_dash = [CHR 0xE2, CHR 0x80, CHR 0x94]"

definition instructions_lines :: "string list" where
  "instructions_lines =
    [''You are a Kubernetes/OpenShift observability assistant. All tools are strictly'',
     ''read-only: you inspect cluster state, explain what is wrong, and recommend fixes'',
     ''for the user to apply '' @ em_dash @ '' you never change anything.'',
     [],
     ''Investigation workflows:'',
     ''1. Unhealthy app: list_pods (check phase/ready/restarts/reason) -> get_pod (container'',
     ''   states, conditions, recent events) -> pod_logs (previous=true after crashes).'',
     ''2. Rollout stuck: get_workload (conditions, ready vs desired) -> list_events'',
     ''   (warnings) -> get_quota (quota exhaustion blocks new pods).'',
     ''3. Service unreachable: get_service (selector + endpoint readiness; 0 ready'',
     ''   endpoints = selector mismatch or pods not ready) -> list_pods with the selector.'',
     ''4. Route/ingress (OpenShift): list_routes (host, target service, admitted status).'',
     ''5. Pending pods: get_pod events (FailedScheduling reason), list_nodes/get_node'',
     ''   (pressure conditions, allocatable), get_quota.'',
     ''6. Resource hunger: top_pods (live CPU/memory) vs container requests/limits in get_pod.'',
     ''7. Drain blockers and fragile data services (cluster-wide, cluster-admins):'',
     ''   disruption_audit lists every PDB with its computed status, owning workloads'',
     ''   and overlapping PDBs, plus every RabbitMQ/Redis/quorum-system instance with'',
     ''   its replica count and covering PDBs. list_teams maps teams to admins and'',
     ''   namespaces.'',
     ''8. Before a manifest is applied, or when one was rejected: list_policies with the'',
     ''   namespace and kind gives every admission rule that applies, Enforce (rejects) or'',
     ''   Audit (reports), with its check. Compare the manifest against each; only_if'',
     ''   marks rules that depend on the object'' @ [CHR 0x27] @ ''s labels or name. get_policy_report shows'',
     ''   violations already recorded in the namespace. The authoritative check is a'',
     ''   server-side dry run (oc apply --dry-run=server), which the user runs.'',
     ''9. Anything else (CRDs, OpenShift objects): get_resource / list_resource with the'',
     ''   exact group/version/resource plural. Available read-only beyond the core kinds:'',
     ''   batch (cronjobs, jobs), autoscaling (horizontalpodautoscalers),'',
     ''   autoscaling.k8s.io (verticalpodautoscalers), policy (poddisruptionbudgets),'',
     ''   networking.k8s.io (networkpolicies), projectcontour.io (httpproxies),'',
     ''   cilium.io (ciliumnetworkpolicies, ciliumendpoints), monitoring.coreos.com and'',
     ''   operator.victoriametrics.com scrape/rule DEFINITIONS (servicemonitors,'',
     ''   podmonitors, prometheusrules, probes, vmrules, vmservicescrapes,'',
     ''   vmpodscrapes, vmprobes), argoproj.io'',
     ''   (applications, appprojects, rollouts), cert-manager.io (certificates,'',
     ''   certificaterequests), quota.openshift.io, s3.snappcloud.io, and the main'',
     ''   managed data services (postgresql.cnpg.io, kafka.strimzi.io, rabbitmq.com'',
     ''   rabbitmqclusters, databases.spotahome.com redisfailovers,'',
     ''   psmdb.percona.com).'',
     [],
     ''   Not reachable, by design: secrets; monitoring operator INSTANCE kinds'',
     ''   (Prometheus, Alertmanager, VMAgent, VMAlert '' @ em_dash @ '' their specs can carry inline'',
     ''   credentials); ClusterIssuers; and the long tail of data-service CRDs. If a'',
     ''   kind is refused, say so plainly and suggest '' @ [CHR 0x22] @ ''oc get'' @ [CHR 0x22] @ '' '' @ em_dash @ '' do not retry it.'',
     [],
     ''Tips:'',
     ''- Always pass namespace where the tool accepts it.'',
     ''- get_resource replaces credential-looking VALUES with [redacted] and reports how'',
     ''  many. The field is still shown, so report what you see: '' @ [CHR 0x22] @ ''DB_PASSWORD is set'',
     ''  inline (value hidden)'' @ [CHR 0x22] @ '' is useful and correct; do not say the value is empty or'',
     ''  unset, and never try to obtain it another way.'',
     ''- pod_logs previous=true shows logs from before the last crash '' @ em_dash @ '' essential for'',
     ''  CrashLoopBackOff.'',
     ''- Events expire quickly (~1h); absence of events does not mean absence of problems.'',
     ''- Summaries omit unchanged/healthy detail; drill into a single object for depth.'']"

definition instructions :: string where
  "instructions = join instructions_lines [CHR 0x0A]"

definition debugInstructions_lines :: "string list" where
  "debugInstructions_lines =
    [''Debug pods: a short-lived pod in a tenant namespace, created as the user'',
     ''(impersonated), so their own access decides. Use one only after the user approved it.'',
     ''Flow: debug_pod_start -> debug_pod_exec (one command per call) -> debug_pod_finish.'',
     ''Always finish the pod when done; it is also removed automatically at its deadline.'',
     ''The pod has no extra capabilities: no ping or tcpdump. Use curl, dig, nc, openssl.'']"

definition debugInstructions :: string where
  "debugInstructions = join debugInstructions_lines [CHR 0x0A]"

text \<open>The words of a text with an underscore in them: runs of ASCII letters, digits and underscores.\<close>

definition word_char :: "char \<Rightarrow> bool" where
  "word_char c = (let n = of_char c :: nat in 48 \<le> n \<and> n \<le> 57 \<or> 65 \<le> n \<and> n \<le> 90 \<or> n = 95 \<or> 97 \<le> n \<and> n \<le> 122)"

lemma word_char_bits [simp, code]:
  "word_char (Char b0 b1 b2 b3 b4 b5 b6 b7) \<longleftrightarrow>
     \<not> b7 \<and> (if b6 then (b0 \<or> b1 \<or> b2 \<or> b3 \<or> b4) \<and> \<not> (b4 \<and> b3 \<and> (b2 \<or> b1 \<and> b0)) \<or> b0 \<and> b1 \<and> b2 \<and> b3 \<and> b4 \<and> \<not> b5
             else b5 \<and> b4 \<and> (\<not> b3 \<or> \<not> b2 \<and> \<not> b1))"
  by (cases b0; cases b1; cases b2; cases b3; cases b4; cases b5; cases b6; cases b7; simp add: word_char_def)

fun identifiers :: "string \<Rightarrow> string \<Rightarrow> string list" where
  "identifiers w [] = (if CHR ''_'' \<in> set w then [rev w] else [])"
| "identifiers w (c # s) =
     (if word_char c then identifiers (c # w) s
      else if CHR ''_'' \<in> set w then rev w # identifiers [] s else identifiers [] s)"

lemma identifiers_line:
  "identifiers w (s @ CHR 0x0A # t) = identifiers w s @ identifiers [] t"
  by (induction s arbitrary: w) (simp_all add: word_char_def)

lemma identifiers_join:
  "identifiers [] (join ls [CHR 0x0A]) = concat (map (identifiers []) ls)"
  by (induction ls rule: induct_list012) (simp_all add: identifiers_line)

lemma identifiers_lines:
  "set (identifiers [] (join ls [CHR 0x0A])) \<subseteq> names \<longleftrightarrow> list_all (\<lambda>l. set (identifiers [] l) \<subseteq> names) ls"
  by (auto simp: identifiers_join list_all_iff)

lemma instructions_identifiers:
  "set (identifiers [] instructions) \<subseteq> set
     [''list_pods'', ''get_pod'', ''pod_logs'', ''get_workload'', ''list_events'', ''get_quota'', ''get_service'',
      ''list_routes'', ''list_nodes'', ''get_node'', ''top_pods'', ''disruption_audit'', ''list_teams'', ''list_policies'',
      ''get_policy_report'', ''get_resource'', ''list_resource'', ''only_if'', ''DB_PASSWORD'']"
  unfolding instructions_def identifiers_lines instructions_lines_def list.pred_inject
  by (intro conjI TrueI) (simp_all add: em_dash_def)

lemma debugInstructions_identifiers:
  "set (identifiers [] debugInstructions) \<subseteq> set [''debug_pod_start'', ''debug_pod_exec'', ''debug_pod_finish'']"
  unfolding debugInstructions_def identifiers_lines debugInstructions_lines_def list.pred_inject
  by (intro conjI TrueI) (simp_all add: em_dash_def)

end
