(* ===== verification/Debug_Server.thy ===== *)
theory Debug_Server
  imports Debug_Pod_Props Tool_Schemas Tool_Server Instructions
begin

text \<open>
  The debug endpoint, \<open>src/internal/mcp/debug.go\<close>: the four tools over the \<open>debugRunner\<close>
  interface with their schemas, the wrapper that takes the user from the request header, and the
  bearer token in front of them. The MCP library between the HTTP handler and the tools is not part
  of the repository: it hands the wrapper the text of the arguments and the headers of the request.
  Decoding and rendering JSON are the parameters \<open>decode\<close> and \<open>marshal\<close>, as in \<open>Tool_Server\<close>.
\<close>

subsection \<open>The code\<close>

text \<open>The interface \<open>debugRunner\<close>; a method takes and returns the state of its object.\<close>

record ('s, 'e) debugRunner =
  dr_Start :: "string \<Rightarrow> string \<Rightarrow> string \<Rightarrow> 's \<Rightarrow> (('e goerr, started) fallible \<times> 's) option"
  dr_Exec :: "string \<Rightarrow> string \<Rightarrow> string \<Rightarrow> string \<Rightarrow> duration \<Rightarrow> 's \<Rightarrow> (string \<times> 'e goerr option) \<times> 's"
  dr_Finish :: "string \<Rightarrow> string \<Rightarrow> string \<Rightarrow> 's \<Rightarrow> 'e goerr option \<times> 's"
  dr_List :: "string \<Rightarrow> string \<Rightarrow> 's \<Rightarrow> ('e goerr, podRow list) fallible \<times> 's"

definition runner_of :: "'q config \<Rightarrow> ('e, 'q) outside \<Rightarrow> ('q runner, 'e) debugRunner" where
  "runner_of cfg out =
     \<lparr>dr_Start = Start cfg out, dr_Exec = Exec cfg out, dr_Finish = Finish out, dr_List = List_pods out\<rparr>"

text \<open>What a tool returns: a text as it is, or a value that is rendered as JSON.\<close>

datatype toolOut = OutText string | OutStarted started | OutPods string "podRow list"

type_synonym ('s, 'e) debugRun = "string \<Rightarrow> args \<Rightarrow> 's \<Rightarrow> (('e goerr, toolOut) fallible \<times> 's) option"

definition run_start :: "('s, 'e) debugRunner \<Rightarrow> ('s, 'e) debugRun" where
  "run_start r user a st =
     (case dr_Start r user (arg_str a ''namespace'') (arg_str a ''reason'') st of
        None \<Rightarrow> None
      | Some (Inl err, st') \<Rightarrow> Some (Inl err, st')
      | Some (Inr sd, st') \<Rightarrow> Some (Inr (OutStarted sd), st'))"

definition run_exec :: "('s, 'e) debugRunner \<Rightarrow> ('s, 'e) debugRun" where
  "run_exec r user a st =
     (case dr_Exec r user (arg_str a ''namespace'') (arg_str a ''pod'') (arg_str a ''command'')
             (wrap64 (arg_intOr a ''timeout_seconds'' 0 * second)) st of
        ((text, Some err), st') \<Rightarrow> Some (Inl err, st')
      | ((text, None), st') \<Rightarrow> Some (Inr (OutText text), st'))"

definition run_finish :: "('s, 'e) debugRunner \<Rightarrow> ('s, 'e) debugRun" where
  "run_finish r user a st =
     (case dr_Finish r user (arg_str a ''namespace'') (arg_str a ''pod'') st of
        (Some err, st') \<Rightarrow> Some (Inl err, st')
      | (None, st') \<Rightarrow>
          Some (Inr (OutText ''Finished: the pod exits now and is deleted automatically.''), st'))"

definition run_list :: "('s, 'e) debugRunner \<Rightarrow> ('s, 'e) debugRun" where
  "run_list r user a st =
     (case dr_List r user (arg_str a ''namespace'') st of
        (Inl err, st') \<Rightarrow> Some (Inl err, st')
      | (Inr pods, st') \<Rightarrow> Some (Inr (OutPods (arg_str a ''namespace'') pods), st'))"

record ('s, 'e) debugTool =
  dt_name :: string
  dt_description :: string
  dt_schema :: any
  dt_run :: "('s, 'e) debugRun"

definition tool_debug_pod_start :: "('s, 'e) debugRunner \<Rightarrow> ('s, 'e) debugTool" where
  "tool_debug_pod_start r =
     \<lparr>dt_name = ''debug_pod_start'',
      dt_description =
        ''Start a short-lived debug pod in a namespace, as the user, with network tools (curl, dig, nc). '' @
        ''Only after the user approved it. It sees the network as that namespace'' @ [CHR 0x27] @ ''s pods do.'',
      dt_schema = objSchema
        [(''namespace'', schema_str nsDesc),
         (''reason'', schema_str ''What the pod is for, one sentence; recorded on the pod.'')]
        [''namespace'', ''reason''],
      dt_run = run_start r\<rparr>"

definition tool_debug_pod_exec :: "('s, 'e) debugRunner \<Rightarrow> ('s, 'e) debugTool" where
  "tool_debug_pod_exec r =
     \<lparr>dt_name = ''debug_pod_exec'',
      dt_description =
        ''Run one shell command in a debug pod you started (debug_pod_start) and return its output. '' @
        ''Non-zero exit codes are returned with the output.'',
      dt_schema = objSchema
        [(''namespace'', schema_str nsDesc),
         (''pod'', schema_str ''Debug pod name from debug_pod_start.''),
         (''command'', schema_str (''Shell command, e.g. '' @ [CHR 0x27] @ ''dig +short api.example.svc'' @ [CHR 0x27] @
            '' or '' @ [CHR 0x27] @ ''curl -sv -m 5 http://svc:8080/healthz'' @ [CHR 0x27] @ ''.'')),
         (''timeout_seconds'', schema_integer ''Command time limit (default and max set by the server).'')]
        [''namespace'', ''pod'', ''command''],
      dt_run = run_exec r\<rparr>"

definition tool_debug_pod_finish :: "('s, 'e) debugRunner \<Rightarrow> ('s, 'e) debugTool" where
  "tool_debug_pod_finish r =
     \<lparr>dt_name = ''debug_pod_finish'',
      dt_description =
        ''Finish a debug pod when the investigation is done: it exits and is deleted automatically.'',
      dt_schema = objSchema
        [(''namespace'', schema_str nsDesc), (''pod'', schema_str ''Debug pod name.'')]
        [''namespace'', ''pod''],
      dt_run = run_finish r\<rparr>"

definition tool_debug_pod_list :: "('s, 'e) debugRunner \<Rightarrow> ('s, 'e) debugTool" where
  "tool_debug_pod_list r =
     \<lparr>dt_name = ''debug_pod_list'',
      dt_description = ''List the debug pods you started in a namespace that still exist.'',
      dt_schema = objSchema [(''namespace'', schema_str nsDesc)] [''namespace''],
      dt_run = run_list r\<rparr>"

definition debugTools :: "('s, 'e) debugRunner \<Rightarrow> ('s, 'e) debugTool list" where
  "debugTools r = [tool_debug_pod_start r, tool_debug_pod_exec r, tool_debug_pod_finish r, tool_debug_pod_list r]"

lemmas debug_tool_defs =
  tool_debug_pod_start_def tool_debug_pod_exec_def tool_debug_pod_finish_def tool_debug_pod_list_def

text \<open>The server: what the MCP library serves, and the token.\<close>

record ('s, 'e) DebugServer =
  ds_mcpServer :: "('s, 'e) debugTool mcpServer"
  ds_token :: string

definition NewDebugServer :: "string \<Rightarrow> ('s, 'e) debugRunner \<Rightarrow> string \<Rightarrow> ('s, 'e) DebugServer" where
  "NewDebugServer ver r token =
     \<lparr>ds_mcpServer =
        \<lparr>ms_name = ''openshift-mcp-debug'', ms_version = ver, ms_instructions = debugInstructions,
         ms_tools = debugTools r\<rparr>,
      ds_token = token\<rparr>"

lemma NewDebugServer_simps [simp]:
  "ds_token (NewDebugServer ver r token) = token" "ms_tools (ds_mcpServer (NewDebugServer ver r token)) = debugTools r"
  by (simp_all add: NewDebugServer_def)

text \<open>\<open>http.Header\<close> with canonical keys, and \<open>Get\<close>: the first value, or the empty string.\<close>

type_synonym header = "(string \<times> string list) list"

definition header_get :: "header \<Rightarrow> string \<Rightarrow> string" where
  "header_get h k = (case map_of h k of Some (v # _) \<Rightarrow> v | _ \<Rightarrow> [])"

definition header_user :: "header option \<Rightarrow> string" where
  "header_user extra = (case extra of Some h \<Rightarrow> trim_space (header_get h ''X-Remote-User'') | None \<Rightarrow> [])"

text \<open>
  The handler \<open>add\<close> registers for a tool: a failure becomes an error result, never a failure of
  the call; a value that cannot be rendered becomes the empty text.
\<close>

definition debug_call ::
  "(string \<Rightarrow> args) \<Rightarrow> (toolOut \<Rightarrow> ('e, string) fallible) \<Rightarrow> ('e \<Rightarrow> string) \<Rightarrow> ('s, 'e) debugTool \<Rightarrow> header option \<Rightarrow>
   string \<Rightarrow> 's \<Rightarrow> (callResult \<times> 's) option" where
  "debug_call decode marshal txt t extra raw st =
     (let a = (if length raw > 0 then decode raw else []) in
      case dt_run t (header_user extra) a st of
        None \<Rightarrow> None
      | Some (Inl err, st') \<Rightarrow> Some (errResult (error_text txt err), st')
      | Some (Inr (OutText s), st') \<Rightarrow> Some (textResult s, st')
      | Some (Inr out, st') \<Rightarrow> Some (textResult (case marshal out of Inl _ \<Rightarrow> [] | Inr b \<Rightarrow> b), st'))"

datatype 'r httpReply = Unauthorized | Served 'r

text \<open>
  \<open>HTTPHandler\<close>; \<open>subtle.ConstantTimeCompare\<close> is equality of the byte strings. \<open>inner\<close> is the handler the MCP
  library makes of the server: it answers a request, which may hold several calls of the tools.
\<close>

definition HTTPHandler ::
  "('s, 'e) DebugServer \<Rightarrow> (('s, 'e) debugTool mcpServer \<Rightarrow> header \<Rightarrow> 's \<Rightarrow> ('r \<times> 's) option) \<Rightarrow> header \<Rightarrow> 's \<Rightarrow>
   ('r httpReply \<times> 's) option" where
  "HTTPHandler s inner h st =
     (let want = ''Bearer '' @ ds_token s; got = header_get h ''Authorization'' in
      if ds_token s = [] \<or> got \<noteq> want then Some (Unauthorized, st)
      else map_option (\<lambda>(r, st'). (Served r, st')) (inner (ds_mcpServer s) h st))"

lemma debug_tool_runs:
  "t \<in> set (debugTools r) \<Longrightarrow> dt_run t \<in> {run_start r, run_exec r, run_finish r, run_list r}"
  by (auto simp: debugTools_def debug_tool_defs)

lemma debug_call_cases:
  assumes "debug_call decode marshal txt t extra raw st = Some (res, st')"
  shows "\<exists>out. dt_run t (header_user extra) (if length raw > 0 then decode raw else []) st = Some (out, st')"
proof -
  define a where "a = (if length raw > 0 then decode raw else [])"
  from assms have "\<exists>out. dt_run t (header_user extra) a st = Some (out, st')"
    unfolding debug_call_def Let_def a_def [symmetric] by (auto split: option.splits sum.splits toolOut.splits)
  then show ?thesis by (simp add: a_def)
qed

text \<open>What a request can do: any number of calls of the tools, all with its own headers.\<close>

inductive debug_calls ::
  "(string \<Rightarrow> args) \<Rightarrow> (toolOut \<Rightarrow> ('e, string) fallible) \<Rightarrow> ('e \<Rightarrow> string) \<Rightarrow> ('s, 'e) debugTool list \<Rightarrow> header option \<Rightarrow>
   's \<Rightarrow> 's \<Rightarrow> bool" for decode marshal text_of tools extra where
  no_call: "debug_calls decode marshal text_of tools extra st st"
| next_call: "debug_calls decode marshal text_of tools extra st st1 \<Longrightarrow> t \<in> set tools \<Longrightarrow>
    debug_call decode marshal text_of t extra raw st1 = Some (res, st2) \<Longrightarrow> debug_calls decode marshal text_of tools extra st st2"

subsection \<open>The contract of a runner\<close>

text \<open>
  What the endpoint relies on: whatever a method does, it does as the user it was given, and for a
  user it does not accept it does nothing and fails.
\<close>

locale debug_runner =
  fixes r :: "('s, 'e) debugRunner"
    and effects_of :: "string \<Rightarrow> 's \<Rightarrow> 's \<Rightarrow> bool"
    and accepted :: "string \<Rightarrow> bool"
  assumes start_as: "dr_Start r u ns reason st = Some (res, st') \<Longrightarrow> effects_of u st st'"
    and exec_as: "dr_Exec r u ns pod cmd t st = (res', st') \<Longrightarrow> effects_of u st st'"
    and finish_as: "dr_Finish r u ns pod st = (err, st') \<Longrightarrow> effects_of u st st'"
    and list_as: "dr_List r u ns st = (rows, st') \<Longrightarrow> effects_of u st st'"
    and start_refused: "\<not> accepted u \<Longrightarrow> \<exists>e. dr_Start r u ns reason st = Some (Inl e, st)"
    and exec_refused: "\<not> accepted u \<Longrightarrow> \<exists>e. dr_Exec r u ns pod cmd t st = (([], Some e), st)"
    and finish_refused: "\<not> accepted u \<Longrightarrow> \<exists>e. dr_Finish r u ns pod st = (Some e, st)"
    and list_refused: "\<not> accepted u \<Longrightarrow> \<exists>e. dr_List r u ns st = (Inl e, st)"
begin

lemmas run_defs = run_start_def run_exec_def run_finish_def run_list_def

lemma tool_as:
  assumes "t \<in> set (debugTools r)" and "dt_run t u a st = Some (res, st')"
  shows "effects_of u st st'"
  using debug_tool_runs [OF assms(1)] assms(2)
  by (auto simp: run_defs split: option.splits sum.splits prod.splits dest: start_as exec_as finish_as list_as)

lemma tool_refused:
  assumes "t \<in> set (debugTools r)" and "\<not> accepted u"
  shows "\<exists>e. dt_run t u a st = Some (Inl e, st)"
proof -
  obtain e1 e2 e3 e4 where
    "dr_Start r u (arg_str a ''namespace'') (arg_str a ''reason'') st = Some (Inl e1, st)"
    "dr_Exec r u (arg_str a ''namespace'') (arg_str a ''pod'') (arg_str a ''command'')
       (wrap64 (arg_intOr a ''timeout_seconds'' 0 * second)) st = (([], Some e2), st)"
    "dr_Finish r u (arg_str a ''namespace'') (arg_str a ''pod'') st = (Some e3, st)"
    "dr_List r u (arg_str a ''namespace'') st = (Inl e4, st)"
    using start_refused [OF assms(2)] exec_refused [OF assms(2)] finish_refused [OF assms(2)]
      list_refused [OF assms(2)] by metis
  with debug_tool_runs [OF assms(1)] show ?thesis by (auto simp: run_defs)
qed

lemma call_as:
  "t \<in> set (debugTools r) \<Longrightarrow> debug_call decode marshal txt t extra raw st = Some (res, st') \<Longrightarrow>
   effects_of (header_user extra) st st'"
  by (drule debug_call_cases) (blast intro: tool_as)

lemma endpoint_as:
  assumes "t \<in> set (debugTools r)"
    and "HTTPHandler (NewDebugServer ver r token) (\<lambda>_ h. debug_call decode marshal txt t (Some h) raw) h st = Some (reply, st')"
  shows "reply = Unauthorized \<and> st' = st \<or>
    token \<noteq> [] \<and> header_get h ''Authorization'' = ''Bearer '' @ token \<and> effects_of (header_user (Some h)) st st'"
proof (cases "token = [] \<or> header_get h ''Authorization'' \<noteq> ''Bearer '' @ token")
  case False
  with assms(2) obtain res where "debug_call decode marshal txt t (Some h) raw st = Some (res, st')"
    by (auto simp: HTTPHandler_def Let_def)
  with call_as [OF assms(1)] False show ?thesis by blast
qed (use assms(2) in \<open>auto simp: HTTPHandler_def Let_def\<close>)

lemma endpoint_refused:
  assumes "t \<in> set (debugTools r)" and "\<not> accepted (header_user (Some h))"
  shows "HTTPHandler (NewDebugServer ver r token) (\<lambda>_ h. debug_call decode marshal txt t (Some h) raw) h st = Some (Unauthorized, st) \<or>
    (\<exists>m. HTTPHandler (NewDebugServer ver r token) (\<lambda>_ h. debug_call decode marshal txt t (Some h) raw) h st = Some (Served (errResult m), st))"
  using tool_refused [OF assms(1,2), of "if length raw > 0 then decode raw else []" st]
  by (auto simp: HTTPHandler_def debug_call_def Let_def)

end

lemma runner_of_simps [simp]:
  "dr_Start (runner_of cfg out) = Start cfg out" "dr_Exec (runner_of cfg out) = Exec cfg out"
  "dr_Finish (runner_of cfg out) = Finish out" "dr_List (runner_of cfg out) = List_pods out"
  by (simp_all add: runner_of_def)

lemma runner_refusals:
  assumes "\<not> person u"
  shows "\<exists>e. Start cfg out u ns reason st = Some (Inl e, st)"
    and "\<exists>e. Exec cfg out u ns pod cmd t st = (([], Some e), st)"
    and "\<exists>e. Finish out u ns pod st = (Some e, st)"
    and "\<exists>e. List_pods out u ns st = (Inl e, st)"
proof -
  obtain m where "caller out u st = (Inl (Msg m), st)" using caller_refused [OF assms] by blast
  then show "\<exists>e. Start cfg out u ns reason st = Some (Inl e, st)"
    "\<exists>e. Exec cfg out u ns pod cmd t st = (([], Some e), st)"
    "\<exists>e. Finish out u ns pod st = (Some e, st)" "\<exists>e. List_pods out u ns st = (Inl e, st)"
    by (simp_all add: Start_def Exec_def Finish_def List_pods_def)
qed

interpretation dbg: debug_runner "runner_of cfg out" "\<lambda>u. acts_as (trim_space u)" person
  for cfg :: "'q config" and out :: "('e, 'q) outside"
  by unfold_locales
    (simp_all add: Start_acts_as Exec_acts_as Finish_acts_as List_pods_acts_as runner_refusals)

lemma debug_calls_as:
  "debug_calls decode marshal txt (debugTools (runner_of cfg out)) extra st st' \<Longrightarrow>
   acts_as (trim_space (header_user extra)) st st'"
  by (induction rule: debug_calls.induct) (auto intro: acts_as_refl acts_as_trans dest: dbg.call_as)

lemma debug_calls_refused:
  assumes "debug_calls decode marshal txt (debugTools (runner_of cfg out)) extra st st'" and "\<not> person (header_user extra)"
  shows "st' = st"
  using assms(1)
proof (induction rule: debug_calls.induct)
  case (next_call st st1 t raw res st2)
  from debug_call_cases [OF next_call.hyps(3)] dbg.tool_refused [OF next_call.hyps(2) assms(2)]
  have "st2 = st1" by (metis option.inject prod.inject)
  with next_call.IH show ?case by simp
qed simp

subsection \<open>Properties\<close>

text \<open>
  The debug endpoint acts only for the holder of its token and only as the user the request
  names: a request without the exact token is refused and changes nothing; with it, every request a
  tool makes to the cluster is impersonated as the user of the header, or is the list of the groups, which is
  read with the server's own access.
\<close>

theorem debug_endpoint_acts_as_named_user:
  assumes "t \<in> set (debugTools (runner_of cfg out))"
    and "HTTPHandler (NewDebugServer ver (runner_of cfg out) token) (\<lambda>_ h. debug_call decode marshal txt t (Some h) raw) h st = Some (reply, st')"
  shows "reply = Unauthorized \<and> st' = st \<or>
    token \<noteq> [] \<and> header_get h ''Authorization'' = ''Bearer '' @ token \<and>
    acts_as (trim_space (header_user (Some h))) st st'"
  by (rule dbg.endpoint_as [OF assms])

text \<open>
  Who names no person gets nothing done: with no \<open>X-Remote-User\<close>, or a system user in it,
  every debug tool answers with an error (or the request is unauthorized) and the cluster is not
  asked anything.
\<close>

theorem debug_endpoint_refuses_non_persons:
  assumes "t \<in> set (debugTools (runner_of cfg out))" and "\<not> person (header_user (Some h))"
  shows "HTTPHandler (NewDebugServer ver (runner_of cfg out) token) (\<lambda>_ h. debug_call decode marshal txt t (Some h) raw) h st = Some (Unauthorized, st) \<or>
    (\<exists>m. HTTPHandler (NewDebugServer ver (runner_of cfg out) token) (\<lambda>_ h. debug_call decode marshal txt t (Some h) raw) h st = Some (Served (errResult m), st))"
  by (rule dbg.endpoint_refused [OF assms])

definition sample_header :: "string \<Rightarrow> header" where
  "sample_header user = [(''Authorization'', [''Bearer t0k'']), (''X-Remote-User'', [user])]"

theorem debug_endpoint_acts_as_named_user_witness:
  "\<exists>reply st'. HTTPHandler (NewDebugServer ''dev'' (runner_of sample_config sample_outside) ''t0k'') (\<lambda>_ h. debug_call (\<lambda>_. []) (\<lambda>_. Inr ''[]'') id
         (tool_debug_pod_list (runner_of sample_config sample_outside)) (Some h) ''{}'')
       (sample_header ''ann'') New_runner = Some (reply, st') \<and> acts_as ''ann'' New_runner st'"
proof -
  let ?t = "tool_debug_pod_list (runner_of sample_config sample_outside)"
  have u: "trim_space (header_user (Some (sample_header ''ann''))) = ''ann''" by code_simp
  obtain cs st1 where c: "caller sample_outside ''ann'' New_runner = (Inr cs, st1)" using sample_caller by blast
  have h: "header_user (Some (sample_header ''ann'')) = ''ann''" by code_simp
  obtain reply st' where e: "HTTPHandler (NewDebugServer ''dev'' (runner_of sample_config sample_outside) ''t0k'') (\<lambda>_ h. debug_call (\<lambda>_. []) (\<lambda>_. Inr ''[]'') id ?t (Some h) ''{}'')
      (sample_header ''ann'') New_runner = Some (Served reply, st')"
    using c h by (simp add: HTTPHandler_def debug_call_def tool_debug_pod_list_def run_list_def List_pods_def
        sample_outside_def sample_header_def header_get_def)
  have "?t \<in> set (debugTools (runner_of sample_config sample_outside))" by (simp add: debugTools_def)
  from debug_endpoint_acts_as_named_user [OF this e] u e show ?thesis by auto
qed

theorem debug_endpoint_refuses_non_persons_witness:
  "\<exists>m. HTTPHandler (NewDebugServer ''dev'' (runner_of sample_config sample_outside) ''t0k'') (\<lambda>_ h. debug_call (\<lambda>_. []) (\<lambda>_. Inr ''[]'') id
         (tool_debug_pod_finish (runner_of sample_config sample_outside)) (Some h) ''{}'')
       (sample_header ''kube:admin'') New_runner = Some (Served (errResult m), New_runner)"
proof -
  have p: "\<not> person (header_user (Some (sample_header ''kube:admin'')))" by code_simp
  have t: "tool_debug_pod_finish (runner_of sample_config sample_outside) \<in>
      set (debugTools (runner_of sample_config sample_outside))" by (simp add: debugTools_def)
  from debug_endpoint_refuses_non_persons [OF t p, of "''dev''" "''t0k''" "\<lambda>_. []" "\<lambda>_. Inr ''[]''" id "''{}''" New_runner]
  show ?thesis by (auto simp: HTTPHandler_def sample_header_def header_get_def)
qed

subsection \<open>Schemas\<close>

lemma debug_runs_cong:
  "arg_str a ''namespace'' = arg_str b ''namespace'' \<Longrightarrow> arg_str a ''reason'' = arg_str b ''reason'' \<Longrightarrow>
     run_start r u a st = run_start r u b st"
  "arg_str a ''namespace'' = arg_str b ''namespace'' \<Longrightarrow> arg_str a ''pod'' = arg_str b ''pod'' \<Longrightarrow>
     arg_str a ''command'' = arg_str b ''command'' \<Longrightarrow>
     arg_intOr a ''timeout_seconds'' 0 = arg_intOr b ''timeout_seconds'' 0 \<Longrightarrow> run_exec r u a st = run_exec r u b st"
  "arg_str a ''namespace'' = arg_str b ''namespace'' \<Longrightarrow> arg_str a ''pod'' = arg_str b ''pod'' \<Longrightarrow>
     run_finish r u a st = run_finish r u b st"
  "arg_str a ''namespace'' = arg_str b ''namespace'' \<Longrightarrow> run_list r u a st = run_list r u b st"
  by (simp_all only: run_start_def run_exec_def run_finish_def run_list_def)

text \<open>
  The debug tools are well typed: different names, well-formed schemas, and every tool does the same
  for argument objects that agree on what its schema declares.
\<close>

theorem debug_tools_well_typed:
  "distinct (map dt_name (debugTools r)) \<and> list_all (\<lambda>t. schema_ok (dt_schema t)) (debugTools r)"
  by (simp add: debugTools_def debug_tool_defs schema_ok_objSchema property_ok_simps nsDesc_def)

theorem debug_tools_read_declared_arguments:
  assumes "t \<in> set (debugTools r)" and "same_arguments (dt_schema t) a b"
  shows "dt_run t u a st = dt_run t u b st"
proof -
  have "t \<in> {tool_debug_pod_start r, tool_debug_pod_exec r, tool_debug_pod_finish r, tool_debug_pod_list r}"
    using assms(1) by (simp add: debugTools_def)
  then consider "t = tool_debug_pod_start r" | "t = tool_debug_pod_exec r" | "t = tool_debug_pod_finish r"
    | "t = tool_debug_pod_list r" by blast
  then show ?thesis
  proof cases
    case 1
    with assms(2) have "run_start r u a st = run_start r u b st"
      by (intro debug_runs_cong) (simp_all add: tool_debug_pod_start_def schema_simps)
    with 1 show ?thesis by (simp add: tool_debug_pod_start_def)
  next
    case 2
    with assms(2) have "run_exec r u a st = run_exec r u b st"
      by (intro debug_runs_cong) (simp_all add: tool_debug_pod_exec_def schema_simps)
    with 2 show ?thesis by (simp add: tool_debug_pod_exec_def)
  next
    case 3
    with assms(2) have "run_finish r u a st = run_finish r u b st"
      by (intro debug_runs_cong) (simp_all add: tool_debug_pod_finish_def schema_simps)
    with 3 show ?thesis by (simp add: tool_debug_pod_finish_def)
  next
    case 4
    with assms(2) have "run_list r u a st = run_list r u b st"
      by (intro debug_runs_cong) (simp_all add: tool_debug_pod_list_def schema_simps)
    with 4 show ?thesis by (simp add: tool_debug_pod_list_def)
  qed
qed

text \<open>Every tool the instructions of the endpoint name is one of its tools.\<close>

lemma debug_instructions_name_tools:
  "set (identifiers [] (ms_instructions (ds_mcpServer (NewDebugServer ver r token)))) \<subseteq>
   set (map dt_name (ms_tools (ds_mcpServer (NewDebugServer ver r token))))"
  using debugInstructions_identifiers by (auto simp: NewDebugServer_def debugTools_def debug_tool_defs)

end
