(* ===== verification/Go_Json.thy ===== *)
theory Go_Json
  imports Go_Values Go_Time
begin

text \<open>
  \<open>encoding/json\<close>'s \<open>Marshal\<close> on decoded values, as the admission policy tools use it: object
  keys in byte order, no white space, the escapes of \<open>Marshal\<close> (the HTML characters and the two
  line separators included). Strings are valid UTF-8, so no replacement character is written. The
  shortest decimal text of a float64 is the argument \<open>floatText\<close>.
\<close>

definition hex_digit :: "nat \<Rightarrow> char" where
  "hex_digit n = char_of (if n < 10 then 48 + n else 87 + n)"

definition json_escape :: "char \<Rightarrow> string" where
  "json_escape c =
     (if c = CHR 0x22 \<or> c = CHR 0x5C then [CHR 0x5C, c]
      else if c = CHR 0x08 then [CHR 0x5C, CHR ''b'']
      else if c = CHR 0x0C then [CHR 0x5C, CHR ''f'']
      else if c = CHR 0x0A then [CHR 0x5C, CHR ''n'']
      else if c = CHR 0x0D then [CHR 0x5C, CHR ''r'']
      else if c = CHR 0x09 then [CHR 0x5C, CHR ''t'']
      else if byte c < 32 \<or> c = CHR ''<'' \<or> c = CHR ''>'' \<or> c = CHR ''&'' then
        [CHR 0x5C, CHR ''u'', CHR ''0'', CHR ''0'', hex_digit (byte c div 16), hex_digit (byte c mod 16)]
      else [c])"

definition line_separator :: string where
  "line_separator = [CHR 0xE2, CHR 0x80, CHR 0xA8]"

definition paragraph_separator :: string where
  "paragraph_separator = [CHR 0xE2, CHR 0x80, CHR 0xA9]"

fun json_chars :: "string \<Rightarrow> string" where
  "json_chars [] = []"
| "json_chars (c # cs) =
     (if has_prefix (c # cs) line_separator then CHR 0x5C # ''u2028'' @ json_chars (drop 2 cs)
      else if has_prefix (c # cs) paragraph_separator then CHR 0x5C # ''u2029'' @ json_chars (drop 2 cs)
      else json_escape c @ json_chars cs)"

definition json_quote :: "string \<Rightarrow> string" where
  "json_quote s = CHR 0x22 # json_chars s @ [CHR 0x22]"

lemma any_size_entry [termination_simp]: "(k, v) \<in> set m \<Longrightarrow> size v < Suc (size_list (size_prod size size) m)"
  by (induction m) (auto simp: less_Suc_eq_le)

lemma any_size_list [termination_simp]: "(k, v) \<in> set m \<Longrightarrow> size v < Suc (size_list (size_prod (\<lambda>x. 0) size) m)"
  by (induction m) (auto simp: less_Suc_eq_le)

fun json_Marshal :: "(rat \<Rightarrow> string) \<Rightarrow> any \<Rightarrow> string" where
  "json_Marshal floatText JNull = ''null''"
| "json_Marshal floatText (JBool b) = (if b then ''true'' else ''false'')"
| "json_Marshal floatText (JInt i) = itoa i"
| "json_Marshal floatText (JFloat q) = floatText q"
| "json_Marshal floatText (JStr s) = json_quote s"
| "json_Marshal floatText (JList l) = CHR ''['' # join (map (json_Marshal floatText) l) '','' @ '']''"
| "json_Marshal floatText (JMap m) =
     CHR ''{'' # join (map (\<lambda>(k, t). json_quote k @ '':'' @ t)
        (sort_slice fst (map (\<lambda>(k, v). (k, json_Marshal floatText v)) m))) '','' @ ''}''"

lemma json_Marshal_example:
  "json_Marshal (\<lambda>_. []) (JMap [(''b'', JList [JInt 3, JNull]), (''a'', JStr ''<x'')]) =
     CHR ''{'' # json_quote ''a'' @ '':'' @ json_quote ''<x'' @ '','' @ json_quote ''b'' @ '':[3,null]}''"
  by code_simp

end
