(* ===== verification/Go_Path.thy ===== *)
theory Go_Path
  imports Go_Strings
begin

text \<open>
  \<open>filepath.Match\<close> of Go's standard library on Unix, as the admission policy tools use it for
  namespace patterns, with the UTF-8 decoding it does. \<open>None\<close> is \<open>ErrBadPattern\<close>. The
  algorithm is greedy: after a star it takes the first place where the next chunk fits and never
  goes back. \<open>glob\<close> is the documented meaning of stars and question marks, with backtracking;
  the two agree on every name without a slash and without bytes above ASCII.
\<close>

subsection \<open>The code\<close>

definition continuation :: "char \<Rightarrow> bool" where
  "continuation c \<longleftrightarrow> 128 \<le> byte c \<and> byte c < 192"

text \<open>\<open>utf8.DecodeRuneInString\<close>: the code point and its width; U+FFFD of width 1 for a bad byte.\<close>

definition rune_error :: nat where
  "rune_error = 65533"

fun decode_rune :: "string \<Rightarrow> nat \<times> nat" where
  "decode_rune [] = (rune_error, 0)"
| "decode_rune (a # s) =
     (let x = byte a in
      if x < 128 then (x, 1)
      else if 194 \<le> x \<and> x < 224 then
        (case s of b # _ \<Rightarrow>
             if continuation b then ((x - 192) * 64 + (byte b - 128), 2) else (rune_error, 1)
         | _ \<Rightarrow> (rune_error, 1))
      else if 224 \<le> x \<and> x < 240 then
        (case s of b # c # _ \<Rightarrow>
             if continuation b \<and> continuation c \<and> (x = 224 \<longrightarrow> 160 \<le> byte b) \<and> (x = 237 \<longrightarrow> byte b < 160)
             then ((x - 224) * 4096 + (byte b - 128) * 64 + (byte c - 128), 3) else (rune_error, 1)
         | _ \<Rightarrow> (rune_error, 1))
      else if 240 \<le> x \<and> x < 245 then
        (case s of b # c # d # _ \<Rightarrow>
             if continuation b \<and> continuation c \<and> continuation d \<and>
                (x = 240 \<longrightarrow> 144 \<le> byte b) \<and> (x = 244 \<longrightarrow> byte b < 144)
             then ((x - 240) * 262144 + (byte b - 128) * 4096 + (byte c - 128) * 64 + (byte d - 128), 4)
             else (rune_error, 1)
         | _ \<Rightarrow> (rune_error, 1))
      else (rune_error, 1))"

lemma decode_rune_width: "s \<noteq> [] \<Longrightarrow> 0 < snd (decode_rune s)"
  by (cases s) (auto simp: Let_def split: list.split)

text \<open>\<open>getEsc\<close>: one possibly escaped code point of a character class.\<close>

definition getEsc :: "string \<Rightarrow> (nat \<times> string) option" where
  "getEsc chunk =
     (case chunk of
        [] \<Rightarrow> None
      | c # t \<Rightarrow>
          if c = CHR ''-'' \<or> c = CHR '']'' then None
          else let u = (if c = CHR 0x5C then t else chunk) in
            if u = [] then None
            else case decode_rune u of (r, n) \<Rightarrow>
              if (r = rune_error \<and> n = 1) \<or> drop n u = [] then None else Some (r, drop n u))"

lemma getEsc_shorter: "getEsc chunk = Some (r, rest) \<Longrightarrow> length rest < length chunk \<and> rest \<noteq> []"
  using decode_rune_width by (auto simp: getEsc_def Let_def split: list.splits if_splits prod.splits)

text \<open>The ranges of a character class, up to its closing bracket.\<close>

function classRanges :: "nat \<Rightarrow> bool \<Rightarrow> nat \<Rightarrow> string \<Rightarrow> (bool \<times> string) option" where
  "classRanges r m nrange chunk =
     (if chunk \<noteq> [] \<and> hd chunk = CHR '']'' \<and> nrange > 0 then Some (m, tl chunk)
      else case getEsc chunk of
        None \<Rightarrow> None
      | Some (lo, chunk1) \<Rightarrow>
          if hd chunk1 = CHR ''-'' then
            (case getEsc (tl chunk1) of
               None \<Rightarrow> None
             | Some (hi, chunk2) \<Rightarrow> classRanges r (m \<or> (lo \<le> r \<and> r \<le> hi)) (nrange + 1) chunk2)
          else classRanges r (m \<or> lo = r) (nrange + 1) chunk1)"
  by pat_completeness auto
termination
proof (relation "measure (\<lambda>(_, _, _, chunk). length chunk)")
  fix r m nrange chunk x lo chunk1 y hi chunk2
  assume "getEsc chunk = Some x" "(lo, chunk1) = x" "getEsc (tl chunk1) = Some y" "(hi, chunk2) = y"
  then show "((r, m \<or> lo \<le> r \<and> r \<le> hi, nrange + 1, chunk2), r, m, nrange, chunk)
      \<in> measure (\<lambda>(_, _, _, chunk). length chunk)"
    using getEsc_shorter [of chunk lo chunk1] getEsc_shorter [of "tl chunk1" hi chunk2] by auto
qed (auto dest: getEsc_shorter)

declare classRanges.simps [simp del]

lemma classRanges_shorter:
  "classRanges r m nrange chunk = Some (m', rest) \<Longrightarrow> length rest < length chunk"
proof (induction r m nrange chunk rule: classRanges.induct)
  case (1 r m nrange chunk)
  show ?case
  proof (cases "chunk \<noteq> [] \<and> hd chunk = CHR '']'' \<and> nrange > 0")
    case True
    with 1(3) show ?thesis by (auto simp: classRanges.simps [of r m nrange chunk])
  next
    case False
    with 1(3) obtain lo chunk1 where g: "getEsc chunk = Some (lo, chunk1)"
      by (auto simp: classRanges.simps [of r m nrange chunk] split: option.splits if_splits)
    show ?thesis
    proof (cases "hd chunk1 = CHR ''-''")
      case True
      with False g 1(3) obtain hi chunk2 where h: "getEsc (tl chunk1) = Some (hi, chunk2)"
        "classRanges r (m \<or> (lo \<le> r \<and> r \<le> hi)) (nrange + 1) chunk2 = Some (m', rest)"
        by (auto simp: classRanges.simps [of r m nrange chunk] split: option.splits)
      from 1(1) [OF False g refl True h(1) refl h(2)] getEsc_shorter [OF g] getEsc_shorter [OF h(1)]
      show ?thesis by auto
    next
      case no: False
      with False g 1(3) have "classRanges r (m \<or> lo = r) (nrange + 1) chunk1 = Some (m', rest)"
        by (auto simp: classRanges.simps [of r m nrange chunk])
      from 1(2) [OF False g refl no this] getEsc_shorter [OF g] show ?thesis by auto
    qed
  qed
qed

text \<open>\<open>matchChunk\<close>: a chunk holds no star; the rest of the name after it, and whether it fits.\<close>

function matchChunk :: "bool \<Rightarrow> string \<Rightarrow> string \<Rightarrow> (string \<times> bool) option" where
  "matchChunk failed [] s = Some (if failed then ([], False) else (s, True))"
| "matchChunk failed0 (c # chunk) s =
     (let failed = (failed0 \<or> s = []) in
      if c = CHR ''['' then
        let r = (if failed then 0 else fst (decode_rune s));
            s' = (if failed then s else drop (snd (decode_rune s)) s);
            negated = (chunk \<noteq> [] \<and> hd chunk = CHR ''^'');
            chunk' = (if negated then tl chunk else chunk)
        in (case classRanges r False 0 chunk' of
              None \<Rightarrow> None
            | Some (m, rest) \<Rightarrow> matchChunk (failed \<or> m = negated) rest s')
      else if c = CHR ''?'' then
        matchChunk (failed \<or> hd s = CHR ''/'') chunk
          (if failed then s else drop (snd (decode_rune s)) s)
      else if c = CHR 0x5C then
        (case chunk of
           [] \<Rightarrow> None
         | d # chunk' \<Rightarrow> matchChunk (failed \<or> d \<noteq> hd s) chunk' (if failed then s else tl s))
      else matchChunk (failed \<or> c \<noteq> hd s) chunk (if failed then s else tl s))"
  by pat_completeness auto
termination
  by (relation "measure (\<lambda>(_, chunk, _). length chunk)")
    (auto dest!: classRanges_shorter split: if_splits simp: less_Suc_eq_le intro: le_trans [of _ "length (tl _)"])

text \<open>\<open>scanChunk\<close>: leading stars, then the chunk up to the next star outside a class.\<close>

fun scanBody :: "bool \<Rightarrow> string \<Rightarrow> string \<times> string" where
  "scanBody inrange [] = ([], [])"
| "scanBody inrange (c # cs) =
     (if c = CHR 0x5C then
        (case cs of
           [] \<Rightarrow> ([c], [])
         | d # ds \<Rightarrow> (case scanBody inrange ds of (chunk, rest) \<Rightarrow> (c # d # chunk, rest)))
      else if c = CHR ''*'' \<and> \<not> inrange then ([], c # cs)
      else (case scanBody (if c = CHR ''['' then True else if c = CHR '']'' then False else inrange) cs of
              (chunk, rest) \<Rightarrow> (c # chunk, rest)))"

definition scanChunk :: "string \<Rightarrow> bool \<times> string \<times> string" where
  "scanChunk pattern =
     (pattern \<noteq> [] \<and> hd pattern = CHR ''*'', scanBody False (dropWhile (\<lambda>c. c = CHR ''*'') pattern))"

definition class_state :: "bool \<Rightarrow> char \<Rightarrow> bool" where
  "class_state inrange c = (if c = CHR ''['' then True else if c = CHR '']'' then False else inrange)"

lemma scanBody_plain:
  "c \<noteq> CHR 0x5C \<Longrightarrow> c \<noteq> CHR ''*'' \<or> inrange \<Longrightarrow>
   scanBody inrange (c # cs) = (c # fst (scanBody (class_state inrange c) cs), snd (scanBody (class_state inrange c) cs))"
  unfolding scanBody.simps(2) class_state_def by (simp add: case_prod_beta)

lemma scanBody_escape:
  "scanBody inrange (CHR 0x5C # d # ds) = (CHR 0x5C # d # fst (scanBody inrange ds), snd (scanBody inrange ds))"
  "scanBody inrange [CHR 0x5C] = ([CHR 0x5C], [])"
  unfolding scanBody.simps(2) by (simp_all add: case_prod_beta)

lemma scanBody_star: "scanBody False (CHR ''*'' # cs) = ([], CHR ''*'' # cs)"
  unfolding scanBody.simps(2) by simp

lemma scanBody_cases:
  obtains "c = CHR 0x5C" "cs = []" | d ds where "c = CHR 0x5C" "cs = d # ds"
  | "c = CHR ''*''" "\<not> inrange" | "c \<noteq> CHR 0x5C" "c \<noteq> CHR ''*'' \<or> inrange"
  by (cases "c = CHR 0x5C"; cases cs) blast+

declare scanBody.simps(2) [simp del]
lemmas scanBody_simps = scanBody_plain scanBody_escape scanBody_star

lemma scanBody_append: "fst (scanBody b s) @ snd (scanBody b s) = s"
proof (induction b s rule: scanBody.induct)
  case (2 inrange c cs)
  show ?case
  proof (cases rule: scanBody_cases [where c = c and cs = cs and inrange = inrange])
    case 4
    with 2(2) show ?thesis by (auto simp: scanBody_plain class_state_def)
  qed (use 2(1) in \<open>simp_all add: scanBody_simps\<close>)
qed simp

lemma scanBody_nonempty: "c \<noteq> CHR ''*'' \<Longrightarrow> fst (scanBody False (c # s)) \<noteq> []"
  by (cases rule: scanBody_cases [where c = c and cs = s and inrange = False]) (simp_all add: scanBody_simps)

lemma scanChunk_shorter:
  "pattern \<noteq> [] \<Longrightarrow> scanChunk pattern = (star, chunk, rest) \<Longrightarrow> length rest < length pattern"
proof -
  assume a: "pattern \<noteq> []" "scanChunk pattern = (star, chunk, rest)"
  let ?d = "dropWhile (\<lambda>c. c = CHR ''*'') pattern"
  from a have b: "?d = chunk @ rest" using scanBody_append [of False ?d] by (simp add: scanChunk_def)
  show "length rest < length pattern"
  proof (cases "hd pattern = CHR ''*''")
    case True
    with a(1) have "length ?d < length pattern"
      by (cases pattern) (auto simp: less_Suc_eq_le length_dropWhile_le)
    with b show ?thesis by simp
  next
    case False
    with a(1) obtain c p where p: "pattern = c # p" "c \<noteq> CHR ''*''" by (cases pattern) auto
    then have "?d = pattern" by simp
    moreover have "chunk \<noteq> []" using a(2) p scanBody_nonempty [OF p(2), of p] by (auto simp: scanChunk_def)
    ultimately show ?thesis using b by auto
  qed
qed

text \<open>The search after a star: skip one byte more until the chunk fits; a star skips no slash.\<close>

fun skipTo :: "string \<Rightarrow> bool \<Rightarrow> string \<Rightarrow> string option option" where
  "skipTo chunk final [] = Some None"
| "skipTo chunk final (c # cs) =
     (if c = CHR ''/'' then Some None
      else case matchChunk False chunk cs of
        None \<Rightarrow> None
      | Some (t, ok) \<Rightarrow> if ok \<and> \<not> (final \<and> t \<noteq> []) then Some (Some t) else skipTo chunk final cs)"

function checkRest :: "string \<Rightarrow> bool" where
  "checkRest pattern =
     (if pattern = [] then True
      else case scanChunk pattern of (_, chunk, rest) \<Rightarrow> matchChunk False chunk [] \<noteq> None \<and> checkRest rest)"
  by pat_completeness auto
termination
  by (relation "measure length") (auto dest: scanChunk_shorter sym)

declare checkRest.simps [simp del]

function filepath_Match :: "string \<Rightarrow> string \<Rightarrow> bool option" where
  "filepath_Match pattern name =
     (if pattern = [] then Some (name = [])
      else case scanChunk pattern of (star, chunk, rest) \<Rightarrow>
        if star \<and> chunk = [] then Some (CHR ''/'' \<notin> set name)
        else case matchChunk False chunk name of
          None \<Rightarrow> None
        | Some (t, ok) \<Rightarrow>
            if ok \<and> (t = [] \<or> rest \<noteq> []) then filepath_Match rest t
            else case (if star then skipTo chunk (rest = []) name else Some None) of
              None \<Rightarrow> None
            | Some (Some t') \<Rightarrow> filepath_Match rest t'
            | Some None \<Rightarrow> if checkRest rest then Some False else None)"
  by pat_completeness auto
termination
  by (relation "measure (\<lambda>(pattern, _). length pattern)") (auto dest: scanChunk_shorter sym)

declare filepath_Match.simps [simp del]

subsection \<open>The documented meaning\<close>

fun glob :: "string \<Rightarrow> string \<Rightarrow> bool" where
  "glob [] s = (s = [])"
| "glob (p # ps) [] = (p = CHR ''*'' \<and> glob ps [])"
| "glob (p # ps) (c # cs) =
     (if p = CHR ''*'' then glob ps (c # cs) \<or> (c \<noteq> CHR ''/'' \<and> glob (p # ps) cs)
      else if p = CHR ''?'' then c \<noteq> CHR ''/'' \<and> glob ps cs
      else p = c \<and> glob ps cs)"

text \<open>Names as Kubernetes has them, patterns of stars, question marks and literal characters.\<close>

definition plain_name :: "string \<Rightarrow> bool" where
  "plain_name s \<longleftrightarrow> list_all (\<lambda>c. byte c < 128 \<and> c \<noteq> CHR ''/'') s"

definition wildcard_pattern :: "string \<Rightarrow> bool" where
  "wildcard_pattern p \<longleftrightarrow> list_all (\<lambda>c. c \<noteq> CHR ''['' \<and> c \<noteq> CHR 0x5C) p"

lemma plain_name_simps [simp]:
  "plain_name []" "plain_name (c # s) \<longleftrightarrow> byte c < 128 \<and> c \<noteq> CHR ''/'' \<and> plain_name s"
  "plain_name (s @ t) \<longleftrightarrow> plain_name s \<and> plain_name t"
  by (auto simp: plain_name_def)

lemma plain_name_drop [simp]: "plain_name s \<Longrightarrow> plain_name (drop k s)"
  by (metis append_take_drop_id plain_name_simps(3))

lemma plain_name_slash: "plain_name s \<Longrightarrow> CHR ''/'' \<notin> set s"
  by (induction s) auto

lemma wildcard_pattern_simps [simp]:
  "wildcard_pattern []" "wildcard_pattern (c # p) \<longleftrightarrow> c \<noteq> CHR ''['' \<and> c \<noteq> CHR 0x5C \<and> wildcard_pattern p"
  "wildcard_pattern (p @ q) \<longleftrightarrow> wildcard_pattern p \<and> wildcard_pattern q"
  by (auto simp: wildcard_pattern_def)

text \<open>A chunk without stars at the front of a name.\<close>

fun fits :: "string \<Rightarrow> string \<Rightarrow> bool" where
  "fits [] s = True"
| "fits (p # ps) [] = False"
| "fits (p # ps) (c # cs) = ((p = CHR ''?'' \<or> p = c) \<and> fits ps cs)"

lemma matchChunk_failed:
  "wildcard_pattern chunk \<Longrightarrow> matchChunk True chunk s = Some ([], False)"
  by (induction chunk arbitrary: s) (simp_all add: Let_def)

lemma matchChunk_fits:
  "wildcard_pattern chunk \<Longrightarrow> plain_name s \<Longrightarrow>
   matchChunk False chunk s = Some (if fits chunk s then (drop (length chunk) s, True) else ([], False))"
  by (induction chunk s rule: fits.induct) (auto simp: Let_def matchChunk_failed)

lemma glob_chunk:
  "CHR ''*'' \<notin> set chunk \<Longrightarrow> plain_name s \<Longrightarrow>
   glob (chunk @ rest) s \<longleftrightarrow> fits chunk s \<and> glob rest (drop (length chunk) s)"
  by (induction chunk s rule: fits.induct) auto

lemma glob_star: "plain_name s \<Longrightarrow> glob (CHR ''*'' # p) s \<longleftrightarrow> (\<exists>k\<le>length s. glob p (drop k s))"
proof (induction s)
  case (Cons c cs)
  have "(\<exists>k\<le>length (c # cs). glob p (drop k (c # cs))) \<longleftrightarrow> glob p (c # cs) \<or> (\<exists>k\<le>length cs. glob p (drop k cs))"
    by (metis (no_types, lifting) Suc_le_mono drop_0 drop_Suc_Cons le0 length_Cons not0_implies_Suc)
  with Cons show ?case by simp
qed simp

lemma glob_stars:
  "plain_name s \<Longrightarrow> n > 0 \<Longrightarrow> glob (replicate n (CHR ''*'') @ p) s \<longleftrightarrow> glob (CHR ''*'' # p) s"
proof (induction n arbitrary: s)
  case (Suc n)
  show ?case
  proof (cases "n = 0")
    case False
    with Suc have "glob (replicate (Suc n) (CHR ''*'') @ p) s \<longleftrightarrow> (\<exists>k\<le>length s. glob (CHR ''*'' # p) (drop k s))"
      by (simp add: glob_star)
    also have "\<dots> \<longleftrightarrow> (\<exists>k\<le>length s. \<exists>j\<le>length s - k. glob p (drop (j + k) s))"
      using Suc.prems by (simp add: glob_star cong: conj_cong)
    also have "\<dots> \<longleftrightarrow> (\<exists>k\<le>length s. glob p (drop k s))"
    proof
      assume "\<exists>k\<le>length s. glob p (drop k s)"
      then obtain k where "k \<le> length s" "glob p (drop (k + 0) s)" by auto
      then show "\<exists>k\<le>length s. \<exists>j\<le>length s - k. glob p (drop (j + k) s)"
        by (metis le0 diff_zero)
    qed (metis add.commute le_diff_conv2)
    finally show ?thesis using Suc.prems by (simp add: glob_star)
  qed simp
qed simp

text \<open>What makes the greedy choice safe: a pattern that starts with a star fits every longer suffix.\<close>

lemma glob_star_longer:
  "plain_name s \<Longrightarrow> i \<le> j \<Longrightarrow> glob (CHR ''*'' # p) (drop j s) \<Longrightarrow> glob (CHR ''*'' # p) (drop i s)"
proof -
  assume a: "plain_name s" "i \<le> j" "glob (CHR ''*'' # p) (drop j s)"
  then obtain k where k: "k \<le> length (drop j s)" "glob p (drop (k + j) s)"
    by (auto simp: glob_star)
  show "glob (CHR ''*'' # p) (drop i s)"
  proof (cases "i \<le> length s")
    case True
    then have "min (k + j) (length s) - i \<le> length (drop i s)" by simp
    moreover have "drop (min (k + j) (length s) - i) (drop i s) = drop (k + j) s"
      using True a(2) by (simp add: min_def)
    ultimately show ?thesis using a(1) k(2) by (metis glob_star plain_name_drop)
  next
    case False
    with a(2,3) show ?thesis by simp
  qed
qed

lemma scanBody_wildcard:
  "wildcard_pattern p \<Longrightarrow> CHR ''*'' \<notin> set (fst (scanBody False p)) \<and>
     (snd (scanBody False p) = [] \<or> hd (snd (scanBody False p)) = CHR ''*'')"
proof (induction p)
  case (Cons c p)
  then have "class_state False c = False" by (simp add: class_state_def)
  with Cons show ?case by (cases "c = CHR ''*''") (simp_all add: scanBody_simps)
qed simp

lemma scanBody_no_star:
  assumes "p \<noteq> []" "hd p \<noteq> CHR ''*''" shows "fst (scanBody False p) \<noteq> []"
  using scanBody_nonempty [OF assms(2), of "tl p"] assms(1) by simp

lemma scanChunk_wildcard:
  assumes "wildcard_pattern pattern" and "scanChunk pattern = (star, chunk, rest)"
  obtains n where "pattern = replicate n (CHR ''*'') @ chunk @ rest" "star \<longleftrightarrow> n > 0" "CHR ''*'' \<notin> set chunk"
    "rest = [] \<or> hd rest = CHR ''*''" "chunk = [] \<longrightarrow> rest = []"
proof -
  define t where "t = takeWhile (\<lambda>c. c = CHR ''*'') pattern"
  define d where "d = dropWhile (\<lambda>c. c = CHR ''*'') pattern"
  have p: "pattern = t @ d" by (simp add: t_def d_def)
  have "t = replicate (length t) (CHR ''*'')"
    unfolding t_def by (intro replicate_eqI) (auto dest: set_takeWhileD)
  moreover have w: "wildcard_pattern d" using assms(1) unfolding p by simp
  have s: "chunk = fst (scanBody False d)" "rest = snd (scanBody False d)"
    using assms(2) by (simp_all add: scanChunk_def d_def)
  have "d = chunk @ rest" unfolding s by (rule scanBody_append [symmetric])
  moreover have "star \<longleftrightarrow> length t > 0"
    using assms(2) by (cases pattern) (simp_all add: scanChunk_def t_def)
  moreover have "d \<noteq> [] \<Longrightarrow> hd d \<noteq> CHR ''*''" unfolding d_def by (rule hd_dropWhile)
  then have "chunk = [] \<longrightarrow> rest = []"
    using scanBody_no_star [of d] \<open>d = chunk @ rest\<close> unfolding s(1) [symmetric] by fastforce
  ultimately show ?thesis using that [of "length t"] p scanBody_wildcard [OF w] unfolding s [symmetric] by simp
qed

definition accepts :: "string \<Rightarrow> string \<Rightarrow> string \<Rightarrow> bool" where
  "accepts chunk rest s \<longleftrightarrow> fits chunk s \<and> (drop (length chunk) s = [] \<or> rest \<noteq> [])"

lemma accepts_leftmost:
  assumes "plain_name s" "CHR ''*'' \<notin> set chunk" "rest = [] \<or> hd rest = CHR ''*''" "accepts chunk rest s"
  shows "glob rest (drop (length chunk) s) \<longleftrightarrow> (\<exists>k\<le>length s. glob (chunk @ rest) (drop k s))"
proof
  assume "glob rest (drop (length chunk) s)"
  with assms have "glob (chunk @ rest) (drop 0 s)" by (simp add: glob_chunk accepts_def)
  then show "\<exists>k\<le>length s. glob (chunk @ rest) (drop k s)" by blast
next
  assume "\<exists>k\<le>length s. glob (chunk @ rest) (drop k s)"
  then obtain k where "glob rest (drop (length chunk + k) s)"
    using assms(1,2) by (auto simp: glob_chunk)
  then show "glob rest (drop (length chunk) s)"
    using assms glob_star_longer [OF assms(1), of "length chunk" "length chunk + k"]
    by (cases rest) (auto simp: accepts_def)
qed

lemma accepts_none:
  assumes "plain_name s" "CHR ''*'' \<notin> set chunk" "\<not> accepts chunk rest s"
  shows "\<not> glob (chunk @ rest) s"
  using assms glob_chunk [OF assms(2,1), of rest] by (auto simp: accepts_def)

lemma skipTo_leftmost:
  assumes "wildcard_pattern chunk" "CHR ''*'' \<notin> set chunk" "rest = [] \<or> hd rest = CHR ''*''"
  shows "plain_name s \<Longrightarrow> \<exists>r. skipTo chunk (rest = []) s = Some r \<and> pred_option plain_name r \<and>
    ((case r of Some t \<Rightarrow> glob rest t | None \<Rightarrow> False) \<longleftrightarrow> (\<exists>k\<le>length s. 0 < k \<and> glob (chunk @ rest) (drop k s)))"
proof (induction s)
  case (Cons c s)
  then have s: "plain_name s" "c \<noteq> CHR ''/''" by simp_all
  have shift: "(\<exists>k\<le>length (c # s). 0 < k \<and> glob (chunk @ rest) (drop k (c # s))) \<longleftrightarrow>
      (\<exists>k\<le>length s. glob (chunk @ rest) (drop k s))"
    by (metis Suc_le_mono drop_Suc_Cons gr0_implies_Suc length_Cons zero_less_Suc)
  show ?case
  proof (cases "accepts chunk rest s")
    case True
    then have "skipTo chunk (rest = []) (c # s) = Some (Some (drop (length chunk) s))"
      using s assms(1) by (auto simp: matchChunk_fits accepts_def)
    then show ?thesis using accepts_leftmost [OF s(1) assms(2,3) True] s(1) unfolding shift by simp
  next
    case False
    then have "skipTo chunk (rest = []) (c # s) = skipTo chunk (rest = []) s"
      using s assms(1) by (auto simp: matchChunk_fits accepts_def)
    moreover have "(\<exists>k\<le>length s. glob (chunk @ rest) (drop k s)) \<longleftrightarrow>
        (\<exists>k\<le>length s. 0 < k \<and> glob (chunk @ rest) (drop k s))"
      using accepts_none [OF s(1) assms(2) False] by (metis drop_0 gr0I)
    ultimately show ?thesis using Cons.IH [OF s(1)] unfolding shift by simp
  qed
qed simp

lemma checkRest_wildcard: "wildcard_pattern pattern \<Longrightarrow> checkRest pattern"
proof (induction pattern rule: checkRest.induct)
  case (1 pattern)
  show ?case
  proof (cases "pattern = []")
    case False
    obtain star chunk rest where sc: "scanChunk pattern = (star, chunk, rest)" by (cases "scanChunk pattern")
    obtain n where "pattern = replicate n (CHR ''*'') @ chunk @ rest"
      using scanChunk_wildcard [OF 1(2) sc] by blast
    with 1(2) have w: "wildcard_pattern chunk" "wildcard_pattern rest" by simp_all
    have "checkRest rest" by (rule 1(1) [OF False _ _ w(2)]) (rule sc [symmetric] refl)+
    with w(1) False sc show ?thesis
      by (simp add: checkRest.simps [of pattern] matchChunk_fits)
  qed (simp add: checkRest.simps)
qed

theorem filepath_Match_glob:
  "wildcard_pattern pattern \<Longrightarrow> plain_name name \<Longrightarrow> filepath_Match pattern name = Some (glob pattern name)"
proof (induction "length pattern" arbitrary: pattern name rule: less_induct)
  case less
  show ?case
  proof (cases "pattern = []")
    case ne: False
    obtain star chunk rest where sc: "scanChunk pattern = (star, chunk, rest)" by (cases "scanChunk pattern")
    obtain n where n: "pattern = replicate n (CHR ''*'') @ chunk @ rest" "star \<longleftrightarrow> n > 0" "CHR ''*'' \<notin> set chunk"
      "rest = [] \<or> hd rest = CHR ''*''" "chunk = [] \<longrightarrow> rest = []" using scanChunk_wildcard [OF less(2) sc] .
    with less(2) have w: "wildcard_pattern chunk" "wildcard_pattern rest" by simp_all
    note mc = matchChunk_fits [OF w(1) less(3)]
    note IH = less(1) [OF scanChunk_shorter [OF ne sc] w(2)]
    have starred: "glob pattern name \<longleftrightarrow> (\<exists>k\<le>length name. glob (chunk @ rest) (drop k name))" if star
      using that n(1,2) less(3) by (simp add: glob_stars glob_star)
    show ?thesis
    proof (cases "star \<and> chunk = []")
      case True
      then have "glob pattern name" using starred n(5) by auto
      with True sc ne plain_name_slash [OF less(3)] show ?thesis by (simp add: filepath_Match.simps [of pattern])
    next
      case nt: False
      show ?thesis
      proof (cases "accepts chunk rest name")
        case True
        then have "filepath_Match pattern name = filepath_Match rest (drop (length chunk) name)"
          using ne sc nt mc by (auto simp: filepath_Match.simps [of pattern] accepts_def)
        also have "\<dots> = Some (glob rest (drop (length chunk) name))" using IH less(3) by simp
        also have "glob rest (drop (length chunk) name) \<longleftrightarrow> glob pattern name"
          using accepts_leftmost [OF less(3) n(3,4) True] starred n(1,2) True less(3) n(3)
          by (cases star) (simp_all add: glob_chunk accepts_def)
        finally show ?thesis .
      next
        case no: False
        note none = accepts_none [OF less(3) n(3) no]
        show ?thesis
        proof (cases star)
          case True
          obtain r where r: "skipTo chunk (rest = []) name = Some r" "pred_option plain_name r"
            "(case r of Some t \<Rightarrow> glob rest t | None \<Rightarrow> False) \<longleftrightarrow> (\<exists>k\<le>length name. 0 < k \<and> glob (chunk @ rest) (drop k name))"
            using skipTo_leftmost [OF w(1) n(3,4) less(3)] by blast
          have g: "glob pattern name \<longleftrightarrow> (case r of Some t \<Rightarrow> glob rest t | None \<Rightarrow> False)"
            using starred [OF True] r(3) none by (metis drop_0 gr0I)
          have "filepath_Match pattern name =
              (case r of Some t \<Rightarrow> filepath_Match rest t | None \<Rightarrow> Some False)"
            using ne sc nt mc no True r(1) checkRest_wildcard [OF w(2)]
            by (auto simp: filepath_Match.simps [of pattern] accepts_def split: option.split)
          with g r(2) IH show ?thesis by (cases r) simp_all
        next
          case False
          then have "glob pattern name = False" using n(1,2) none by simp
          moreover have "filepath_Match pattern name = Some False"
            using ne sc nt mc no False checkRest_wildcard [OF w(2)]
            by (auto simp: filepath_Match.simps [of pattern] accepts_def)
          ultimately show ?thesis by simp
        qed
      qed
    qed
  qed (simp add: filepath_Match.simps)
qed

end
