(* ===== verification/Policies.thy ===== *)
theory Policies
  imports Go_Json Go_Path Kube_Api Mcp_Args "HOL-Library.Product_Lexorder"
begin

text \<open>
  The admission policy tools, \<open>src/internal/mcp/policy.go\<close>: the Kyverno rules that select a kind
  in a namespace, and the policy report of a namespace.

  A rule, a filter and an answer are decoded JSON. A Go map that is only used as a set of strings
  (\<open>autogen\<close>, \<open>explicit\<close>, the exemptions) is the list of its true keys; a nil map has none. The
  cluster and the functions of \<open>apimachinery\<close> are the fields of \<open>policy_api\<close>: the reads of
  the API server, the accessors of unstructured objects, the conversion of a selector
  (\<open>FromUnstructured\<close> followed by \<open>LabelSelectorAsSelector\<close>, \<open>None\<close> when one of them
  fails) and the text of a float64.
\<close>

record 'e policy_api =
  pa_namespace :: "string \<Rightarrow> ('e, labels) fallible"
  pa_list :: "gvr \<Rightarrow> string \<Rightarrow> ('e, object list) fallible"
  pa_nested_map :: "object \<Rightarrow> string list \<Rightarrow> object"
  pa_nested_slice :: "object \<Rightarrow> string list \<Rightarrow> any list"
  pa_nested_string :: "object \<Rightarrow> string list \<Rightarrow> string"
  pa_annotations :: "object \<Rightarrow> labels"
  pa_name :: "object \<Rightarrow> string"
  pa_object_namespace :: "object \<Rightarrow> string"
  pa_selector :: "object \<Rightarrow> (labels \<Rightarrow> bool) option"
  pa_float :: "rat \<Rightarrow> string"

definition gvrClusterPolicy :: gvr where
  "gvrClusterPolicy = \<lparr>gvr_group = ''kyverno.io'', gvr_version = ''v1'', gvr_resource = ''clusterpolicies''\<rparr>"

definition gvrPolicy :: gvr where
  "gvrPolicy = \<lparr>gvr_group = ''kyverno.io'', gvr_version = ''v1'', gvr_resource = ''policies''\<rparr>"

definition gvrExceptions :: "gvr list" where
  "gvrExceptions =
     [\<lparr>gvr_group = ''kyverno.io'', gvr_version = ''v2'', gvr_resource = ''policyexceptions''\<rparr>,
      \<lparr>gvr_group = ''kyverno.io'', gvr_version = ''v2beta1'', gvr_resource = ''policyexceptions''\<rparr>]"

definition gvrPolicyReport :: gvr where
  "gvrPolicyReport = \<lparr>gvr_group = ''wgpolicyk8s.io'', gvr_version = ''v1alpha2'', gvr_resource = ''policyreports''\<rparr>"

definition podControllers :: "string list" where
  "podControllers =
     [''Deployment'', ''StatefulSet'', ''DaemonSet'', ''ReplicaSet'', ''Job'', ''CronJob'', ''ReplicationController'']"

definition maxCheckRunes :: nat where "maxCheckRunes = 1500"
definition maxReportResults :: nat where "maxReportResults = 200"

subsection \<open>Helpers\<close>

fun strSlice :: "any option \<Rightarrow> string list" where
  "strSlice (Some (JList l)) = concat (map (\<lambda>e. case e of JStr s \<Rightarrow> [s] | _ \<Rightarrow> []) l)"
| "strSlice _ = []"

fun uniq_from :: "string list \<Rightarrow> string list \<Rightarrow> string list" where
  "uniq_from seen [] = []"
| "uniq_from seen (s # r) = (if s \<in> set seen then uniq_from seen r else s # uniq_from (s # seen) r)"

definition uniq :: "string list \<Rightarrow> string list" where
  "uniq l = uniq_from [] l"

fun isEmpty :: "any \<Rightarrow> bool" where
  "isEmpty JNull = True"
| "isEmpty (JMap t) = (t = [])"
| "isEmpty (JList t) = (t = [])"
| "isEmpty (JStr t) = (t = [])"
| "isEmpty _ = False"

fun isEmptyBlock :: "any \<Rightarrow> bool" where
  "isEmptyBlock (JMap m) = list_all (\<lambda>(k, x). isEmptyBlock x) m"
| "isEmptyBlock v = isEmpty v"

definition ellipsis :: string where
  "ellipsis = [CHR 0xE2, CHR 0x80, CHR 0xA6]"

definition trunc_runes :: "string \<Rightarrow> nat \<Rightarrow> string" where
  "trunc_runes s n = (if rune_count s > n then take_runes n s @ ellipsis else s)"

definition truncJSON :: "(rat \<Rightarrow> string) \<Rightarrow> any \<Rightarrow> nat \<Rightarrow> string" where
  "truncJSON ft v n = trunc_runes (json_Marshal ft v) n"

subsection \<open>Filters\<close>

definition subjectKeys :: "string list" where
  "subjectKeys = [''subjects'', ''roles'', ''clusterRoles'']"

definition flattenFilter :: "object \<Rightarrow> object" where
  "flattenFilter f =
     (let out = (case as_map (map_of f ''resources'') of
                   Some r \<Rightarrow> filter (\<lambda>(k, v). \<not> isEmpty v) r
                 | None \<Rightarrow> [])
      in fold (\<lambda>k out. case map_of f k of Some v \<Rightarrow> assoc_put k v out | None \<Rightarrow> out) subjectKeys out)"

definition collectFilters :: "object \<Rightarrow> string \<Rightarrow> object list" where
  "collectFilters block key =
     (case as_list (map_of block key) of
        Some l \<Rightarrow> concat (map (\<lambda>e. case e of
            JMap m \<Rightarrow> (let f = flattenFilter m in if f \<noteq> [] then [f] else [])
          | _ \<Rightarrow> []) l)
      | None \<Rightarrow> [])"

definition resourceFilters :: "object \<Rightarrow> object list \<times> bool" where
  "resourceFilters block =
     (if collectFilters block ''all'' \<noteq> [] then (collectFilters block ''all'', True)
      else if collectFilters block ''any'' \<noteq> [] then (collectFilters block ''any'', False)
      else if map_of block ''resources'' \<noteq> None \<and> flattenFilter block \<noteq> [] then ([flattenFilter block], True)
      else ([], False))"

definition shortKind :: "string \<Rightarrow> string" where
  "shortKind k = (let i = last_index k (CHR ''/'') in if i \<ge> 0 then drop (nat (i + 1)) k else k)"

definition autogenText :: "string \<Rightarrow> string" where
  "autogenText kind = ''autogen: the Pod rule is applied to the '' @ kind @ [CHR 0x27] @ ''s pod template''"

definition kindMatches :: "object \<Rightarrow> string \<Rightarrow> string list \<Rightarrow> string list \<times> bool \<times> string" where
  "kindMatches f kind autogen =
     (let (names, ok, via) =
        fold (\<lambda>k (names, ok, via).
            let short = shortKind k in
            if kind = [] \<or> short = ''*'' \<or> equal_fold short kind then (names @ [short], True, via)
            else if short = ''Pod'' \<and> kind \<in> set autogen then (names @ [short], True, autogenText kind)
            else (names @ [short], ok, via))
          (strSlice (map_of f ''kinds'')) ([], False, [])
      in (names, ok \<or> names = [], via))"

definition selectorMatches :: "'e policy_api \<Rightarrow> object \<Rightarrow> labels \<Rightarrow> bool" where
  "selectorMatches api sel s = (case pa_selector api sel of None \<Rightarrow> True | Some matches \<Rightarrow> matches s)"

definition nsMatches :: "'e policy_api \<Rightarrow> object \<Rightarrow> string \<Rightarrow> labels \<Rightarrow> bool" where
  "nsMatches api f ns nsLabels =
     (let pats = strSlice (map_of f ''namespaces'') in
      if pats \<noteq> [] \<and> \<not> list_ex (\<lambda>p. filepath_Match p ns = Some True) pats then False
      else case as_map (map_of f ''namespaceSelector'') of
        Some sel \<Rightarrow> selectorMatches api sel nsLabels
      | None \<Rightarrow> True)"

definition objectCondition :: "(rat \<Rightarrow> string) \<Rightarrow> object \<Rightarrow> string" where
  "objectCondition ft f =
     join
       ((let n = strSlice (map_of f ''names'') in if n \<noteq> [] then [''name matches '' @ join n '', ''] else []) @
        (case as_map (map_of f ''selector'') of
           Some sel \<Rightarrow> [''labels match '' @ json_Marshal ft (JMap sel)] | None \<Rightarrow> []) @
        (case as_map (map_of f ''annotations'') of
           Some an \<Rightarrow> [''annotations match '' @ json_Marshal ft (JMap an)] | None \<Rightarrow> []) @
        (let ops = strSlice (map_of f ''operations'') in if ops \<noteq> [] then [''operation is '' @ join ops ''/''] else []))
       '', ''"

definition hasSubjects :: "object \<Rightarrow> bool" where
  "hasSubjects f = list_ex (\<lambda>k. case as_list (map_of f k) of Some l \<Rightarrow> l \<noteq> [] | None \<Rightarrow> False) subjectKeys"

definition autogenControllers :: "string \<Rightarrow> string list" where
  "autogenControllers ann =
     (if trim_space ann = [] then podControllers
      else if trim_space ann = ''none'' then []
      else map trim_space (split_at ann (CHR '','')))"

subsection \<open>One rule\<close>

record ruleMatch =
  rm_kinds :: "string list"
  rm_via :: string
  rm_conds :: "string list"
  rm_matched :: bool

definition matchStep ::
  "'e policy_api \<Rightarrow> string \<Rightarrow> labels \<Rightarrow> string \<Rightarrow> string list \<Rightarrow> bool \<Rightarrow> object \<Rightarrow> ruleMatch \<Rightarrow> ruleMatch" where
  "matchStep api ns nsLabels kind autogen all f st =
     (let (ks, okKind, v) = kindMatches f kind autogen;
          hit = (okKind \<and> nsMatches api f ns nsLabels);
          st1 = st\<lparr>rm_kinds := rm_kinds st @ ks\<rparr>;
          st2 = (if hit \<and> v \<noteq> [] then st1\<lparr>rm_via := v\<rparr> else st1);
          c = objectCondition (pa_float api) f;
          st3 = (if hit \<and> c \<noteq> [] then st2\<lparr>rm_conds := rm_conds st2 @ [c]\<rparr> else st2)
      in if all then st3\<lparr>rm_matched := rm_matched st3 \<and> hit\<rparr>
         else if hit then st3\<lparr>rm_matched := True\<rparr> else st3)"

definition excludeHit :: "'e policy_api \<Rightarrow> string \<Rightarrow> labels \<Rightarrow> string \<Rightarrow> string list \<Rightarrow> object \<Rightarrow> bool" where
  "excludeHit api ns nsLabels kind autogen f =
     (case kindMatches f kind autogen of (_, okKind, _) \<Rightarrow>
        okKind \<and> nsMatches api f ns nsLabels \<and> objectCondition (pa_float api) f = [] \<and> \<not> hasSubjects f)"

definition foldHits :: "bool \<Rightarrow> (object \<Rightarrow> bool) \<Rightarrow> object list \<Rightarrow> bool" where
  "foldHits all hit fs =
     fold (\<lambda>f r. if all then r \<and> hit f else if hit f then True else r) fs (all \<and> fs \<noteq> [])"

definition object_field :: "object \<Rightarrow> string \<Rightarrow> object" where
  "object_field m k = (case as_map (map_of m k) of Some o' \<Rightarrow> o' | None \<Rightarrow> [])"

definition ruleApplies ::
  "'e policy_api \<Rightarrow> object \<Rightarrow> string \<Rightarrow> labels \<Rightarrow> string \<Rightarrow> string list \<Rightarrow> string list \<times> bool \<times> string \<times> string" where
  "ruleApplies api rule ns nsLabels kind autogen =
     (let (filters, all) = resourceFilters (object_field rule ''match'') in
      if filters = [] then ([], False, [], [])
      else
        let st = fold (matchStep api ns nsLabels kind autogen all) filters
                   \<lparr>rm_kinds = [], rm_via = [], rm_conds = [], rm_matched = all\<rparr> in
        if \<not> rm_matched st then (rm_kinds st, False, [], [])
        else
          let conds = (case map_of rule ''preconditions'' of
                         Some pre \<Rightarrow> if \<not> isEmpty pre
                           then rm_conds st @ [''preconditions '' @ truncJSON (pa_float api) pre 300] else rm_conds st
                       | None \<Rightarrow> rm_conds st);
              (exFilters, exAll) = resourceFilters (object_field rule ''exclude'') in
          if foldHits exAll (excludeHit api ns nsLabels kind autogen) exFilters
          then (rm_kinds st, False, [], [])
          else (uniq (rm_kinds st), True, rm_via st, join (uniq conds) ''; ''))"

definition ruleType :: "object \<Rightarrow> string" where
  "ruleType rule =
     (case find (\<lambda>t. case map_of rule t of Some v \<Rightarrow> \<not> isEmptyBlock v | None \<Rightarrow> False)
             [''validate'', ''mutate'', ''generate'', ''verifyImages''] of
        Some t \<Rightarrow> t | None \<Rightarrow> ''other'')"

definition normAction :: "string \<Rightarrow> string" where
  "normAction a = (if equal_fold a ''enforce'' then ''Enforce'' else ''Audit'')"

fun overrideAction :: "'e policy_api \<Rightarrow> string \<Rightarrow> labels \<Rightarrow> any list \<Rightarrow> string option" where
  "overrideAction api ns nsLabels [] = None"
| "overrideAction api ns nsLabels (JMap m # r) =
     (if nsMatches api m ns nsLabels \<and>
         (strSlice (map_of m ''namespaces'') \<noteq> [] \<or>
          (case map_of m ''namespaceSelector'' of None \<Rightarrow> False | Some v \<Rightarrow> v \<noteq> JNull))
      then (case as_string (map_of m ''action'') of Some a \<Rightarrow> Some a | None \<Rightarrow> overrideAction api ns nsLabels r)
      else overrideAction api ns nsLabels r)"
| "overrideAction api ns nsLabels (_ # r) = overrideAction api ns nsLabels r"

definition failureAction :: "'e policy_api \<Rightarrow> object \<Rightarrow> object \<Rightarrow> string \<Rightarrow> labels \<Rightarrow> string" where
  "failureAction api spec validate ns nsLabels =
     (if str_field validate ''failureAction'' \<noteq> [] then normAction (str_field validate ''failureAction'')
      else
        let overrides = (case as_list (map_of spec ''validationFailureActionOverrides'') of Some l \<Rightarrow> l | None \<Rightarrow> []) in
        case overrideAction api ns nsLabels overrides of
          Some a \<Rightarrow> normAction a
        | None \<Rightarrow>
            if str_field spec ''validationFailureAction'' \<noteq> []
            then normAction (str_field spec ''validationFailureAction'') else ''Audit'')"

definition compactCheck :: "(rat \<Rightarrow> string) \<Rightarrow> object \<Rightarrow> string" where
  "compactCheck ft validate =
     (let check = fold (\<lambda>k check. case map_of validate k of Some v \<Rightarrow> assoc_put k v check | None \<Rightarrow> check)
                    [''pattern'', ''anyPattern'', ''deny'', ''podSecurity'', ''cel'', ''foreach''] []
      in trunc_runes (json_Marshal ft (JMap check)) maxCheckRunes)"

subsection \<open>Exemptions\<close>

definition exceptionHit :: "'e policy_api \<Rightarrow> string \<Rightarrow> labels \<Rightarrow> string \<Rightarrow> object \<Rightarrow> bool" where
  "exceptionHit api ns nsLabels kind ex =
     (let (filters, all) = resourceFilters (pa_nested_map api ex [''spec'', ''match'']) in
      foldHits all (\<lambda>f. fst (snd (kindMatches f kind podControllers)) \<and> nsMatches api f ns nsLabels) filters)"

definition exceptionKeys :: "any \<Rightarrow> string list" where
  "exceptionKeys e =
     (let m = (case e of JMap m \<Rightarrow> m | _ \<Rightarrow> []);
          pol = str_field m ''policyName'';
          rules = strSlice (map_of m ''ruleNames'')
      in (if rules = [] then [pol @ ''/*''] else []) @ map (\<lambda>r. pol @ ''/'' @ r) rules)"

fun exemptionsFrom :: "'e policy_api \<Rightarrow> string \<Rightarrow> labels \<Rightarrow> string \<Rightarrow> gvr list \<Rightarrow> string list" where
  "exemptionsFrom api ns nsLabels kind [] = []"
| "exemptionsFrom api ns nsLabels kind (g # gs) =
     (case pa_list api g [] of
        Inl _ \<Rightarrow> exemptionsFrom api ns nsLabels kind gs
      | Inr items \<Rightarrow>
          concat (map (\<lambda>ex.
            if exceptionHit api ns nsLabels kind ex
            then concat (map exceptionKeys (pa_nested_slice api ex [''spec'', ''exceptions'']))
            else []) items))"

definition exemptions :: "'e policy_api \<Rightarrow> string \<Rightarrow> labels \<Rightarrow> string \<Rightarrow> string list" where
  "exemptions api ns nsLabels kind = exemptionsFrom api ns nsLabels kind gvrExceptions"

subsection \<open>The rules that apply\<close>

definition explicitRules :: "any list \<Rightarrow> string list" where
  "explicitRules ruleList =
     concat (map (\<lambda>r. case r of
         JMap m \<Rightarrow>
           (let n = str_field m ''name'' in
            if has_prefix n ''autogen-'' then [trim_prefix (trim_prefix n ''autogen-'') ''cronjob-''] else [])
       | _ \<Rightarrow> []) ruleList)"

definition ruleEntry ::
  "'e policy_api \<Rightarrow> string \<Rightarrow> labels \<Rightarrow> string \<Rightarrow> string list \<Rightarrow> object \<Rightarrow> object \<Rightarrow> string list \<Rightarrow> object \<Rightarrow> object option" where
  "ruleEntry api ns nsLabels kind exempt p spec ctrl rule =
     (case ruleApplies api rule ns nsLabels kind ctrl of (kinds, applies, via, cond) \<Rightarrow>
      if \<not> applies then None
      else
        let name = str_field rule ''name'' in
        Some
          ([(''policy'', JStr (pa_name api p)), (''rule'', JStr name), (''type'', JStr (ruleType rule)),
            (''kinds'', slice_value (map JStr kinds))] @
           (if pa_object_namespace api p \<noteq> []
            then [(''scope'', JStr ''Policy''), (''namespace'', JStr (pa_object_namespace api p))]
            else [(''scope'', JStr ''ClusterPolicy'')]) @
           (case as_map (map_of rule ''validate'') of
              Some v \<Rightarrow>
                [(''action'', JStr (failureAction api spec v ns nsLabels))] @
                (case as_string (map_of v ''message'') of Some m \<Rightarrow> [(''message'', JStr m)] | None \<Rightarrow> []) @
                [(''check'', JStr (compactCheck (pa_float api) v))]
            | None \<Rightarrow> []) @
           (if via \<noteq> [] then [(''applies_via'', JStr via)] else []) @
           (if cond \<noteq> [] then [(''only_if'', JStr cond)] else []) @
           (if pa_name api p @ ''/'' @ name \<in> set exempt \<or> pa_name api p @ ''/*'' \<in> set exempt
            then [(''exempted'', JStr ''a PolicyException exempts this namespace from the rule'')] else [])))"

definition policyRules ::
  "'e policy_api \<Rightarrow> string \<Rightarrow> labels \<Rightarrow> string \<Rightarrow> string list \<Rightarrow> object \<Rightarrow> object list" where
  "policyRules api ns nsLabels kind exempt p =
     (let spec = pa_nested_map api p [''spec''];
          ruleList = pa_nested_slice api p [''spec'', ''rules''];
          controllers = autogenControllers (label (pa_annotations api p) ''pod-policies.kyverno.io/autogen-controllers'');
          explicit = explicitRules ruleList
      in concat (map (\<lambda>r. case r of
           JMap rule \<Rightarrow>
             (let ctrl = (if str_field rule ''name'' \<in> set explicit then [] else controllers) in
              case ruleEntry api ns nsLabels kind exempt p spec ctrl rule of Some out \<Rightarrow> [out] | None \<Rightarrow> [])
         | _ \<Rightarrow> []) ruleList))"

definition isEnforce :: "object \<Rightarrow> bool" where
  "isEnforce r \<longleftrightarrow> map_of r ''action'' = Some (JStr ''Enforce'')"

definition ruleOrder :: "object \<Rightarrow> bool \<times> string" where
  "ruleOrder r = (\<not> isEnforce r, str_field r ''policy'' @ str_field r ''rule'')"

definition policyNote :: string where
  "policyNote = ''check is the rule'' @ [CHR 0x27] @ ''s own pattern, deny conditions or CEL, as JSON. Authoritative '' @
     ''validation is a server-side dry run: oc apply --dry-run=server -f <file>, which runs these policies.''"

definition handleListPolicies :: "'e policy_api \<Rightarrow> args \<Rightarrow> ('e goerr, any) fallible" where
  "handleListPolicies api a =
     (let ns = arg_str a ''namespace''; kind = arg_str a ''kind'' in
      case pa_namespace api ns of
        Inl err \<Rightarrow> Inl (Wrap (''get namespace '' @ ns @ '': '') (Api err) [])
      | Inr nsLabels \<Rightarrow>
          (case pa_list api gvrClusterPolicy [] of
             Inl err \<Rightarrow> Inl (Wrap ''list clusterpolicies: '' (Api err) [])
           | Inr cps \<Rightarrow>
               let policies = cps @ (case pa_list api gvrPolicy ns of Inr ps \<Rightarrow> ps | Inl _ \<Rightarrow> []);
                   exempt = exemptions api ns nsLabels kind;
                   rules = concat (map (policyRules api ns nsLabels kind exempt) policies);
                   enforce = length (filter isEnforce rules);
                   ordered = sort_slice ruleOrder rules
               in Inr (JMap
                    [(''namespace'', JStr ns), (''kind'', JStr kind),
                     (''rules'', slice_value (map JMap ordered)),
                     (''summary'', JStr (itoa (int (length ordered)) @ '' rules apply; '' @ itoa (int enforce) @
                        '' are Enforce (a violating object is rejected), '' @
                        ''the rest Audit (admitted, reported in the policy report) or mutate/generate'')),
                     (''note'', JStr policyNote)])))"

subsection \<open>The policy report\<close>

definition value_field :: "object \<Rightarrow> string \<Rightarrow> any" where
  "value_field m k = (case map_of m k of Some v \<Rightarrow> v | None \<Rightarrow> JNull)"

definition reportTarget :: "object \<Rightarrow> string \<times> string \<Rightarrow> string \<times> string" where
  "reportTarget m scope =
     (case map_of m ''resources'' of
        Some (JList (JMap o' # _)) \<Rightarrow> (str_field o' ''kind'', str_field o' ''name'')
      | _ \<Rightarrow> scope)"

definition reportEntry :: "string \<Rightarrow> object \<Rightarrow> string \<times> string \<Rightarrow> object" where
  "reportEntry ns m scope =
     (case reportTarget m scope of (kind, name) \<Rightarrow>
        [(''result'', JStr (str_field m ''result'')), (''policy'', value_field m ''policy''),
         (''rule'', value_field m ''rule''), (''message'', value_field m ''message''),
         (''severity'', value_field m ''severity''), (''kind'', JStr kind), (''name'', JStr name),
         (''namespace'', JStr ns)])"

definition reportStep ::
  "string \<Rightarrow> string \<times> string \<Rightarrow> any \<Rightarrow> (string \<times> int) list \<times> object list \<Rightarrow> (string \<times> int) list \<times> object list" where
  "reportStep ns scope r st =
     (case r of
        JMap m \<Rightarrow>
          (let (counts, results) = st;
               result = str_field m ''result'';
               counts' = assoc_put result ((case map_of counts result of Some n \<Rightarrow> n | None \<Rightarrow> 0) + 1) counts
           in if result = ''pass'' \<or> result = ''skip'' then (counts', results)
              else (counts', results @ [reportEntry ns m scope]))
      | _ \<Rightarrow> st)"

definition reportRank :: "object \<Rightarrow> int" where
  "reportRank r =
     (case map_of [(''fail'', 0), (''error'', 1), (''warn'', 2)] (str_field r ''result'') of Some n \<Rightarrow> n | None \<Rightarrow> 0)"

definition handleGetPolicyReport :: "'e policy_api \<Rightarrow> args \<Rightarrow> ('e goerr, any) fallible" where
  "handleGetPolicyReport api a =
     (let ns = arg_str a ''namespace'' in
      case pa_list api gvrPolicyReport ns of
        Inl err \<Rightarrow> Inl (Wrap (''list policyreports in '' @ ns @ '': '') (Api err) [])
      | Inr items \<Rightarrow>
          (let (counts, results) =
             fold (\<lambda>rep st.
                 let scope = (pa_nested_string api rep [''scope'', ''kind''], pa_nested_string api rep [''scope'', ''name''])
                 in fold (reportStep ns scope) (pa_nested_slice api rep [''results'']) st) items ([], []);
               ordered = sort_slice reportRank results;
               truncated = length ordered > maxReportResults;
               shown = (if truncated then take maxReportResults ordered else ordered)
           in Inr (JMap
                [(''namespace'', JStr ns), (''totals'', JMap (map (\<lambda>(k, n). (k, JInt n)) counts)),
                 (''results'', slice_value (map JMap shown)), (''truncated'', JBool truncated)])))"

end
