(* ===== verification/Policies_Props.thy ===== *)
theory Policies_Props
  imports Policies
begin

text \<open>
  What the admission policy tools guarantee. The reference meaning of a rule is \<open>subject_to\<close>: an
  object of a kind in a namespace is subject to a rule when the match block block_selects it and the
  exclude block does not. What a filter asks of the object itself (names, labels, annotations,
  operation, user) is decided by an arbitrary predicate \<open>holds\<close>, since the tool never sees the
  object.
\<close>

subsection \<open>Lists of filters\<close>

lemma foldHits_iff:
  "foldHits all hit fs \<longleftrightarrow> fs \<noteq> [] \<and> (if all then list_all hit fs else list_ex hit fs)"
proof -
  have "fold (\<lambda>f r. r \<and> hit f) fs b \<longleftrightarrow> b \<and> list_all hit fs" for b
    by (induction fs arbitrary: b) auto
  moreover have "fold (\<lambda>f r. if hit f then True else r) fs b \<longleftrightarrow> b \<or> list_ex hit fs" for b
    by (induction fs arbitrary: b) auto
  ultimately show ?thesis by (cases all; cases "fs = []") (simp_all add: foldHits_def)
qed

definition kind_selected :: "string \<Rightarrow> string list \<Rightarrow> object \<Rightarrow> bool" where
  "kind_selected kind autogen f \<longleftrightarrow>
     (let ks = map shortKind (strSlice (map_of f ''kinds'')) in
      ks = [] \<or> list_ex (\<lambda>k. k = ''*'' \<or> equal_fold k kind \<or> (k = ''Pod'' \<and> kind \<in> set autogen)) ks)"

lemma kindMatches_names: "fst (kindMatches f kind autogen) = map shortKind (strSlice (map_of f ''kinds''))"
proof -
  have "fst (fold (\<lambda>k (names, ok, via).
            let short = shortKind k in
            if kind = [] \<or> short = ''*'' \<or> equal_fold short kind then (names @ [short], True, via)
            else if short = ''Pod'' \<and> kind \<in> set autogen then (names @ [short], True, autogenText kind)
            else (names @ [short], ok, via)) ks st) = fst st @ map shortKind ks" for ks st
    by (induction ks arbitrary: st) (auto simp: Let_def split: prod.split)
  then show ?thesis by (simp add: kindMatches_def case_prod_beta)
qed

lemma kindMatches_ok:
  "fst (snd (kindMatches f kind autogen)) \<longleftrightarrow>
     (if kind = [] then True else kind_selected kind autogen f)"
proof -
  let ?step = "\<lambda>k (names, ok, via).
            let short = shortKind k in
            if kind = [] \<or> short = ''*'' \<or> equal_fold short kind then (names @ [short], True, via)
            else if short = ''Pod'' \<and> kind \<in> set autogen then (names @ [short], True, autogenText kind)
            else (names @ [short], ok, via)"
  let ?ks = "strSlice (map_of f ''kinds'')"
  have ok: "fst (snd (fold ?step ks st)) \<longleftrightarrow> fst (snd st) \<or>
      list_ex (\<lambda>k. kind = [] \<or> k = ''*'' \<or> equal_fold k kind \<or> (k = ''Pod'' \<and> kind \<in> set autogen)) (map shortKind ks)"
    for ks st
    by (induction ks arbitrary: st) (auto simp: Let_def split: prod.split)
  have "fst (fold ?step ?ks ([], False, [])) = [] \<longleftrightarrow> ?ks = []"
    using kindMatches_names [of f kind autogen] by (auto simp: kindMatches_def case_prod_beta)
  then show ?thesis
    using ok [of ?ks "([], False, [])"] by (cases ?ks) (auto simp: kindMatches_def kind_selected_def case_prod_beta Let_def)
qed

definition block_selects ::
  "(object \<Rightarrow> bool) \<Rightarrow> 'e policy_api \<Rightarrow> string \<Rightarrow> labels \<Rightarrow> string \<Rightarrow> string list \<Rightarrow> object \<Rightarrow> bool" where
  "block_selects holds api ns nsLabels kind autogen block \<longleftrightarrow>
     (let (fs, all) = resourceFilters block;
          hit = (\<lambda>f. kind_selected kind autogen f \<and> nsMatches api f ns nsLabels \<and> holds f)
      in fs \<noteq> [] \<and> (if all then list_all hit fs else list_ex hit fs))"

definition subject_to ::
  "(object \<Rightarrow> bool) \<Rightarrow> 'e policy_api \<Rightarrow> string \<Rightarrow> labels \<Rightarrow> string \<Rightarrow> string list \<Rightarrow> object \<Rightarrow> bool" where
  "subject_to holds api ns nsLabels kind autogen rule \<longleftrightarrow>
     block_selects holds api ns nsLabels kind autogen (object_field rule ''match'') \<and>
     \<not> block_selects holds api ns nsLabels kind autogen (object_field rule ''exclude'')"

text \<open>A filter that asks nothing of the object itself.\<close>

definition unconditional :: "'e policy_api \<Rightarrow> object \<Rightarrow> bool" where
  "unconditional api f \<longleftrightarrow> objectCondition (pa_float api) f = [] \<and> \<not> hasSubjects f"

lemma matchStep_matched:
  "rm_matched (matchStep api ns nsLabels kind autogen all f st) =
     (let hit = (fst (snd (kindMatches f kind autogen)) \<and> nsMatches api f ns nsLabels)
      in if all then rm_matched st \<and> hit else if hit then True else rm_matched st)"
  by (auto simp: matchStep_def Let_def case_prod_beta)

lemma match_loop:
  "rm_matched (fold (matchStep api ns nsLabels kind autogen all) fs st) =
     fold (\<lambda>f r. let hit = (fst (snd (kindMatches f kind autogen)) \<and> nsMatches api f ns nsLabels)
        in if all then r \<and> hit else if hit then True else r) fs (rm_matched st)"
  by (induction fs arbitrary: st) (simp_all add: matchStep_matched)

lemma ruleApplies_ok:
  "fst (snd (ruleApplies api rule ns nsLabels kind autogen)) \<longleftrightarrow>
     (let (fs, all) = resourceFilters (object_field rule ''match'');
          (es, eall) = resourceFilters (object_field rule ''exclude'')
      in foldHits all (\<lambda>f. fst (snd (kindMatches f kind autogen)) \<and> nsMatches api f ns nsLabels) fs \<and>
         \<not> foldHits eall (excludeHit api ns nsLabels kind autogen) es)"
proof -
  obtain fs all where fs: "resourceFilters (object_field rule ''match'') = (fs, all)" by fastforce
  obtain es eall where es: "resourceFilters (object_field rule ''exclude'') = (es, eall)" by fastforce
  show ?thesis
    by (cases "fs = []") (simp_all add: ruleApplies_def fs es Let_def match_loop foldHits_def)
qed

lemma excludeHit_iff:
  "kind \<noteq> [] \<Longrightarrow> excludeHit api ns nsLabels kind autogen =
     (\<lambda>f. kind_selected kind autogen f \<and> nsMatches api f ns nsLabels \<and> unconditional api f)"
  by (rule ext) (simp add: excludeHit_def kindMatches_ok unconditional_def case_prod_beta)

lemma ruleApplies_iff:
  "kind \<noteq> [] \<Longrightarrow>
   fst (snd (ruleApplies api rule ns nsLabels kind autogen)) \<longleftrightarrow>
     block_selects (\<lambda>f. True) api ns nsLabels kind autogen (object_field rule ''match'') \<and>
     \<not> block_selects (unconditional api) api ns nsLabels kind autogen (object_field rule ''exclude'')"
  by (simp add: ruleApplies_ok block_selects_def case_prod_beta Let_def foldHits_iff kindMatches_ok
      excludeHit_iff)

lemma block_selects_mono:
  assumes "\<And>f. f \<in> set (fst (resourceFilters block)) \<Longrightarrow> p f \<Longrightarrow> q f"
    and "block_selects p api ns nsLabels kind autogen block"
  shows "block_selects q api ns nsLabels kind autogen block"
  using assms by (auto simp: block_selects_def case_prod_beta Let_def list_all_iff list_ex_iff split: if_splits)

lemma block_selects_cong:
  assumes "\<And>f. f \<in> set (fst (resourceFilters block)) \<Longrightarrow> p f = q f"
  shows "block_selects p api ns nsLabels kind autogen block = block_selects q api ns nsLabels kind autogen block"
  using assms by (metis block_selects_mono)

text \<open>
  C11. A rule an object is subject to is never hidden: whatever a filter's conditions on the
  object itself mean (filters without such conditions hold), an object of the kind in the namespace
  that the match block block_selects and the exclude block does not select is subject to a reported
  rule. Where no filter has such conditions the report is exact.
\<close>

theorem policy_rule_not_hidden:
  assumes "kind \<noteq> []"
    and "\<forall>f. unconditional api f \<longrightarrow> holds f"
    and "subject_to holds api ns nsLabels kind autogen rule"
  shows "fst (snd (ruleApplies api rule ns nsLabels kind autogen))"
proof -
  have "block_selects (\<lambda>f. True) api ns nsLabels kind autogen (object_field rule ''match'')"
    using assms(3) block_selects_mono [of _ holds "\<lambda>f. True"] by (auto simp: subject_to_def)
  moreover have "\<not> block_selects (unconditional api) api ns nsLabels kind autogen (object_field rule ''exclude'')"
    using assms(2,3) block_selects_mono [where p = "unconditional api" and q = holds and api = api] by (auto simp: subject_to_def)
  ultimately show ?thesis using ruleApplies_iff [OF assms(1)] by blast
qed

theorem policy_rule_exact:
  assumes "kind \<noteq> []"
    and "list_all (unconditional api) (fst (resourceFilters (object_field rule ''match'')))"
    and "list_all (unconditional api) (fst (resourceFilters (object_field rule ''exclude'')))"
    and "\<forall>f. unconditional api f \<longrightarrow> holds f"
  shows "fst (snd (ruleApplies api rule ns nsLabels kind autogen)) \<longleftrightarrow>
    subject_to holds api ns nsLabels kind autogen rule"
proof -
  have "block_selects (\<lambda>f. True) api ns nsLabels kind autogen (object_field rule ''match'') =
      block_selects holds api ns nsLabels kind autogen (object_field rule ''match'')"
    by (rule block_selects_cong) (use assms(2,4) in \<open>auto simp: list_all_iff\<close>)
  moreover have "block_selects (unconditional api) api ns nsLabels kind autogen (object_field rule ''exclude'') =
      block_selects holds api ns nsLabels kind autogen (object_field rule ''exclude'')"
    by (rule block_selects_cong) (use assms(3,4) in \<open>auto simp: list_all_iff\<close>)
  ultimately show ?thesis by (simp add: ruleApplies_iff [OF assms(1)] subject_to_def)
qed

subsection \<open>A small cluster\<close>

fun sample_get :: "object \<Rightarrow> string list \<Rightarrow> any option" where
  "sample_get m [] = Some (JMap m)"
| "sample_get m [k] = map_of m k"
| "sample_get m (k # ks) = (case map_of m k of Some (JMap n) \<Rightarrow> sample_get n ks | _ \<Rightarrow> None)"

definition policy_cluster :: "(string \<Rightarrow> object list) \<Rightarrow> string policy_api" where
  "policy_cluster objects =
     \<lparr>pa_namespace = (\<lambda>ns. if ns = ''gone'' then Inl ''not found'' else Inr [(''team'', ''a'')]),
      pa_list = (\<lambda>g ns. if gvr_version g = ''v2'' then Inl ''forbidden'' else Inr (objects (gvr_resource g))),
      pa_nested_map = (\<lambda>m p. case as_map (sample_get m p) of Some r \<Rightarrow> r | None \<Rightarrow> []),
      pa_nested_slice = (\<lambda>m p. case as_list (sample_get m p) of Some r \<Rightarrow> r | None \<Rightarrow> []),
      pa_nested_string = (\<lambda>m p. case as_string (sample_get m p) of Some r \<Rightarrow> r | None \<Rightarrow> []),
      pa_annotations = (\<lambda>m. []),
      pa_name = (\<lambda>m. case as_string (sample_get m [''metadata'', ''name'']) of Some r \<Rightarrow> r | None \<Rightarrow> []),
      pa_object_namespace = (\<lambda>m. case as_string (sample_get m [''metadata'', ''namespace'']) of Some r \<Rightarrow> r | None \<Rightarrow> []),
      pa_selector = (\<lambda>s. Some (\<lambda>l. label l ''team'' = str_field (object_field s ''matchLabels'') ''team'')),
      pa_float = (\<lambda>q. ''0.5'')\<rparr>"

definition kinds_filter :: "string list \<Rightarrow> any" where
  "kinds_filter ks = JMap [(''resources'', JMap [(''kinds'', JList (map JStr ks))])]"

definition sample_rule :: object where
  "sample_rule =
     [(''name'', JStr ''limits''),
      (''match'', JMap [(''any'', JList [kinds_filter [''Pod'']])]),
      (''exclude'', JMap [(''any'', JList [JMap [(''resources'', JMap [(''namespaces'', JList [JStr ''kube-*''])])]])]),
      (''validate'', JMap [(''message'', JStr ''set limits''), (''pattern'', JMap [(''spec'', JStr ''x'')])])]"

theorem policy_rule_not_hidden_witness:
  "fst (snd (ruleApplies (policy_cluster (\<lambda>_. [])) sample_rule ''team-a'' [] ''Deployment'' podControllers))"
  by (rule policy_rule_not_hidden [where holds = "\<lambda>f. True"]) (simp, simp, code_simp)

theorem policy_rule_exact_witness:
  "fst (snd (ruleApplies (policy_cluster (\<lambda>_. [])) sample_rule ''kube-system'' [] ''Deployment'' podControllers)) \<longleftrightarrow>
     subject_to (\<lambda>f. True) (policy_cluster (\<lambda>_. [])) ''kube-system'' [] ''Deployment'' podControllers sample_rule"
  by (rule policy_rule_exact) (simp, code_simp, code_simp, simp)

text \<open>
  C38. Without a kind a rule can be hidden from a kind it applies to: a rule that matches Pods and
  Services and excludes the Services is not reported when no kind is named, though every Pod of
  every namespace is subject to it.
\<close>

theorem policy_kind_omitted_hides_rule:
  fixes api :: "'e policy_api"
  defines "rule \<equiv> [(''match'', JMap [(''any'', JList [kinds_filter [''Pod'', ''Service'']])]),
                   (''exclude'', JMap [(''any'', JList [kinds_filter [''Service'']])])]"
  shows "subject_to (\<lambda>f. True) api ns nsLabels ''Pod'' podControllers rule \<and>
    \<not> fst (snd (ruleApplies api rule ns nsLabels [] podControllers))"
proof -
  have m: "resourceFilters (object_field rule ''match'') = ([[(''kinds'', JList [JStr ''Pod'', JStr ''Service''])]], False)"
    and e: "resourceFilters (object_field rule ''exclude'') = ([[(''kinds'', JList [JStr ''Service''])]], False)"
    unfolding rule_def by code_simp+
  have k: "kind_selected ''Pod'' podControllers [(''kinds'', JList [JStr ''Pod'', JStr ''Service''])]"
    "\<not> kind_selected ''Pod'' podControllers [(''kinds'', JList [JStr ''Service''])]"
    "objectCondition ft [(''kinds'', JList [JStr ''Service''])] = []"
    "\<not> hasSubjects [(''kinds'', JList [JStr ''Service''])]" for ft
    by (code_simp, code_simp, simp add: objectCondition_def, code_simp)
  have n: "nsMatches api [(''kinds'', v)] ns nsLabels" for v
    by (simp add: nsMatches_def)
  show ?thesis
    by (simp add: subject_to_def block_selects_def m e k n ruleApplies_ok foldHits_iff excludeHit_def kindMatches_ok
        case_prod_beta)
qed

subsection \<open>Namespaces\<close>

text \<open>
  C18. Namespace patterns mean what they say: for the wildcard patterns Kyverno documents (stars,
  question marks and literal characters) and a namespace name, the greedy matcher accepts exactly
  the names the backtracking reference accepts, so a filter block_selects the namespace when one of its
  patterns does (or it has none) and its selector matches the labels (an unreadable one always does).
\<close>

theorem namespace_match_exact:
  assumes "plain_name ns" and "list_all wildcard_pattern (strSlice (map_of f ''namespaces''))"
  shows "nsMatches api f ns nsLabels \<longleftrightarrow>
    (strSlice (map_of f ''namespaces'') = [] \<or> list_ex (\<lambda>p. glob p ns) (strSlice (map_of f ''namespaces''))) \<and>
    (case map_of f ''namespaceSelector'' of
       Some (JMap sel) \<Rightarrow> (case pa_selector api sel of Some matches \<Rightarrow> matches nsLabels | None \<Rightarrow> True)
     | _ \<Rightarrow> True)"
proof -
  have "list_ex (\<lambda>p. filepath_Match p ns = Some True) ps = list_ex (\<lambda>p. glob p ns) ps"
    if "list_all wildcard_pattern ps" for ps
    using that assms(1) by (induction ps) (simp_all add: filepath_Match_glob)
  from this [OF assms(2)] show ?thesis
    by (auto simp: nsMatches_def selectorMatches_def Let_def split: option.splits any.splits)
qed

theorem namespace_match_exact_witness:
  "plain_name ''team-a-dev'' \<and>
   (nsMatches (policy_cluster (\<lambda>_. [])) [(''namespaces'', JList [JStr ''sre-*'', JStr ''*a*-de?''])] ''team-a-dev'' [] \<longleftrightarrow>
     list_ex (\<lambda>p. glob p ''team-a-dev'') [''sre-*'', ''*a*-de?''])"
proof -
  have p: "plain_name ''team-a-dev''"
    "list_all wildcard_pattern (strSlice (map_of [(''namespaces'', JList [JStr ''sre-*'', JStr ''*a*-de?''])] ''namespaces''))"
    by code_simp+
  from p(1) namespace_match_exact [OF p, of "policy_cluster (\<lambda>_. [])" "[]"] show ?thesis by simp
qed

text \<open>Two filters that differ only in how they select the namespace, with the same outcome.\<close>

definition same_but_namespaces :: "'e policy_api \<Rightarrow> string \<Rightarrow> labels \<Rightarrow> object \<Rightarrow> object \<Rightarrow> bool" where
  "same_but_namespaces api ns nsLabels f g \<longleftrightarrow>
     (\<forall>k. k \<noteq> ''namespaces'' \<and> k \<noteq> ''namespaceSelector'' \<longrightarrow> map_of f k = map_of g k) \<and>
     nsMatches api f ns nsLabels = nsMatches api g ns nsLabels"

lemma same_but_namespaces_parts:
  assumes "same_but_namespaces api ns nsLabels f g"
  shows "kindMatches f kind autogen = kindMatches g kind autogen" "objectCondition ft f = objectCondition ft g"
    "hasSubjects f = hasSubjects g" "nsMatches api f ns nsLabels = nsMatches api g ns nsLabels"
    "excludeHit api ns nsLabels kind autogen f = excludeHit api ns nsLabels kind autogen g"
    "matchStep api ns nsLabels kind autogen all f = matchStep api ns nsLabels kind autogen all g"
proof -
  have k: "map_of f k = map_of g k" if "k \<noteq> ''namespaces''" "k \<noteq> ''namespaceSelector''" for k
    using assms that by (simp add: same_but_namespaces_def)
  show km: "kindMatches f kind autogen = kindMatches g kind autogen" for kind autogen
    by (simp add: kindMatches_def k)
  show oc: "objectCondition ft f = objectCondition ft g" for ft
    by (simp add: objectCondition_def k)
  show hs: "hasSubjects f = hasSubjects g"
    by (simp add: hasSubjects_def subjectKeys_def k)
  show ns: "nsMatches api f ns nsLabels = nsMatches api g ns nsLabels"
    using assms by (simp add: same_but_namespaces_def)
  show "excludeHit api ns nsLabels kind autogen f = excludeHit api ns nsLabels kind autogen g"
    by (simp add: excludeHit_def km oc hs ns)
  show "matchStep api ns nsLabels kind autogen all f = matchStep api ns nsLabels kind autogen all g"
    by (rule ext) (simp add: matchStep_def km oc ns)
qed

lemma fold_same_filters:
  "list_all2 r fs gs \<Longrightarrow> (\<And>f g. r f g \<Longrightarrow> step f = step g) \<Longrightarrow> fold step fs s = fold step gs s"
  by (induction fs gs arbitrary: s rule: list_all2_induct) simp_all

text \<open>
  C17. The answer never names another tenant's namespace: two rules whose match and exclude
  filters differ only in namespace patterns and selectors that decide alike for the asked namespace
  give the same answer, so nothing else of those patterns and selectors can be seen in it.
\<close>

theorem policy_namespaces_not_shown:
  assumes "list_all2 (same_but_namespaces api ns nsLabels)
      (fst (resourceFilters (object_field rule ''match''))) (fst (resourceFilters (object_field rule' ''match'')))"
    and "snd (resourceFilters (object_field rule ''match'')) = snd (resourceFilters (object_field rule' ''match''))"
    and "list_all2 (same_but_namespaces api ns nsLabels)
      (fst (resourceFilters (object_field rule ''exclude''))) (fst (resourceFilters (object_field rule' ''exclude'')))"
    and "snd (resourceFilters (object_field rule ''exclude'')) = snd (resourceFilters (object_field rule' ''exclude''))"
    and "map_of rule ''preconditions'' = map_of rule' ''preconditions''"
  shows "ruleApplies api rule ns nsLabels kind autogen = ruleApplies api rule' ns nsLabels kind autogen"
proof -
  obtain fs all where f: "resourceFilters (object_field rule ''match'') = (fs, all)" by (rule prod.exhaust)
  obtain es eall where e: "resourceFilters (object_field rule ''exclude'') = (es, eall)" by (rule prod.exhaust)
  obtain gs all' where g': "resourceFilters (object_field rule' ''match'') = (gs, all')" by (rule prod.exhaust)
  obtain hs eall' where h': "resourceFilters (object_field rule' ''exclude'') = (hs, eall')" by (rule prod.exhaust)
  have g: "resourceFilters (object_field rule' ''match'') = (gs, all)" using assms(2) by (simp add: f g')
  have h: "resourceFilters (object_field rule' ''exclude'') = (hs, eall)" using assms(4) by (simp add: e h')
  note rel = assms(1) [unfolded f g fst_conv] assms(3) [unfolded e h fst_conv]
  have m: "fold (matchStep api ns nsLabels kind autogen all) fs st = fold (matchStep api ns nsLabels kind autogen all) gs st" for st
    by (rule fold_same_filters [OF rel(1)]) (rule same_but_namespaces_parts(6))
  have nil: "fs = [] \<longleftrightarrow> gs = []" "es = [] \<longleftrightarrow> hs = []"
    using rel by (auto dest: list_all2_lengthD)
  have x: "foldHits eall (excludeHit api ns nsLabels kind autogen) es = foldHits eall (excludeHit api ns nsLabels kind autogen) hs"
    unfolding foldHits_def nil by (rule fold_same_filters [OF rel(2)]) (simp add: same_but_namespaces_parts(5))
  show ?thesis
    unfolding ruleApplies_def assms(5) Let_def f g e h prod.case m nil(1) x by (rule refl)
qed

definition tenant_rule :: "string \<Rightarrow> object" where
  "tenant_rule tenant =
     [(''name'', JStr ''r''),
      (''match'', JMap [(''any'', JList [JMap [(''resources'', JMap
          [(''kinds'', JList [JStr ''Pod'']), (''namespaces'', JList [JStr tenant, JStr ''team-a''])])]])])]"

lemma tenant_rule_filters:
  assumes "tenant = ''sre-*'' \<or> tenant = ''team-b''"
  shows "resourceFilters (object_field (tenant_rule tenant) ''match'') =
      ([[(''kinds'', JList [JStr ''Pod'']), (''namespaces'', JList [JStr tenant, JStr ''team-a''])]], False)"
    "resourceFilters (object_field (tenant_rule tenant) ''exclude'') = ([], False)"
    "map_of (tenant_rule tenant) ''preconditions'' = None"
    "nsMatches (policy_cluster (\<lambda>_. [])) [(''kinds'', JList [JStr ''Pod'']), (''namespaces'', JList [JStr tenant, JStr ''team-a''])] ''team-a'' []"
  using assms by (elim disjE; hypsubst; code_simp)+

theorem policy_namespaces_not_shown_witness:
  "ruleApplies (policy_cluster (\<lambda>_. [])) (tenant_rule ''sre-*'') ''team-a'' [] ''Pod'' [] =
   ruleApplies (policy_cluster (\<lambda>_. [])) (tenant_rule ''team-b'') ''team-a'' [] ''Pod'' []"
  by (rule policy_namespaces_not_shown) (simp_all add: tenant_rule_filters same_but_namespaces_def)

subsection \<open>The answers\<close>

lemma sorted_enforced_first:
  assumes "sorted (map (\<lambda>x. (\<not> P x, f x :: 'a :: linorder)) xs)"
  shows "xs = filter P xs @ filter (\<lambda>x. \<not> P x) xs \<and> sorted (map f (filter P xs)) \<and>
    sorted (map f (filter (\<lambda>x. \<not> P x) xs))"
  using assms
proof (induction xs)
  case (Cons x xs)
  then have IH: "xs = filter P xs @ filter (\<lambda>x. \<not> P x) xs" "sorted (map f (filter P xs))"
    "sorted (map f (filter (\<lambda>x. \<not> P x) xs))" by simp_all
  from Cons.prems have le: "(\<not> P x, f x) \<le> (\<not> P y, f y)" if "y \<in> set xs" for y
    using that by simp
  have "filter P xs = []" "\<forall>y\<in>set xs. f x \<le> f y" if "\<not> P x"
    using le that by (auto simp: filter_empty_conv)
  moreover have "\<forall>y\<in>set xs. P y \<longrightarrow> f x \<le> f y" if "P x"
    using le that by auto
  ultimately show ?case using IH by (cases "P x") auto
qed simp

definition rule_name :: "object \<Rightarrow> string" where
  "rule_name r = str_field r ''policy'' @ str_field r ''rule''"

text \<open>
  C19. The answer of \<open>list_policies\<close> holds one entry for every rule that applies, of the cluster
  policies and of the namespace's own (none when those cannot be listed), the enforced ones first,
  each part sorted by policy and rule name, and its summary counts them exactly.
\<close>

theorem policies_enforced_first:
  assumes "pa_namespace api (arg_str a ''namespace'') = Inr nsLabels"
    and "pa_list api gvrClusterPolicy [] = Inr cps"
  shows "\<exists>v E R. handleListPolicies api a = Inr (JMap v) \<and>
    map_of v ''rules'' = Some (slice_value (map JMap (E @ R))) \<and>
    list_all isEnforce E \<and> list_all (\<lambda>r. \<not> isEnforce r) R \<and>
    sorted (map rule_name E) \<and> sorted (map rule_name R) \<and>
    mset (E @ R) = mset (concat (map (policyRules api (arg_str a ''namespace'') nsLabels (arg_str a ''kind'')
        (exemptions api (arg_str a ''namespace'') nsLabels (arg_str a ''kind'')))
      (cps @ (case pa_list api gvrPolicy (arg_str a ''namespace'') of Inr ps \<Rightarrow> ps | Inl _ \<Rightarrow> [])))) \<and>
    map_of v ''summary'' = Some (JStr (itoa (int (length (E @ R))) @ '' rules apply; '' @ itoa (int (length E)) @
      '' are Enforce (a violating object is rejected), '' @
      ''the rest Audit (admitted, reported in the policy report) or mutate/generate''))"
proof -
  define rules where "rules = concat (map (policyRules api (arg_str a ''namespace'') nsLabels (arg_str a ''kind'')
        (exemptions api (arg_str a ''namespace'') nsLabels (arg_str a ''kind'')))
      (cps @ (case pa_list api gvrPolicy (arg_str a ''namespace'') of Inr ps \<Rightarrow> ps | Inl _ \<Rightarrow> [])))"
  define xs where "xs = sort_slice ruleOrder rules"
  have s: "sorted (map (\<lambda>r. (\<not> isEnforce r, rule_name r)) xs)"
    using sort_slice_sorted [of ruleOrder rules] by (simp add: xs_def ruleOrder_def [abs_def] rule_name_def [abs_def])
  note parts = sorted_enforced_first [where P = isEnforce, OF s]
  have m: "mset xs = mset rules" by (simp add: xs_def sort_slice_def)
  then have "length (filter isEnforce rules) = length (filter isEnforce xs)"
    by (metis mset_filter size_mset)
  then have h: "\<exists>v. handleListPolicies api a = Inr (JMap v) \<and>
      map_of v ''rules'' = Some (slice_value (map JMap xs)) \<and>
      map_of v ''summary'' = Some (JStr (itoa (int (length xs)) @ '' rules apply; '' @ itoa (int (length (filter isEnforce xs))) @
        '' are Enforce (a violating object is rejected), '' @
        ''the rest Audit (admitted, reported in the policy report) or mutate/generate''))"
    unfolding handleListPolicies_def Let_def assms sum.case rules_def [symmetric] xs_def [symmetric]
    by simp
  then obtain v where v: "handleListPolicies api a = Inr (JMap v)"
      "map_of v ''rules'' = Some (slice_value (map JMap xs))"
      "map_of v ''summary'' = Some (JStr (itoa (int (length xs)) @ '' rules apply; '' @ itoa (int (length (filter isEnforce xs))) @
        '' are Enforce (a violating object is rejected), '' @
        ''the rest Audit (admitted, reported in the policy report) or mutate/generate''))" by blast
  show ?thesis
    by (rule exI [of _ v], rule exI [of _ "filter isEnforce xs"], rule exI [of _ "filter (\<lambda>r. \<not> isEnforce r) xs"],
        fold parts [THEN conjunct1], fold rules_def)
      (use v parts m in \<open>simp add: list_all_iff\<close>)
qed

definition list_args :: args where
  "list_args = [(''namespace'', JStr ''team-a''), (''kind'', JStr ''Deployment'')]"

definition sample_policies :: "string \<Rightarrow> object list" where
  "sample_policies resource =
     (if resource = ''clusterpolicies'' then
        [[(''metadata'', JMap [(''name'', JStr ''require-limits'')]),
          (''spec'', JMap [(''validationFailureAction'', JStr ''enforce''), (''rules'', JList [JMap sample_rule])])]]
      else [])"

theorem policies_enforced_first_witness:
  "\<exists>v E R. handleListPolicies (policy_cluster sample_policies) list_args = Inr (JMap v) \<and>
    map_of v ''rules'' = Some (slice_value (map JMap (E @ R))) \<and> list_all isEnforce E \<and> E @ R \<noteq> []"
proof -
  have p: "pa_namespace (policy_cluster sample_policies) (arg_str list_args ''namespace'') = Inr [(''team'', ''a'')]"
    "pa_list (policy_cluster sample_policies) gvrClusterPolicy [] = Inr (sample_policies ''clusterpolicies'')"
    by (simp_all add: policy_cluster_def list_args_def arg_str_def gvrClusterPolicy_def)
  have ne: "concat (map (policyRules (policy_cluster sample_policies) (arg_str list_args ''namespace'') [(''team'', ''a'')]
        (arg_str list_args ''kind'') (exemptions (policy_cluster sample_policies) (arg_str list_args ''namespace'')
          [(''team'', ''a'')] (arg_str list_args ''kind'')))
      (sample_policies ''clusterpolicies'' @
        (case pa_list (policy_cluster sample_policies) gvrPolicy (arg_str list_args ''namespace'') of Inr ps \<Rightarrow> ps | Inl _ \<Rightarrow> [])))
      \<noteq> []"
    by code_simp
  from policies_enforced_first [OF p] ne show ?thesis
    by (metis (no_types, lifting) mset_zero_iff)
qed

subsection \<open>The policy report\<close>

definition report_results :: "'e policy_api \<Rightarrow> object list \<Rightarrow> ((string \<times> string) \<times> object) list" where
  "report_results api items =
     concat (map (\<lambda>rep.
       map (Pair (pa_nested_string api rep [''scope'', ''kind''], pa_nested_string api rep [''scope'', ''name'']))
         (concat (map (\<lambda>r. case r of JMap m \<Rightarrow> [m] | _ \<Rightarrow> []) (pa_nested_slice api rep [''results''])))) items)"

definition violation :: "object \<Rightarrow> bool" where
  "violation m \<longleftrightarrow> str_field m ''result'' \<noteq> ''pass'' \<and> str_field m ''result'' \<noteq> ''skip''"

definition report_total :: "((string \<times> string) \<times> object) list \<Rightarrow> string \<Rightarrow> nat" where
  "report_total rs k = length (filter (\<lambda>(_, m). str_field m ''result'' = k) rs)"

definition counted :: "(string \<times> int) list \<Rightarrow> string \<Rightarrow> int" where
  "counted counts k = (case map_of counts k of Some n \<Rightarrow> n | None \<Rightarrow> 0)"

lemma report_fold:
  fixes counts :: "(string \<times> int) list"
  defines "maps l \<equiv> concat (map (\<lambda>r. case r of JMap m \<Rightarrow> [m] | _ \<Rightarrow> []) l)"
  shows "fold (reportStep ns scope) l (counts, results) = (c', r') \<Longrightarrow>
    r' = results @ map (\<lambda>m. reportEntry ns m scope) (filter violation (maps l)) \<and>
    counted c' k = counted counts k + int (report_total (map (Pair scope) (maps l)) k)"
proof (induction l arbitrary: counts results)
  case (Cons x l)
  show ?case
  proof (cases "\<exists>m. x = JMap m")
    case True
    then obtain m where m: "x = JMap m" by blast
    let ?c = "assoc_put (str_field m ''result'') (counted counts (str_field m ''result'') + 1) counts"
    let ?r = "if violation m then results @ [reportEntry ns m scope] else results"
    have "reportStep ns scope x (counts, results) = (?c, ?r)"
      by (auto simp: m reportStep_def Let_def counted_def violation_def)
    with Cons.prems have "fold (reportStep ns scope) l (?c, ?r) = (c', r')" by simp
    from Cons.IH [OF this] show ?thesis
      by (auto simp: m maps_def counted_def report_total_def)
  next
    case False
    then have "maps (x # l) = maps l" "reportStep ns scope x (counts, results) = (counts, results)"
      by (cases x; simp add: maps_def reportStep_def)+
    with Cons show ?thesis by simp
  qed
qed (simp add: maps_def report_total_def)

lemma reports_fold:
  "fold (\<lambda>rep st.
       let scope = (pa_nested_string api rep [''scope'', ''kind''], pa_nested_string api rep [''scope'', ''name''])
       in fold (reportStep ns scope) (pa_nested_slice api rep [''results'']) st) items (counts, results) = (c', r') \<Longrightarrow>
   r' = results @ map (\<lambda>(scope, m). reportEntry ns m scope) (filter (\<lambda>(_, m). violation m) (report_results api items)) \<and>
   counted c' k = counted counts k + int (report_total (report_results api items) k)"
proof (induction items arbitrary: counts results)
  case (Cons rep items)
  let ?scope = "(pa_nested_string api rep [''scope'', ''kind''], pa_nested_string api rep [''scope'', ''name''])"
  obtain c1 r1 where 1: "fold (reportStep ns ?scope) (pa_nested_slice api rep [''results'']) (counts, results) = (c1, r1)"
    by (rule prod.exhaust)
  note step = report_fold [OF 1, of k]
  from Cons.prems 1 have "fold (\<lambda>rep st.
       let scope = (pa_nested_string api rep [''scope'', ''kind''], pa_nested_string api rep [''scope'', ''name''])
       in fold (reportStep ns scope) (pa_nested_slice api rep [''results'']) st) items (c1, r1) = (c', r')"
    by (simp add: Let_def)
  from Cons.IH [OF this] step show ?case
    by (simp add: report_results_def report_total_def filter_map comp_def)
qed (simp add: report_results_def report_total_def)

text \<open>
  C27. The policy report: the totals count every result of every report, the results are the ones
  that are neither pass nor skip, worst first (an unknown result ranks with the failures), and at
  most 200 of them; a report is marked truncated exactly when results were left out, and no result
  left out is worse than one shown.
\<close>

theorem report_worst_first:
  assumes "pa_list api gvrPolicyReport (arg_str a ''namespace'') = Inr items"
  shows "\<exists>v totals shown dropped. handleGetPolicyReport api a = Inr (JMap v) \<and>
    map_of v ''totals'' = Some (JMap totals) \<and>
    (\<forall>k. (case map_of totals k of Some (JInt n) \<Rightarrow> n | _ \<Rightarrow> 0) = int (report_total (report_results api items) k)) \<and>
    map_of v ''results'' = Some (slice_value (map JMap shown)) \<and>
    map_of v ''truncated'' = Some (JBool (dropped \<noteq> [])) \<and>
    mset (shown @ dropped) = mset (map (\<lambda>(scope, m). reportEntry (arg_str a ''namespace'') m scope)
      (filter (\<lambda>(_, m). violation m) (report_results api items))) \<and>
    sorted (map reportRank (shown @ dropped)) \<and>
    length shown = min maxReportResults (length (shown @ dropped))"
proof -
  let ?ns = "arg_str a ''namespace''"
  obtain counts results where f: "fold (\<lambda>rep st.
       let scope = (pa_nested_string api rep [''scope'', ''kind''], pa_nested_string api rep [''scope'', ''name''])
       in fold (reportStep ?ns scope) (pa_nested_slice api rep [''results'']) st) items ([], []) = (counts, results)"
    by (rule prod.exhaust)
  let ?xs = "sort_slice reportRank results"
  let ?totals = "map (\<lambda>(k, n). (k, JInt n)) counts"
  have r: "results = map (\<lambda>(scope, m). reportEntry ?ns m scope) (filter (\<lambda>(_, m). violation m) (report_results api items))"
    and c: "counted counts k = int (report_total (report_results api items) k)" for k
    using reports_fold [OF f, of k] by (simp_all add: counted_def)
  have t: "(case map_of ?totals k of Some (JInt n) \<Rightarrow> n | _ \<Rightarrow> 0) = counted counts k" for k
    using map_of_map_entries [of "\<lambda>_ n. JInt n" counts k] by (simp add: counted_def split: option.split)
  have h: "handleGetPolicyReport api a = Inr (JMap
      [(''namespace'', JStr ?ns), (''totals'', JMap ?totals),
       (''results'', slice_value (map JMap (take maxReportResults ?xs))),
       (''truncated'', JBool (drop maxReportResults ?xs \<noteq> []))])"
    unfolding handleGetPolicyReport_def Let_def assms sum.case f [unfolded Let_def] prod.case
    by (auto simp: not_less)
  have s: "take maxReportResults ?xs @ drop maxReportResults ?xs = ?xs" by simp
  show ?thesis
    by (rule exI, rule exI [of _ ?totals], rule exI [of _ "take maxReportResults ?xs"],
        rule exI [of _ "drop maxReportResults ?xs"], unfold s, intro conjI, rule h)
      (simp_all add: t c r [symmetric] sort_slice_def min.commute)
qed

definition sample_reports :: "string \<Rightarrow> object list" where
  "sample_reports resource =
     (if resource = ''policyreports'' then
        [[(''results'', JList
            [JMap [(''policy'', JStr ''p''), (''result'', JStr ''pass'')],
             JMap [(''policy'', JStr ''probes''), (''result'', JStr ''warn'')],
             JMap [(''policy'', JStr ''limits''), (''result'', JStr ''fail'')]])]]
      else [])"

theorem report_worst_first_witness:
  "\<exists>v shown dropped. handleGetPolicyReport (policy_cluster sample_reports) list_args = Inr (JMap v) \<and>
    map_of v ''results'' = Some (slice_value (map JMap shown)) \<and>
    sorted (map reportRank (shown @ dropped)) \<and> size (mset (shown @ dropped)) = 2"
proof -
  have p: "pa_list (policy_cluster sample_reports) gvrPolicyReport (arg_str list_args ''namespace'') = Inr (sample_reports ''policyreports'')"
    by (simp add: policy_cluster_def gvrPolicyReport_def)
  have n: "length (filter (\<lambda>(_, m). violation m) (report_results (policy_cluster sample_reports) (sample_reports ''policyreports''))) = 2"
    by code_simp
  from report_worst_first [OF p] n show ?thesis by (metis size_mset length_map)
qed

subsection \<open>Actions and checks\<close>

text \<open>The first override of a policy that selects the namespace and names an action.\<close>

definition override_selects :: "'e policy_api \<Rightarrow> string \<Rightarrow> labels \<Rightarrow> any \<Rightarrow> string option" where
  "override_selects api ns nsLabels x =
     (case x of
        JMap m \<Rightarrow>
          if nsMatches api m ns nsLabels \<and>
             (strSlice (map_of m ''namespaces'') \<noteq> [] \<or> value_field m ''namespaceSelector'' \<noteq> JNull)
          then as_string (map_of m ''action'') else None
      | _ \<Rightarrow> None)"

lemma overrideAction_first:
  "overrideAction api ns nsLabels l =
     (case List.map_filter (override_selects api ns nsLabels) l of [] \<Rightarrow> None | a # _ \<Rightarrow> Some a)"
proof (induction l)
  case (Cons x l)
  have "overrideAction api ns nsLabels (x # l) =
      (case override_selects api ns nsLabels x of Some a \<Rightarrow> Some a | None \<Rightarrow> overrideAction api ns nsLabels l)"
    by (cases x) (auto simp: override_selects_def value_field_def split: option.split)
  with Cons show ?case by (simp add: map_filter_simps split: option.split)
qed (simp add: map_filter_simps)

text \<open>
  The action of a rule is the first one given, of the rule's own, the overrides that select the
  namespace in their order, the policy's default and at last Audit, read without regard to case,
  and anything but Enforce is Audit.
\<close>

theorem failure_action_first:
  "failureAction api spec validate ns nsLabels =
     normAction (hd
       (filter (\<lambda>a. a \<noteq> []) [str_field validate ''failureAction''] @
        List.map_filter (override_selects api ns nsLabels)
          (case map_of spec ''validationFailureActionOverrides'' of Some (JList l) \<Rightarrow> l | _ \<Rightarrow> []) @
        filter (\<lambda>a. a \<noteq> []) [str_field spec ''validationFailureAction''] @ [''Audit'']))"
proof -
  have o': "(case as_list x of Some l \<Rightarrow> l | None \<Rightarrow> []) = (case x of Some (JList l) \<Rightarrow> l | _ \<Rightarrow> [])" for x
    by (cases x rule: as_list.cases) simp_all
  have n: "normAction ''Audit'' = ''Audit''" by code_simp
  show ?thesis
    by (simp add: failureAction_def Let_def overrideAction_first o' n hd_append split: list.split)
qed

lemma rune_count_append: "rune_count (s @ t) = rune_count s + rune_count t"
  by (simp add: rune_count_def)

text \<open>
  The check of a rule and its preconditions are bounded: at most the given number of runes and
  an ellipsis, and the text is a prefix of the rendered value.
\<close>

theorem check_text_bounded:
  "rune_count (compactCheck ft validate) \<le> maxCheckRunes + 1 \<and>
   rune_count (truncJSON ft v n) \<le> n + 1 \<and>
   (\<exists>p r. json_Marshal ft v = p @ r \<and> truncJSON ft v n = p @ (if r = [] then [] else ellipsis))"
proof -
  have e: "rune_count ellipsis = 1" by code_simp
  have b: "rune_count (trunc_runes s n) \<le> n + 1" for s n
    using take_runes_count [of n s] by (simp add: trunc_runes_def rune_count_append e)
  have p: "\<exists>p r. s = p @ r \<and> trunc_runes s n = p @ (if r = [] then [] else ellipsis)" for s
  proof (cases "rune_count s > n")
    case True
    obtain r where r: "s = take_runes n s @ r" using take_runes_prefix by blast
    with True take_runes_count [of n s] have "r \<noteq> []" by (metis append_Nil2 not_le)
    with r True have "s = take_runes n s @ r \<and> trunc_runes s n = take_runes n s @ (if r = [] then [] else ellipsis)"
      by (simp add: trunc_runes_def)
    then show ?thesis by blast
  next
    case False
    then have "s = s @ [] \<and> trunc_runes s n = s @ (if [] = [] then [] else ellipsis)" by (simp add: trunc_runes_def)
    then show ?thesis by blast
  qed
  show ?thesis
    using b [of "json_Marshal ft v"] p [of "json_Marshal ft v"] b unfolding truncJSON_def compactCheck_def Let_def
    by blast
qed

end
