(* ===== verification/Read_Api.thy ===== *)
theory Read_Api
  imports Kube_Api Go_Float Mcp_Args
begin

text \<open>
  What the read-only tools of \<open>src/internal/mcp/handlers.go\<close> read: the fields of the Kubernetes
  objects they look at, and the requests they make, as the fields of \<open>read_api\<close>. The handlers
  change nothing in the cluster; a reply is a function of the request. A quantity and a target port
  is the text its \<open>String\<close> method gives. An instant counts from the zero time, so an instant is
  zero exactly when \<open>IsZero\<close> says so. The clock is read once per call. Answers are decoded JSON;
  a map or slice of the API that is empty is taken to be nil.
\<close>

subsection \<open>Objects\<close>

type_synonym resources = "(string \<times> string) list"

record readMeta =
  mt_name :: string
  mt_namespace :: string
  mt_created :: instant
  mt_labels :: labels

record waitingState =
  ws_reason :: string
  ws_message :: string

record terminatedState =
  te_reason :: string
  te_exitCode :: int

record stateOf =
  st_running :: "instant option"
  st_waiting :: "waitingState option"
  st_terminated :: "terminatedState option"

record containerStatus =
  cu_name :: string
  cu_ready :: bool
  cu_restarts :: int
  cu_state :: stateOf
  cu_last :: stateOf

record containerSpec =
  co_name :: string
  co_image :: string
  co_requests :: resources
  co_limits :: resources

record condition =
  cn_type :: string
  cn_status :: string
  cn_reason :: string
  cn_message :: string

record podObject =
  pb_meta :: readMeta
  pb_phase :: string
  pb_reason :: string
  pb_node :: string
  pb_ip :: string
  pb_qos :: string
  pb_containers :: "containerSpec list"
  pb_statuses :: "containerStatus list"
  pb_conditions :: "condition list"

record eventObject =
  eo_type :: string
  eo_reason :: string
  eo_objectKind :: string
  eo_objectName :: string
  eo_message :: string
  eo_count :: int
  eo_lastTimestamp :: instant
  eo_eventTime :: instant
  eo_created :: instant

record 'sel deployment =
  dp_meta :: readMeta
  dp_replicas :: "int option"
  dp_selector :: "'sel option"
  dp_ready :: int
  dp_updated :: int
  dp_available :: int
  dp_unavailable :: int
  dp_conditions :: "condition list"

record 'sel statefulSet =
  ss_meta :: readMeta
  ss_replicas :: "int option"
  ss_selector :: "'sel option"
  ss_ready :: int
  ss_updated :: int
  ss_current :: int
  ss_conditions :: "condition list"

record 'sel daemonSet =
  da_meta :: readMeta
  da_selector :: "'sel option"
  da_desired :: int
  da_ready :: int
  da_available :: int
  da_misscheduled :: int
  da_conditions :: "condition list"

record servicePort =
  sp_port :: int
  sp_targetPort :: string
  sp_protocol :: string

record service =
  sv_meta :: readMeta
  sv_type :: string
  sv_clusterIP :: string
  sv_ports :: "servicePort list"
  sv_selector :: labels

record endpoint =
  ep_addresses :: "string list"
  ep_ready :: "bool option"
  ep_target :: "(string \<times> string) option"

type_synonym endpointSlice = "endpoint list"

record claim =
  pv_meta :: readMeta
  pv_phase :: string
  pv_capacity :: resources
  pv_class :: "string option"
  pv_volume :: string

record resourceQuota =
  rq_name :: string
  rq_hard :: resources
  rq_used :: resources

record limitItem =
  li_type :: string
  li_default :: resources
  li_defaultRequest :: resources
  li_max :: resources

record limitRange =
  lr_name :: string
  lr_limits :: "limitItem list"

record taint =
  ta_key :: string
  ta_value :: string
  ta_effect :: string

record node =
  nd_meta :: readMeta
  nd_conditions :: "condition list"
  nd_taints :: "taint list"
  nd_capacity :: resources
  nd_allocatable :: resources
  nd_kubelet :: string
  nd_osImage :: string
  nd_kernel :: string
  nd_containerRuntime :: string

record secret =
  se_name :: string
  se_data :: "(string \<times> string) list"

subsection \<open>Requests\<close>

record queryOptions =
  qo_labelSelector :: string
  qo_fieldSelector :: string
  qo_limit :: int

definition no_options :: queryOptions where
  "no_options = \<lparr>qo_labelSelector = [], qo_fieldSelector = [], qo_limit = 0\<rparr>"

record logOptions =
  lo_container :: string
  lo_tailLines :: int
  lo_previous :: bool

record certificate =
  ce_subject :: string
  ce_issuer :: string
  ce_notBefore :: instant
  ce_notAfter :: instant
  ce_dnsNames :: "string list"

record ('e, 'sel) read_api =
  ra_pods :: "string \<Rightarrow> queryOptions \<Rightarrow> ('e, podObject list) fallible"
  ra_pod :: "string \<Rightarrow> string \<Rightarrow> ('e, podObject) fallible"
  ra_logs :: "string \<Rightarrow> string \<Rightarrow> logOptions \<Rightarrow> ('e, string) fallible"
  ra_events :: "string \<Rightarrow> queryOptions \<Rightarrow> ('e, eventObject list) fallible"
  ra_deployments :: "string \<Rightarrow> ('e, 'sel deployment list) fallible"
  ra_deployment :: "string \<Rightarrow> string \<Rightarrow> ('e, 'sel deployment) fallible"
  ra_statefulsets :: "string \<Rightarrow> ('e, 'sel statefulSet list) fallible"
  ra_statefulset :: "string \<Rightarrow> string \<Rightarrow> ('e, 'sel statefulSet) fallible"
  ra_daemonsets :: "string \<Rightarrow> ('e, 'sel daemonSet list) fallible"
  ra_daemonset :: "string \<Rightarrow> string \<Rightarrow> ('e, 'sel daemonSet) fallible"
  ra_services :: "string \<Rightarrow> ('e, service list) fallible"
  ra_service :: "string \<Rightarrow> string \<Rightarrow> ('e, service) fallible"
  ra_endpointSlices :: "string \<Rightarrow> queryOptions \<Rightarrow> ('e, endpointSlice list) fallible"
  ra_claims :: "string \<Rightarrow> ('e, claim list) fallible"
  ra_quotas :: "string \<Rightarrow> ('e, resourceQuota list) fallible"
  ra_limitRanges :: "string \<Rightarrow> ('e, limitRange list) fallible"
  ra_nodes :: "('e, node list) fallible"
  ra_node :: "string \<Rightarrow> ('e, node) fallible"
  ra_secrets :: "string \<Rightarrow> ('e, secret list) fallible"
  ra_list :: "gvr \<Rightarrow> string \<Rightarrow> queryOptions \<Rightarrow> ('e, object list \<times> string) fallible"
  ra_get :: "gvr \<Rightarrow> string \<Rightarrow> string \<Rightarrow> ('e, object) fallible"
  ra_gvrString :: "gvr \<Rightarrow> string"
  ra_selectorString :: "'sel \<Rightarrow> string option"
  ra_nested_slice :: "object \<Rightarrow> string list \<Rightarrow> any list"
  ra_nested_string :: "object \<Rightarrow> string list \<Rightarrow> string option"
  ra_remove_nested :: "object \<Rightarrow> string list \<Rightarrow> object"
  ra_kind_of :: "object \<Rightarrow> string"
  ra_name_of :: "object \<Rightarrow> string"
  ra_namespace_of :: "object \<Rightarrow> string"
  ra_created_of :: "object \<Rightarrow> instant"
  ra_zeroQuantity :: string
  ra_cpu :: "resources \<Rightarrow> string"
  ra_memory :: "resources \<Rightarrow> string"
  ra_parseQuantity :: "string \<Rightarrow> (int \<times> int) option"
  ra_pemDecode :: "string \<Rightarrow> ((string \<times> string) \<times> string) option"
  ra_parseCertificate :: "string \<Rightarrow> ('e, certificate) fallible"

subsection \<open>Shared helpers\<close>

definition wrap32 :: "int \<Rightarrow> int" where
  "wrap32 i = (i + 2 ^ 31) mod 2 ^ 32 - 2 ^ 31"

text \<open>\<open>age\<close>: the text of the time since an instant.\<close>

definition age :: "instant \<Rightarrow> instant \<Rightarrow> string" where
  "age now t =
     (if t = 0 then []
      else let d = time_sub now t in
        if d \<ge> 48 * hour then
          itoa (int_of_float (Hours d) div 24) @ ''d'' @ itoa (int_of_float (Hours d) mod 24) @ ''h''
        else if d \<ge> hour then
          itoa (int_of_float (Hours d)) @ ''h'' @ itoa (int_of_float (Minutes d) mod 60) @ ''m''
        else if d \<ge> minute then itoa (int_of_float (Minutes d)) @ ''m''
        else itoa (int_of_float (Seconds d)) @ ''s'')"

definition quantities :: "resources \<Rightarrow> any" where
  "quantities rl = text_map_value rl"

definition condition_entry :: "condition \<Rightarrow> any" where
  "condition_entry c =
     JMap [(''type'', JStr (cn_type c)), (''status'', JStr (cn_status c)),
           (''reason'', JStr (cn_reason c)), (''message'', JStr (cn_message c))]"

definition defaultListLimit :: int where
  "defaultListLimit = 100"

definition list_limit :: "args \<Rightarrow> int \<Rightarrow> int" where
  "list_limit a most =
     (let limit = arg_intOr a ''limit'' defaultListLimit in
      if limit < 1 \<or> limit > most then defaultListLimit else limit)"

lemma list_limit_range: "100 \<le> most \<Longrightarrow> 1 \<le> list_limit a most \<and> list_limit a most \<le> most"
  by (auto simp: list_limit_def defaultListLimit_def Let_def)

lemma int_of_float_floor: "0 \<le> q \<Longrightarrow> q < 2 ^ 63 \<Longrightarrow> int_of_float q = \<lfloor>q\<rfloor>"
  by (simp add: int_of_float_def Let_def floor_less_iff not_less [symmetric])

definition off_boundary :: "duration \<Rightarrow> duration \<Rightarrow> bool" where
  "off_boundary u d \<longleftrightarrow> (d mod u) * 2 ^ 31 \<le> u * (2 ^ 31 - 1)"

lemma unit_floor:
  assumes "0 < u" "u \<le> hour" "0 \<le> d" "d div u < 2 ^ 22" "off_boundary u d"
  shows "int_of_float (in_units u d) = d div u"
proof -
  have f: "\<lfloor>in_units u d\<rfloor> = d div u"
    using assms by (intro in_units_whole) (simp_all add: off_boundary_def)
  have "0 \<le> d div u" using assms(1,3) by (simp add: pos_imp_zdiv_nonneg_iff)
  with f have "0 \<le> in_units u d" by (metis zero_le_floor)
  moreover have "in_units u d < 2 ^ 63"
  proof -
    have "in_units u d < of_int (d div u) + 1" using f by linarith
    also have "\<dots> \<le> of_int (2 ^ 22)" using assms(4) by (metis of_int_1 of_int_add of_int_le_iff zless_imp_add1_zle)
    also have "\<dots> \<le> (2 ^ 63 :: rat)" by simp
    finally show ?thesis .
  qed
  ultimately show ?thesis using f by (simp add: int_of_float_floor)
qed

lemma units: "second = 1000000000" "minute = 60000000000" "hour = 3600000000000"
  by (simp_all add: hour_def minute_def second_def)

text \<open>
  C40. The age is exact to the unit shown, except in the last microsecond before the next hour (and the
  like for minutes): the fraction a float64 keeps is then rounded up.
\<close>

theorem age_exact:
  assumes "t \<noteq> 0" "0 \<le> now - t" "now - t < 2 ^ 63"
    and "off_boundary hour (now - t)" "off_boundary minute (now - t)" "off_boundary second (now - t)"
  shows "age now t =
    (let d = now - t in
     if d \<ge> 48 * hour then itoa (d div (24 * hour)) @ ''d'' @ itoa (d div hour mod 24) @ ''h''
     else if d \<ge> hour then itoa (d div hour) @ ''h'' @ itoa (d div minute mod 60) @ ''m''
     else if d \<ge> minute then itoa (d div minute) @ ''m'' else itoa (d div second) @ ''s'')"
proof -
  define d where "d = now - t"
  note a = assms(2-) [folded d_def]
  have s: "time_sub now t = d" using a(1,2) by (simp add: time_sub_def d_def)
  have "d div hour < 2 ^ 22" using a(2) by (simp add: units div_less_iff_less_mult)
  then have h: "int_of_float (Hours d) = d div hour"
    unfolding Hours_def using a by (intro unit_floor) (simp_all add: units)
  have m: "int_of_float (Minutes d) = d div minute" if "d < 48 * hour"
  proof -
    have "d div minute < 2 ^ 22" using that by (simp add: units div_less_iff_less_mult)
    then show ?thesis unfolding Minutes_def using a by (intro unit_floor) (simp_all add: units)
  qed
  have c: "int_of_float (Seconds d) = d div second" if "d < minute"
  proof -
    have "d div second < 2 ^ 22" using that by (simp add: units div_less_iff_less_mult)
    then show ?thesis unfolding Seconds_def using a by (intro unit_floor) (simp_all add: units)
  qed
  have q: "d div hour div 24 = d div (24 * hour)"
    by (simp add: units zdiv_zmult2_eq flip: zdiv_zmult2_eq)
  have lt: "d < 48 * hour" if "d < minute" using that by (simp add: units)
  show ?thesis
    using assms(1) m c lt by (simp add: age_def s h q Let_def d_def [symmetric])
qed

theorem age_exact_witness:
  "age (200000 * second) second = ''2d7h'' \<and> age (5000 * second) second = ''1h23m''"
proof -
  have p: "second \<noteq> 0" "0 \<le> 200000 * second - second" "200000 * second - second < 2 ^ 63"
    "off_boundary hour (200000 * second - second)" "off_boundary minute (200000 * second - second)"
    "off_boundary second (200000 * second - second)"
    and q: "0 \<le> 5000 * second - second" "5000 * second - second < 2 ^ 63"
    "off_boundary hour (5000 * second - second)" "off_boundary minute (5000 * second - second)"
    "off_boundary second (5000 * second - second)"
    by (simp_all add: off_boundary_def units)
  have n: "itoa 2 = ''2''" "itoa 7 = ''7''" "itoa 1 = ''1''" "itoa 23 = ''23''" by code_simp+
  show ?thesis
    using age_exact [OF p] age_exact [OF p(1) q] by (simp add: Let_def units n)
qed

end
