(* ===== verification/Workload_Reads.thy ===== *)
theory Workload_Reads
  imports Read_Api
begin

text \<open>
  The tools on pods, events and workloads of \<open>src/internal/mcp/handlers.go\<close>.
\<close>

subsection \<open>Helpers\<close>

definition ready_text :: "int \<Rightarrow> int \<Rightarrow> string" where
  "ready_text ready desired = itoa ready @ ''/'' @ itoa desired"

text \<open>The loop of \<open>podSummary\<close> over the container statuses: ready count, restarts, reason.\<close>

definition status_step :: "containerStatus \<Rightarrow> int \<times> int \<times> string \<Rightarrow> int \<times> int \<times> string" where
  "status_step st acc =
     (let (readyCount, restarts, reason) = acc;
          readyCount' = (if cu_ready st then readyCount + 1 else readyCount);
          waiting = (case st_waiting (cu_state st) of Some w \<Rightarrow> ws_reason w | None \<Rightarrow> []);
          terminated = (case st_terminated (cu_state st) of Some t \<Rightarrow> te_reason t | None \<Rightarrow> [])
      in (readyCount', wrap32 (restarts + cu_restarts st),
          if waiting \<noteq> [] then waiting else if terminated \<noteq> [] then terminated else reason))"

definition podSummary :: "instant \<Rightarrow> podObject \<Rightarrow> object" where
  "podSummary now pod =
     (let (readyCount, restarts, reason0) = fold status_step (pb_statuses pod) (0, 0, []);
          reason = (if pb_reason pod \<noteq> [] then pb_reason pod else reason0)
      in [(''name'', JStr (mt_name (pb_meta pod))), (''namespace'', JStr (mt_namespace (pb_meta pod))),
          (''phase'', JStr (pb_phase pod)),
          (''ready'', JStr (ready_text readyCount (int (length (pb_containers pod))))),
          (''restarts'', JInt restarts), (''node'', JStr (pb_node pod)),
          (''age'', JStr (age now (mt_created (pb_meta pod))))] @
         (if reason \<noteq> [] \<and> reason \<noteq> ''Completed'' then [(''reason'', JStr reason)] else []))"

definition containerState :: "instant \<Rightarrow> stateOf \<Rightarrow> string" where
  "containerState now s =
     (case st_running s of
        Some started \<Rightarrow> ''Running since '' @ age now started @ '' ago''
      | None \<Rightarrow>
          (case st_waiting s of
             Some w \<Rightarrow> ''Waiting ('' @ ws_reason w @ ''): '' @ ws_message w
           | None \<Rightarrow>
               (case st_terminated s of
                  Some t \<Rightarrow> ''Terminated ('' @ te_reason t @ '', exit '' @ itoa (te_exitCode t) @ '')''
                | None \<Rightarrow> [])))"

definition eventTime :: "eventObject \<Rightarrow> instant" where
  "eventTime ev =
     (if eo_lastTimestamp ev \<noteq> 0 then eo_lastTimestamp ev
      else if eo_eventTime ev \<noteq> 0 then eo_eventTime ev else eo_created ev)"

definition objectEvents ::
  "('e, 'sel) read_api \<Rightarrow> instant \<Rightarrow> string \<Rightarrow> string \<Rightarrow> string \<Rightarrow> int \<Rightarrow> ('e goerr, any list) fallible" where
  "objectEvents api now ns kind name limit =
     (case ra_events api ns
         \<lparr>qo_labelSelector = [],
          qo_fieldSelector = ''involvedObject.kind='' @ kind @ '',involvedObject.name='' @ name,
          qo_limit = limit\<rparr> of
        Inl err \<Rightarrow> Inl (Api err)
      | Inr items \<Rightarrow>
          Inr (map (\<lambda>ev. JMap
            [(''type'', JStr (eo_type ev)), (''reason'', JStr (eo_reason ev)), (''message'', JStr (eo_message ev)),
             (''count'', JInt (eo_count ev)), (''last_seen'', JStr (age now (eventTime ev)))]) items))"

definition deploymentProblem :: "condition list \<Rightarrow> string" where
  "deploymentProblem conditions =
     (case find (\<lambda>c. (cn_type c = ''Available'' \<or> cn_type c = ''Progressing'') \<and> cn_status c \<noteq> ''True'') conditions of
        Some c \<Rightarrow> cn_reason c @ '': '' @ cn_message c
      | None \<Rightarrow> [])"

subsection \<open>Pods\<close>

definition handleListPods :: "('e, 'sel) read_api \<Rightarrow> instant \<Rightarrow> args \<Rightarrow> ('e goerr, any) fallible" where
  "handleListPods api now a =
     (let ns = arg_str a ''namespace'' in
      case ra_pods api ns \<lparr>qo_labelSelector = arg_str a ''selector'',
          qo_fieldSelector = arg_str a ''field_selector'', qo_limit = list_limit a 500\<rparr> of
        Inl err \<Rightarrow> Inl (Wrap (''list pods in '' @ ns @ '': '') (Api err) [])
      | Inr items \<Rightarrow>
          Inr (JMap [(''namespace'', JStr ns), (''count'', JInt (int (length items))),
                     (''pods'', JList (map (\<lambda>p. JMap (podSummary now p)) items))]))"

text \<open>One container of a pod: the statuses of its name, each overwriting the one before.\<close>

definition container_entry :: "instant \<Rightarrow> containerStatus list \<Rightarrow> containerSpec \<Rightarrow> object" where
  "container_entry now statuses ct =
     (let entry = [(''name'', JStr (co_name ct)), (''image'', JStr (co_image ct))] @
            (if co_requests ct \<noteq> [] \<or> co_limits ct \<noteq> []
             then [(''resources'', JMap [(''requests'', quantities (co_requests ct)), (''limits'', quantities (co_limits ct))])]
             else [])
      in fold (\<lambda>st entry.
           if cu_name st \<noteq> co_name ct then entry
           else
             let e1 = assoc_put ''state'' (JStr (containerState now (cu_state st)))
                   (assoc_put ''restarts'' (JInt (cu_restarts st)) (assoc_put ''ready'' (JBool (cu_ready st)) entry));
                 last = containerState now (cu_last st)
             in if last \<noteq> [] then assoc_put ''last_state'' (JStr last) e1 else e1)
         statuses entry)"

definition pod_condition :: "condition \<Rightarrow> object" where
  "pod_condition c =
     [(''type'', JStr (cn_type c)), (''status'', JStr (cn_status c))] @
     (if cn_reason c \<noteq> [] then [(''reason'', JStr (cn_reason c))] else []) @
     (if cn_message c \<noteq> [] then [(''message'', JStr (cn_message c))] else [])"

definition handleGetPod :: "('e, 'sel) read_api \<Rightarrow> instant \<Rightarrow> args \<Rightarrow> ('e goerr, any) fallible" where
  "handleGetPod api now a =
     (let ns = arg_str a ''namespace''; name = arg_str a ''name'' in
      case ra_pod api ns name of
        Inl err \<Rightarrow> Inl (Wrap (''get pod '' @ ns @ ''/'' @ name @ '': '') (Api err) [])
      | Inr pod \<Rightarrow>
          let events = (case objectEvents api now ns ''Pod'' name 10 of Inr l \<Rightarrow> JList l | Inl _ \<Rightarrow> JNull) in
          Inr (JMap
            [(''namespace'', JStr ns), (''name'', JStr name), (''phase'', JStr (pb_phase pod)),
             (''node'', JStr (pb_node pod)), (''pod_ip'', JStr (pb_ip pod)), (''qos_class'', JStr (pb_qos pod)),
             (''labels'', text_map_value (mt_labels (pb_meta pod))),
             (''age'', JStr (age now (mt_created (pb_meta pod)))),
             (''containers'', JList (map (\<lambda>ct. JMap (container_entry now (pb_statuses pod) ct)) (pb_containers pod))),
             (''conditions'', JList (map (\<lambda>c. JMap (pod_condition c)) (pb_conditions pod))),
             (''events'', events)]))"

definition maxLogBytes :: nat where
  "maxLogBytes = 64 * 1024"

definition handlePodLogs :: "('e, 'sel) read_api \<Rightarrow> args \<Rightarrow> ('e goerr, string) fallible" where
  "handlePodLogs api a =
     (let ns = arg_str a ''namespace''; name = arg_str a ''name'';
          tail = arg_intOr a ''tail_lines'' 100;
          tail' = (if tail > 2000 then 2000 else tail)
      in case ra_logs api ns name
            \<lparr>lo_container = arg_str a ''container'', lo_tailLines = tail', lo_previous = arg_boolean a ''previous''\<rparr> of
           Inl err \<Rightarrow> Inl (Wrap (''logs for '' @ ns @ ''/'' @ name @ '': '') (Api err) [])
         | Inr raw \<Rightarrow>
             if raw = [] then Inr ''(no log output)''
             else if length raw > maxLogBytes then Inr (drop (length raw - maxLogBytes) raw)
             else Inr raw)"

subsection \<open>Events\<close>

definition event_entry :: "instant \<Rightarrow> eventObject \<Rightarrow> object" where
  "event_entry now ev =
     [(''type'', JStr (eo_type ev)), (''reason'', JStr (eo_reason ev)),
      (''object'', JStr (eo_objectKind ev @ ''/'' @ eo_objectName ev)), (''message'', JStr (eo_message ev)),
      (''count'', JInt (eo_count ev)), (''last_seen'', JStr (age now (eventTime ev)))]"

definition handleListEvents :: "('e, 'sel) read_api \<Rightarrow> instant \<Rightarrow> args \<Rightarrow> ('e goerr, any) fallible" where
  "handleListEvents api now a =
     (let ns = arg_str a ''namespace'';
          obj = arg_str a ''object'';
          fieldList = (if obj \<noteq> [] then [''involvedObject.name='' @ obj] else []) @
                   (if arg_boolean a ''warnings_only'' then [''type=Warning''] else [])
      in case ra_events api ns \<lparr>qo_labelSelector = [], qo_fieldSelector = join fieldList '','', qo_limit = defaultListLimit\<rparr> of
           Inl err \<Rightarrow> Inl (Wrap (''list events in '' @ ns @ '': '') (Api err) [])
         | Inr items \<Rightarrow>
             let out = map (\<lambda>ev. JMap (event_entry now ev)) (sort_slice eventTime items) in
             Inr (JMap [(''namespace'', JStr ns), (''count'', JInt (int (length out))), (''events'', JList out)]))"

subsection \<open>Workloads\<close>

definition desired_replicas :: "int option \<Rightarrow> int" where
  "desired_replicas r = (case r of Some n \<Rightarrow> n | None \<Rightarrow> 1)"

definition deployment_entry :: "instant \<Rightarrow> string \<Rightarrow> 'sel deployment \<Rightarrow> object" where
  "deployment_entry now ns d =
     (let desired = desired_replicas (dp_replicas d) in
      [(''kind'', JStr ''Deployment''), (''name'', JStr (mt_name (dp_meta d))), (''namespace'', JStr ns),
       (''ready'', JStr (ready_text (dp_ready d) desired)), (''upToDate'', JInt (dp_updated d)),
       (''available'', JInt (dp_available d)), (''age'', JStr (age now (mt_created (dp_meta d))))] @
      (if dp_ready d < desired then [(''degraded_reason'', JStr (deploymentProblem (dp_conditions d)))] else []))"

definition statefulset_entry :: "instant \<Rightarrow> string \<Rightarrow> 'sel statefulSet \<Rightarrow> object" where
  "statefulset_entry now ns s =
     [(''kind'', JStr ''StatefulSet''), (''name'', JStr (mt_name (ss_meta s))), (''namespace'', JStr ns),
      (''ready'', JStr (ready_text (ss_ready s) (desired_replicas (ss_replicas s)))),
      (''age'', JStr (age now (mt_created (ss_meta s))))]"

definition daemonset_entry :: "instant \<Rightarrow> string \<Rightarrow> 'sel daemonSet \<Rightarrow> object" where
  "daemonset_entry now ns d =
     [(''kind'', JStr ''DaemonSet''), (''name'', JStr (mt_name (da_meta d))), (''namespace'', JStr ns),
      (''ready'', JStr (ready_text (da_ready d) (da_desired d))),
      (''age'', JStr (age now (mt_created (da_meta d))))]"

definition handleListWorkloads :: "('e, 'sel) read_api \<Rightarrow> instant \<Rightarrow> args \<Rightarrow> ('e goerr, any) fallible" where
  "handleListWorkloads api now a =
     (let ns = arg_str a ''namespace'' in
      case ra_deployments api ns of
        Inl err \<Rightarrow> Inl (Wrap (''list deployments in '' @ ns @ '': '') (Api err) [])
      | Inr deps \<Rightarrow>
          (case ra_statefulsets api ns of
             Inl err \<Rightarrow> Inl (Wrap (''list statefulsets in '' @ ns @ '': '') (Api err) [])
           | Inr stss \<Rightarrow>
               (case ra_daemonsets api ns of
                  Inl err \<Rightarrow> Inl (Wrap (''list daemonsets in '' @ ns @ '': '') (Api err) [])
                | Inr dss \<Rightarrow>
                    let out = map (deployment_entry now ns) deps @ map (statefulset_entry now ns) stss @
                              map (daemonset_entry now ns) dss in
                    Inr (JMap [(''namespace'', JStr ns), (''count'', JInt (int (length out))),
                               (''workloads'', slice_value (map JMap out))]))))"

text \<open>
  What \<open>handleGetWorkload\<close> reads of the workload, by kind: selector, status and conditions.
\<close>

definition read_workload ::
  "('e, 'sel) read_api \<Rightarrow> string \<Rightarrow> string \<Rightarrow> string \<Rightarrow> ('e goerr, 'sel option \<times> object \<times> condition list) fallible" where
  "read_workload api ns kind name =
     (if kind = ''deployment'' then
        (case ra_deployment api ns name of
           Inl err \<Rightarrow> Inl (Wrap (''get deployment '' @ ns @ ''/'' @ name @ '': '') (Api err) [])
         | Inr d \<Rightarrow> Inr (dp_selector d,
             [(''desired'', JInt (desired_replicas (dp_replicas d))), (''ready'', JInt (dp_ready d)),
              (''updated'', JInt (dp_updated d)), (''available'', JInt (dp_available d)),
              (''unavailable'', JInt (dp_unavailable d))], dp_conditions d))
      else if kind = ''statefulset'' then
        (case ra_statefulset api ns name of
           Inl err \<Rightarrow> Inl (Wrap (''get statefulset '' @ ns @ ''/'' @ name @ '': '') (Api err) [])
         | Inr s \<Rightarrow> Inr (ss_selector s,
             [(''desired'', JInt (desired_replicas (ss_replicas s))), (''ready'', JInt (ss_ready s)),
              (''updated'', JInt (ss_updated s)), (''current'', JInt (ss_current s))], ss_conditions s))
      else if kind = ''daemonset'' then
        (case ra_daemonset api ns name of
           Inl err \<Rightarrow> Inl (Wrap (''get daemonset '' @ ns @ ''/'' @ name @ '': '') (Api err) [])
         | Inr d \<Rightarrow> Inr (da_selector d,
             [(''desired'', JInt (da_desired d)), (''ready'', JInt (da_ready d)),
              (''available'', JInt (da_available d)), (''misscheduled'', JInt (da_misscheduled d))], da_conditions d))
      else Inl (Msg (''unknown kind '' @ quoted kind @ '' (use deployment, statefulset, or daemonset)'')))"

text \<open>The pods of a workload: none where the selector does not convert or the list fails.\<close>

definition selected_pods :: "('e, 'sel) read_api \<Rightarrow> string \<Rightarrow> 'sel option \<Rightarrow> podObject list" where
  "selected_pods api ns selector =
     (case Option.bind selector (ra_selectorString api) of
        None \<Rightarrow> []
      | Some s \<Rightarrow>
          (case ra_pods api ns (no_options\<lparr>qo_labelSelector := s\<rparr>) of Inr items \<Rightarrow> items | Inl _ \<Rightarrow> []))"

definition handleGetWorkload :: "('e, 'sel) read_api \<Rightarrow> instant \<Rightarrow> args \<Rightarrow> ('e goerr, any) fallible" where
  "handleGetWorkload api now a =
     (let ns = arg_str a ''namespace''; kind = to_lower (arg_str a ''kind''); name = arg_str a ''name'' in
      case read_workload api ns kind name of
        Inl err \<Rightarrow> Inl err
      | Inr (selector, status, conditions) \<Rightarrow>
          Inr (JMap
            [(''kind'', JStr kind), (''namespace'', JStr ns), (''name'', JStr name), (''status'', JMap status),
             (''conditions'', slice_value (map condition_entry conditions)),
             (''pods'', slice_value (map (\<lambda>p. JMap (podSummary now p)) (selected_pods api ns selector)))]))"

end
