(* ===== verification/Cluster_Reads.thy ===== *)
theory Cluster_Reads
  imports Read_Api "HOL-Library.Signed_Division"
begin

text \<open>
  The tools on services, routes, storage, quota, metrics and nodes of
  \<open>src/internal/mcp/handlers.go\<close>.
\<close>

subsection \<open>Services and routes\<close>

definition service_selector :: "string \<Rightarrow> queryOptions" where
  "service_selector name = no_options\<lparr>qo_labelSelector := ''kubernetes.io/service-name='' @ name\<rparr>"

definition is_ready :: "endpoint \<Rightarrow> bool" where
  "is_ready ep \<longleftrightarrow> ep_ready ep = Some True"

definition endpointCounts :: "('e, 'sel) read_api \<Rightarrow> string \<Rightarrow> string \<Rightarrow> int \<times> int" where
  "endpointCounts api ns svcName =
     (case ra_endpointSlices api ns (service_selector svcName) of
        Inl _ \<Rightarrow> (0, 0)
      | Inr slices \<Rightarrow>
          fold (\<lambda>sl acc. fold (\<lambda>ep (ready, notReady).
              if is_ready ep then (ready + 1, notReady) else (ready, notReady + 1)) sl acc) slices (0, 0))"

definition port_text :: "servicePort \<Rightarrow> string" where
  "port_text p = itoa (sp_port p) @ ''->'' @ sp_targetPort p @ ''/'' @ sp_protocol p"

definition handleListServices :: "('e, 'sel) read_api \<Rightarrow> args \<Rightarrow> ('e goerr, any) fallible" where
  "handleListServices api a =
     (let ns = arg_str a ''namespace'' in
      case ra_services api ns of
        Inl err \<Rightarrow> Inl (Wrap (''list services in '' @ ns @ '': '') (Api err) [])
      | Inr items \<Rightarrow>
          let out = map (\<lambda>svc.
              let (ready, notReady) = endpointCounts api ns (mt_name (sv_meta svc)) in
              JMap [(''name'', JStr (mt_name (sv_meta svc))), (''namespace'', JStr ns), (''type'', JStr (sv_type svc)),
                    (''cluster_ip'', JStr (sv_clusterIP svc)),
                    (''ports'', JList (map (\<lambda>p. JStr (port_text p)) (sv_ports svc))),
                    (''endpoints_ready'', JInt ready), (''endpoints_not_ready'', JInt notReady)]) items
          in Inr (JMap [(''namespace'', JStr ns), (''count'', JInt (int (length out))), (''services'', JList out)]))"

definition endpoint_entry :: "endpoint \<Rightarrow> object" where
  "endpoint_entry ep =
     [(''addresses'', slice_value (map JStr (ep_addresses ep))), (''ready'', JBool (is_ready ep))] @
     (case ep_target ep of
        Some (kind, name) \<Rightarrow> [(''target'', JStr (kind @ ''/'' @ name))]
      | None \<Rightarrow> [])"

definition handleGetService :: "('e, 'sel) read_api \<Rightarrow> args \<Rightarrow> ('e goerr, any) fallible" where
  "handleGetService api a =
     (let ns = arg_str a ''namespace''; name = arg_str a ''name'' in
      case ra_service api ns name of
        Inl err \<Rightarrow> Inl (Wrap (''get service '' @ ns @ ''/'' @ name @ '': '') (Api err) [])
      | Inr svc \<Rightarrow>
          (case ra_endpointSlices api ns (service_selector name) of
             Inl err \<Rightarrow> Inl (Wrap (''list endpointslices for '' @ ns @ ''/'' @ name @ '': '') (Api err) [])
           | Inr slices \<Rightarrow>
               Inr (JMap
                 [(''namespace'', JStr ns), (''name'', JStr name), (''type'', JStr (sv_type svc)),
                  (''cluster_ip'', JStr (sv_clusterIP svc)), (''selector'', text_map_value (sv_selector svc)),
                  (''endpoints'', slice_value (map (\<lambda>ep. JMap (endpoint_entry ep)) (concat slices)))])))"

definition routeGVR :: gvr where
  "routeGVR = \<lparr>gvr_group = ''route.openshift.io'', gvr_version = ''v1'', gvr_resource = ''routes''\<rparr>"

definition nested_text :: "('e, 'sel) read_api \<Rightarrow> object \<Rightarrow> string list \<Rightarrow> string" where
  "nested_text api m p = (case ra_nested_string api m p of Some s \<Rightarrow> s | None \<Rightarrow> [])"

text \<open>\<open>%v\<close> of the status of a condition: the API has a string there, or nothing.\<close>

definition status_text :: "(any \<Rightarrow> string) \<Rightarrow> any option \<Rightarrow> string" where
  "status_text other v =
     (case v of None \<Rightarrow> ''<nil>'' | Some JNull \<Rightarrow> ''<nil>'' | Some (JStr s) \<Rightarrow> s
      | Some (JBool b) \<Rightarrow> (if b then ''true'' else ''false'') | Some (JInt i) \<Rightarrow> itoa i | Some x \<Rightarrow> other x)"

definition admitted_condition :: "any \<Rightarrow> object option" where
  "admitted_condition craw =
     (case craw of JMap cond \<Rightarrow> if map_of cond ''type'' = Some (JStr ''Admitted'') then Some cond else None | _ \<Rightarrow> None)"

definition routeAdmitted :: "(any \<Rightarrow> string) \<Rightarrow> ('e, 'sel) read_api \<Rightarrow> object \<Rightarrow> string" where
  "routeAdmitted other api r =
     (case concat (map (\<lambda>raw. case raw of
             JMap ing \<Rightarrow> List.map_filter admitted_condition (ra_nested_slice api ing [''conditions''])
           | _ \<Rightarrow> []) (ra_nested_slice api r [''status'', ''ingress''])) of
        cond # _ \<Rightarrow> status_text other (map_of cond ''status'')
      | [] \<Rightarrow> ''Unknown'')"

definition handleListRoutes :: "(any \<Rightarrow> string) \<Rightarrow> ('e, 'sel) read_api \<Rightarrow> args \<Rightarrow> ('e goerr, any) fallible" where
  "handleListRoutes other api a =
     (let ns = arg_str a ''namespace'' in
      case ra_list api routeGVR ns no_options of
        Inl err \<Rightarrow> Inl (Wrap (''list routes in '' @ ns @ '' (OpenShift Route API required): '') (Api err) [])
      | Inr (items, _) \<Rightarrow>
          let out = map (\<lambda>r. JMap
              [(''name'', JStr (ra_name_of api r)), (''namespace'', JStr ns),
               (''host'', JStr (nested_text api r [''spec'', ''host''])),
               (''service'', JStr (nested_text api r [''spec'', ''to'', ''name''])),
               (''tls'', JStr (nested_text api r [''spec'', ''tls'', ''termination''])),
               (''admitted'', JStr (routeAdmitted other api r))]) items
          in Inr (JMap [(''namespace'', JStr ns), (''count'', JInt (int (length out))), (''routes'', JList out)]))"

subsection \<open>Storage and quota\<close>

definition handleListPVCs :: "('e, 'sel) read_api \<Rightarrow> instant \<Rightarrow> args \<Rightarrow> ('e goerr, any) fallible" where
  "handleListPVCs api now a =
     (let ns = arg_str a ''namespace'' in
      case ra_claims api ns of
        Inl err \<Rightarrow> Inl (Wrap (''list pvcs in '' @ ns @ '': '') (Api err) [])
      | Inr items \<Rightarrow>
          let out = map (\<lambda>pvc. JMap
              [(''name'', JStr (mt_name (pv_meta pvc))), (''namespace'', JStr ns), (''phase'', JStr (pv_phase pvc)),
               (''capacity'', JStr (label (pv_capacity pvc) ''storage'')),
               (''storage_class'', JStr (case pv_class pvc of Some c \<Rightarrow> c | None \<Rightarrow> [])),
               (''volume'', JStr (pv_volume pvc)), (''age'', JStr (age now (mt_created (pv_meta pvc))))]) items
          in Inr (JMap [(''namespace'', JStr ns), (''count'', JInt (int (length out))), (''pvcs'', JList out)]))"

definition quota_usage :: "string \<Rightarrow> resourceQuota \<Rightarrow> (string \<times> string) list" where
  "quota_usage zero q =
     map (\<lambda>(res, hard).
       (res, (case map_of (rq_used q) res of Some used \<Rightarrow> used | None \<Rightarrow> zero) @ '' / '' @ hard)) (rq_hard q)"

definition limit_entry :: "limitItem \<Rightarrow> any" where
  "limit_entry item = JMap
     [(''type'', JStr (li_type item)), (''default_limit'', quantities (li_default item)),
      (''default_request'', quantities (li_defaultRequest item)), (''max'', quantities (li_max item))]"

definition handleGetQuota :: "('e, 'sel) read_api \<Rightarrow> args \<Rightarrow> ('e goerr, any) fallible" where
  "handleGetQuota api a =
     (let ns = arg_str a ''namespace'' in
      case ra_quotas api ns of
        Inl err \<Rightarrow> Inl (Wrap (''list resourcequotas in '' @ ns @ '': '') (Api err) [])
      | Inr quotas \<Rightarrow>
          (case ra_limitRanges api ns of
             Inl err \<Rightarrow> Inl (Wrap (''list limitranges in '' @ ns @ '': '') (Api err) [])
           | Inr limits \<Rightarrow>
               Inr (JMap
                 [(''namespace'', JStr ns),
                  (''resource_quotas'', JList (map (\<lambda>q. JMap
                     [(''name'', JStr (rq_name q)),
                      (''used_vs_hard'', JMap (map (\<lambda>(k, v). (k, JStr v)) (quota_usage (ra_zeroQuantity api) q)))]) quotas)),
                  (''limit_ranges'', JList (map (\<lambda>lr. JMap
                     [(''name'', JStr (lr_name lr)), (''limits'', JList (map limit_entry (lr_limits lr)))]) limits))])))"

subsection \<open>Metrics\<close>

definition podMetricsGVR :: gvr where
  "podMetricsGVR = \<lparr>gvr_group = ''metrics.k8s.io'', gvr_version = ''v1beta1'', gvr_resource = ''pods''\<rparr>"

record usage =
  us_Pod :: string
  us_CPUMilli :: int
  us_MemoryMi :: int

text \<open>One container: a quantity that is missing or does not parse adds nothing; sums wrap at 64 bits.\<close>

definition usage_step :: "('e, 'sel) read_api \<Rightarrow> any \<Rightarrow> int \<times> int \<Rightarrow> int \<times> int" where
  "usage_step api raw acc =
     (case raw of
        JMap m \<Rightarrow>
          (let (cpu, mem) = acc in
           (case Option.bind (ra_nested_string api m [''usage'', ''cpu'']) (ra_parseQuantity api) of
              Some (milli, _) \<Rightarrow> wrap64 (cpu + milli) | None \<Rightarrow> cpu,
            case Option.bind (ra_nested_string api m [''usage'', ''memory'']) (ra_parseQuantity api) of
              Some (_, whole) \<Rightarrow> wrap64 (mem + whole sdiv (1024 * 1024)) | None \<Rightarrow> mem))
      | _ \<Rightarrow> acc)"

definition pod_usage :: "('e, 'sel) read_api \<Rightarrow> object \<Rightarrow> usage" where
  "pod_usage api item =
     (let (cpu, mem) = fold (usage_step api) (ra_nested_slice api item [''containers'']) (0, 0)
      in \<lparr>us_Pod = ra_name_of api item, us_CPUMilli = cpu, us_MemoryMi = mem\<rparr>)"

definition usage_value :: "usage \<Rightarrow> any" where
  "usage_value u = JMap [(''pod'', JStr (us_Pod u)), (''cpu_millicores'', JInt (us_CPUMilli u)), (''memory_mi'', JInt (us_MemoryMi u))]"

definition handleTopPods :: "('e, 'sel) read_api \<Rightarrow> args \<Rightarrow> ('e goerr, any) fallible" where
  "handleTopPods api a =
     (let ns = arg_str a ''namespace'' in
      case ra_list api podMetricsGVR ns no_options of
        Inl err \<Rightarrow> Inl (Wrap (''pod metrics in '' @ ns @ '' (metrics-server/metrics.k8s.io required): '') (Api err) [])
      | Inr (items, _) \<Rightarrow>
          let out = sort_slice (\<lambda>u. - us_CPUMilli u) (map (pod_usage api) items)
          in Inr (JMap [(''namespace'', JStr ns), (''count'', JInt (int (length out))),
                        (''pods'', JList (map usage_value out))]))"

subsection \<open>Nodes\<close>

definition rolePrefix :: string where
  "rolePrefix = ''node-role.kubernetes.io/''"

definition nodeRoles :: "node \<Rightarrow> string list" where
  "nodeRoles nd =
     sort_slice id (concat (map (\<lambda>(label, _).
       let role = drop (length rolePrefix) label in
       if has_prefix label rolePrefix \<and> role \<noteq> [] then [role] else []) (mt_labels (nd_meta nd))))"

definition roles_value :: "node \<Rightarrow> any" where
  "roles_value nd = slice_value (map JStr (nodeRoles nd))"

definition node_health :: "condition list \<Rightarrow> string \<times> string list" where
  "node_health conditions =
     fold (\<lambda>c (ready, pressures).
         if cn_type c = ''Ready'' then (cn_status c, pressures)
         else if cn_status c = ''True'' then (ready, pressures @ [cn_type c])
         else (ready, pressures)) conditions (''Unknown'', [])"

definition node_entry :: "('e, 'sel) read_api \<Rightarrow> instant \<Rightarrow> node \<Rightarrow> object" where
  "node_entry api now nd =
     (let (ready, pressures) = node_health (nd_conditions nd) in
      [(''name'', JStr (mt_name (nd_meta nd))), (''ready'', JStr ready), (''roles'', roles_value nd),
       (''kubelet'', JStr (nd_kubelet nd)), (''cpu'', JStr (ra_cpu api (nd_allocatable nd))),
       (''memory'', JStr (ra_memory api (nd_allocatable nd))), (''taints'', JInt (int (length (nd_taints nd)))),
       (''pressure'', slice_value (map JStr pressures)), (''age'', JStr (age now (mt_created (nd_meta nd))))])"

definition handleListNodes :: "('e, 'sel) read_api \<Rightarrow> instant \<Rightarrow> args \<Rightarrow> ('e goerr, any) fallible" where
  "handleListNodes api now a =
     (case ra_nodes api of
        Inl err \<Rightarrow> Inl (Wrap ''list nodes: '' (Api err) [])
      | Inr items \<Rightarrow>
          Inr (JMap [(''count'', JInt (int (length items))),
                     (''nodes'', JList (map (\<lambda>nd. JMap (node_entry api now nd)) items))]))"

definition taint_text :: "taint \<Rightarrow> string" where
  "taint_text t = ta_key t @ ''='' @ ta_value t @ '':'' @ ta_effect t"

definition handleGetNode :: "('e, 'sel) read_api \<Rightarrow> args \<Rightarrow> ('e goerr, any) fallible" where
  "handleGetNode api a =
     (let name = arg_str a ''name'' in
      case ra_node api name of
        Inl err \<Rightarrow> Inl (Wrap (''get node '' @ name @ '': '') (Api err) [])
      | Inr nd \<Rightarrow>
          Inr (JMap
            [(''name'', JStr name), (''roles'', roles_value nd),
             (''conditions'', JList (map condition_entry (nd_conditions nd))),
             (''taints'', JList (map (\<lambda>t. JStr (taint_text t)) (nd_taints nd))),
             (''capacity'', quantities (nd_capacity nd)), (''allocatable'', quantities (nd_allocatable nd)),
             (''node_info'', JMap
                [(''kubelet'', JStr (nd_kubelet nd)), (''os_image'', JStr (nd_osImage nd)),
                 (''kernel'', JStr (nd_kernel nd)), (''container_runtime'', JStr (nd_containerRuntime nd))])]))"

end
