(* ===== verification/Resource_Reads.thy ===== *)
theory Resource_Reads
  imports Read_Api Redact
begin

text \<open>
  The generic reads and the certificate report of \<open>src/internal/mcp/handlers.go\<close>. An object read by
  \<open>handleGetResource\<close> passes through the redaction of \<open>Redact\<close>. Decoding PEM and parsing X.509
  are parameters (\<open>ra_pemDecode\<close>, \<open>ra_parseCertificate\<close>); certificate times are in UTC.
\<close>

subsection \<open>Generic reads\<close>

definition requested_gvr :: "args \<Rightarrow> gvr" where
  "requested_gvr a =
     \<lparr>gvr_group = arg_str a ''group'', gvr_version = arg_str a ''version'', gvr_resource = arg_str a ''resource''\<rparr>"

definition redactionNote :: string where
  "redactionNote = ''credential-looking values were replaced with [redacted]; '' @
     ''the fields are shown so you can say a value is set without revealing it''"

definition stripped :: "('e, 'sel) read_api \<Rightarrow> object \<Rightarrow> object" where
  "stripped api obj =
     ra_remove_nested api (ra_remove_nested api obj [''metadata'', ''managedFields''])
       [''metadata'', ''annotations'', ''kubectl.kubernetes.io/last-applied-configuration'']"

text \<open>The answer about a redacted object: the object itself where nothing was replaced.\<close>

definition redacted_answer :: "object \<times> nat \<Rightarrow> any" where
  "redacted_answer r =
     (case r of (obj, n) \<Rightarrow>
        if n > 0 then JMap [(''object'', JMap obj), (''redacted'', JInt (int n)), (''note'', JStr redactionNote)]
        else JMap obj)"

definition handleGetResource :: "('e, 'sel) read_api \<Rightarrow> args \<Rightarrow> ('e goerr, any) fallible" where
  "handleGetResource api a =
     (let gvr = requested_gvr a; ns = arg_str a ''namespace''; name = arg_str a ''name'' in
      case ra_get api gvr ns name of
        Inl err \<Rightarrow> Inl (Wrap (''get '' @ ra_gvrString api gvr @ '' '' @ quoted name @ '': '') (Api err) [])
      | Inr obj \<Rightarrow> Inr (redacted_answer (redactObject (stripped api obj))))"

definition resource_entry :: "('e, 'sel) read_api \<Rightarrow> instant \<Rightarrow> object \<Rightarrow> object" where
  "resource_entry api now item =
     [(''kind'', JStr (ra_kind_of api item)), (''name'', JStr (ra_name_of api item)),
      (''namespace'', JStr (ra_namespace_of api item)), (''age'', JStr (age now (ra_created_of api item)))]"

definition handleListResource :: "('e, 'sel) read_api \<Rightarrow> instant \<Rightarrow> args \<Rightarrow> ('e goerr, any) fallible" where
  "handleListResource api now a =
     (let gvr = requested_gvr a in
      case ra_list api gvr (arg_str a ''namespace'') \<lparr>qo_labelSelector = arg_str a ''selector'',
          qo_fieldSelector = arg_str a ''field_selector'', qo_limit = list_limit a 200\<rparr> of
        Inl err \<Rightarrow> Inl (Wrap (''list '' @ ra_gvrString api gvr @ '': '') (Api err) [])
      | Inr (items, continue) \<Rightarrow>
          Inr (JMap
            ([(''resource'', JStr (ra_gvrString api gvr)), (''count'', JInt (int (length items))),
              (''items'', JList (map (\<lambda>item. JMap (resource_entry api now item)) items))] @
             (if continue \<noteq> []
              then [(''truncated'', JBool True),
                    (''hint'', JStr ''more items exist; narrow with namespace, selector or field_selector'')]
              else []))))"

subsection \<open>Dates\<close>

text \<open>The civil date of a day, counted from the first of January of year 1.\<close>

definition year_and_day :: "int \<Rightarrow> int \<times> int" where
  "year_and_day d =
     (let n400 = d div 146097; d400 = d mod 146097;
          n100 = min 3 (d400 div 36524); d100 = d400 - n100 * 36524;
          n4 = d100 div 1461; d4 = d100 mod 1461;
          n1 = min 3 (d4 div 365); d1 = d4 - n1 * 365
      in (400 * n400 + 100 * n100 + 4 * n4 + n1 + 1, d1))"

definition leap_year :: "int \<Rightarrow> bool" where
  "leap_year y \<longleftrightarrow> y mod 4 = 0 \<and> (y mod 100 \<noteq> 0 \<or> y mod 400 = 0)"

definition month_lengths :: "int \<Rightarrow> int list" where
  "month_lengths y = [31, if leap_year y then 29 else 28, 31, 30, 31, 30, 31, 31, 30, 31, 30, 31]"

fun month_and_day :: "int list \<Rightarrow> int \<Rightarrow> int \<Rightarrow> int \<times> int" where
  "month_and_day [] m d = (m, d + 1)"
| "month_and_day (l # ls) m d = (if d < l then (m, d + 1) else month_and_day ls (m + 1) (d - l))"

definition padded :: "nat \<Rightarrow> int \<Rightarrow> string" where
  "padded w i = (let s = itoa i in replicate (w - length s) (CHR ''0'') @ s)"

text \<open>\<open>Time.Format\<close> with the layout \<open>time.RFC3339\<close>, in UTC.\<close>

definition rfc3339 :: "instant \<Rightarrow> string" where
  "rfc3339 t =
     (let day = t div (24 * hour); s = t mod (24 * hour) div second;
          (y, yd) = year_and_day day;
          (mo, d) = month_and_day (month_lengths y) 1 yd
      in padded 4 y @ ''-'' @ padded 2 mo @ ''-'' @ padded 2 d @ ''T'' @
         padded 2 (s div 3600) @ '':'' @ padded 2 (s div 60 mod 60) @ '':'' @ padded 2 (s mod 60) @ ''Z'')"

subsection \<open>Certificates\<close>

partial_function (option) leafCertificate ::
  "(string \<Rightarrow> ((string \<times> string) \<times> string) option) \<Rightarrow> (string \<Rightarrow> ('e, certificate) fallible) \<Rightarrow> string \<Rightarrow>
   ('e goerr, certificate) fallible option" where
  "leafCertificate decode parse pemData =
     (case decode pemData of
        None \<Rightarrow> Some (Inl (Msg ''no certificate in PEM data''))
      | Some ((typ, bytes), rest) \<Rightarrow>
          if typ = ''CERTIFICATE'' then
            Some (case parse bytes of Inl err \<Rightarrow> Inl (Api err) | Inr cert \<Rightarrow> Inr cert)
          else leafCertificate decode parse rest)"

definition days_left :: "instant \<Rightarrow> instant \<Rightarrow> int" where
  "days_left now notAfter = int_of_float (float64 (Hours (time_sub notAfter now) / 24))"

definition shown_sans :: "string list \<Rightarrow> string list" where
  "shown_sans names =
     (if length names > 8 then take 8 names @ [''(+'' @ itoa (int (length names) - 8) @ '' more)''] else names)"

definition certificate_entry :: "instant \<Rightarrow> string \<Rightarrow> string \<Rightarrow> certificate \<Rightarrow> object" where
  "certificate_entry now secretName key cert =
     [(''secret'', JStr secretName), (''source'', JStr key), (''subject'', JStr (ce_subject cert)),
      (''issuer'', JStr (ce_issuer cert)), (''not_before'', JStr (rfc3339 (ce_notBefore cert))),
      (''not_after'', JStr (rfc3339 (ce_notAfter cert))), (''days_left'', JInt (days_left now (ce_notAfter cert))),
      (''expired'', JBool (now > ce_notAfter cert))] @
     (if ce_dnsNames cert \<noteq> [] then [(''sans'', JList (map JStr (shown_sans (ce_dnsNames cert))))] else [])"

text \<open>One key of a secret: nothing where it is absent, empty or holds no certificate.\<close>

definition secret_key_entry :: "('e, 'sel) read_api \<Rightarrow> instant \<Rightarrow> secret \<Rightarrow> string \<Rightarrow> object list option" where
  "secret_key_entry api now sec key =
     (case map_of (se_data sec) key of
        None \<Rightarrow> Some []
      | Some data \<Rightarrow>
          if data = [] then Some []
          else (case leafCertificate (ra_pemDecode api) (ra_parseCertificate api) data of
                  None \<Rightarrow> None
                | Some (Inl _) \<Rightarrow> Some []
                | Some (Inr cert) \<Rightarrow> Some [certificate_entry now (se_name sec) key cert]))"

fun gather :: "('a \<Rightarrow> 'b list option) \<Rightarrow> 'a list \<Rightarrow> 'b list option" where
  "gather f [] = Some []"
| "gather f (x # xs) =
     (case f x of None \<Rightarrow> None | Some l \<Rightarrow> map_option ((@) l) (gather f xs))"

definition certificateKeys :: "string list" where
  "certificateKeys = [''tls.crt'', ''ca.crt'']"

definition days_key :: "object \<Rightarrow> int" where
  "days_key r = (case map_of r ''days_left'' of Some (JInt n) \<Rightarrow> n | _ \<Rightarrow> 0)"

definition handleListCertificates ::
  "('e, 'sel) read_api \<Rightarrow> instant \<Rightarrow> args \<Rightarrow> ('e goerr, any) fallible option" where
  "handleListCertificates api now a =
     (let ns = arg_str a ''namespace'' in
      case ra_secrets api ns of
        Inl err \<Rightarrow> Some (Inl (Wrap (''list secrets in '' @ ns @
            '' (certificate read access may not be granted for this namespace): '') (Api err) []))
      | Inr secrets \<Rightarrow>
          map_option (\<lambda>out. Inr (JMap
              [(''namespace'', JStr ns), (''count'', JInt (int (length out))),
               (''certificates'', slice_value (map JMap (sort_slice days_key out)))]))
            (gather (\<lambda>sec. gather (secret_key_entry api now sec) certificateKeys) secrets))"

subsection \<open>Answers about redacted objects\<close>

text \<open>What follows from the contract of a redaction, for any redaction.\<close>

context redactor begin

lemma answer_hides:
  assumes "wf_any (JMap m)" and "credential_at (JMap m) p"
  shows "value_at (redacted_answer (redact m)) (Key ''object'' # p) = Some (JStr redacted) \<and>
    value_at (redacted_answer (redact m)) [Key ''redacted''] = Some (JInt (int (snd (redact m))))"
proof -
  obtain m' n where "redact m = (m', n)" by (rule prod.exhaust)
  with hidden [OF assms this] show ?thesis by (simp add: redacted_answer_def)
qed

lemma answer_alike:
  "wf_any (JMap m) \<Longrightarrow> wf_any (JMap m') \<Longrightarrow> same_public (JMap m) (JMap m') \<Longrightarrow>
   redacted_answer (redact m) = redacted_answer (redact m')"
  by (simp add: alike)

end

end
