(* ===== verification/Reads_Props.thy ===== *)
theory Reads_Props
  imports Workload_Reads Cluster_Reads Resource_Reads
begin

text \<open>
  What the read-only tools guarantee: no credential and no private key reaches an answer, requests
  and answers are bounded, and summaries, counts and orders are those of the objects read.
\<close>

subsection \<open>Credentials and keys\<close>

text \<open>
  C2. No credential leaves through \<open>get_resource\<close>: at every position of the object the server
  returned, without its two noisy fields, that holds a credential, the answer has the marker, inside
  an answer that says how many values were replaced.
\<close>

theorem get_resource_hides_credentials:
  assumes "ra_get api (requested_gvr a) (arg_str a ''namespace'') (arg_str a ''name'') = Inr obj"
    and "wf_any (JMap (stripped api obj))" and "credential_at (JMap (stripped api obj)) p"
  shows "\<exists>v. handleGetResource api a = Inr v \<and>
    value_at v (Key ''object'' # p) = Some (JStr redacted) \<and>
    value_at v [Key ''redacted''] = Some (JInt (int (redact_count (JMap (stripped api obj)))))"
proof -
  have n: "snd (redactObject (stripped api obj)) = redact_count (JMap (stripped api obj))"
    using redactObject_eq [OF assms(2)] by blast
  have "handleGetResource api a = Inr (redacted_answer (redactObject (stripped api obj)))"
    by (simp add: handleGetResource_def Let_def assms(1))
  with rd.answer_hides [OF assms(2,3)] show ?thesis unfolding n by blast
qed

text \<open>
  Nothing about a credential can be learned from \<open>get_resource\<close>: two clusters whose objects
  differ only in the credentials they hold give the same answer.
\<close>

theorem get_resource_noninterference:
  assumes "ra_get api (requested_gvr a) (arg_str a ''namespace'') (arg_str a ''name'') = Inr obj"
    and "ra_get api' (requested_gvr a) (arg_str a ''namespace'') (arg_str a ''name'') = Inr obj'"
    and "wf_any (JMap (stripped api obj))" and "wf_any (JMap (stripped api' obj'))"
    and "same_public (JMap (stripped api obj)) (JMap (stripped api' obj'))"
  shows "handleGetResource api a = handleGetResource api' a"
  using rd.answer_alike [OF assms(3-5)] by (simp add: handleGetResource_def Let_def assms(1,2))

text \<open>Of a secret only the two public keys are looked at.\<close>

definition public_part :: "secret \<Rightarrow> secret" where
  "public_part sec = sec\<lparr>se_data := filter (\<lambda>(k, _). k \<in> {''tls.crt'', ''ca.crt''}) (se_data sec)\<rparr>"

lemma gather_cong: "(\<And>x. x \<in> set xs \<Longrightarrow> f x = g x) \<Longrightarrow> gather f xs = gather g xs"
  by (induction xs) (auto split: option.split)

lemma gather_map: "gather f (map g xs) = gather (\<lambda>x. f (g x)) xs"
  by (induction xs) (auto split: option.split)

lemma map_of_filter_key: "P k \<Longrightarrow> map_of (filter (\<lambda>(k, _). P k) l) k = map_of l k"
  by (induction l) auto

text \<open>
  No private key is read: the certificate report is the same when every secret is stripped of
  all its data but \<open>tls.crt\<close> and \<open>ca.crt\<close>.
\<close>

lemma certificates_public_part:
  "handleListCertificates (api\<lparr>ra_secrets := \<lambda>ns. map_sum id (map public_part) (ra_secrets api ns)\<rparr>) now a =
   handleListCertificates api now a"
proof -
  let ?api = "api\<lparr>ra_secrets := \<lambda>ns. map_sum id (map public_part) (ra_secrets api ns)\<rparr>"
  have "secret_key_entry ?api now (public_part sec) key = secret_key_entry api now sec key"
    if "key \<in> set certificateKeys" for sec key
    using that by (auto simp: secret_key_entry_def public_part_def map_of_filter_key certificateKeys_def split: option.split sum.split)
  then have "gather (secret_key_entry ?api now (public_part sec)) certificateKeys =
      gather (secret_key_entry api now sec) certificateKeys" for sec
    by (rule gather_cong)
  then have "gather (\<lambda>sec. gather (secret_key_entry ?api now sec) certificateKeys) (map public_part secs) =
      gather (\<lambda>sec. gather (secret_key_entry api now sec) certificateKeys) secs" for secs
    by (simp add: gather_map)
  then show ?thesis
    by (cases "ra_secrets api (arg_str a ''namespace'')") (simp_all add: handleListCertificates_def Let_def)
qed

text \<open>\<open>pem.Decode\<close> consumes input: the documented rest is what follows the block.\<close>

definition pem_consumes :: "(string \<Rightarrow> ((string \<times> string) \<times> string) option) \<Rightarrow> bool" where
  "pem_consumes decode \<longleftrightarrow> (\<forall>data block rest. decode data = Some (block, rest) \<longrightarrow> length rest < length data)"

lemma leafCertificate_returns: "pem_consumes decode \<Longrightarrow> \<exists>r. leafCertificate decode parse data = Some r"
proof (induction "length data" arbitrary: data rule: less_induct)
  case less
  then show ?case
    by (subst leafCertificate.simps) (auto simp: pem_consumes_def split: option.split)
qed

lemma gather_some: "(\<And>x. \<exists>l. f x = Some l) \<Longrightarrow> \<exists>l. gather f xs = Some l"
proof (induction xs)
  case (Cons x xs)
  then obtain l l' where "f x = Some l" "gather f xs = Some l'" by blast
  then show ?case by simp
qed simp

text \<open>The blocks of a PEM bundle, in order.\<close>

inductive pem_blocks :: "(string \<Rightarrow> ((string \<times> string) \<times> string) option) \<Rightarrow> string \<Rightarrow> (string \<times> string) list \<Rightarrow> bool"
  for decode where
  no_block: "decode data = None \<Longrightarrow> pem_blocks decode data []"
| next_block: "decode data = Some (b, rest) \<Longrightarrow> pem_blocks decode rest bs \<Longrightarrow> pem_blocks decode data (b # bs)"

lemma leafCertificate_first:
  "pem_blocks decode data bs \<Longrightarrow> leafCertificate decode parse data = Some
     (case find (\<lambda>(typ, _). typ = ''CERTIFICATE'') bs of
        None \<Rightarrow> Inl (Msg ''no certificate in PEM data'')
      | Some (_, bytes) \<Rightarrow> (case parse bytes of Inl err \<Rightarrow> Inl (Api err) | Inr cert \<Rightarrow> Inr cert))"
proof (induction rule: pem_blocks.induct)
  case (no_block data)
  then show ?case by (subst leafCertificate.simps) simp
next
  case (next_block data b rest bs)
  then show ?case by (subst leafCertificate.simps) (auto split: prod.split)
qed

text \<open>
  C29. The certificate report returns on every secret, and the certificate of a bundle is the first
  block of type CERTIFICATE, whatever stands before it (private keys are passed over unread).
\<close>

theorem certificates_returned:
  assumes "pem_consumes (ra_pemDecode api)"
  shows "(\<exists>r. handleListCertificates api now a = Some r) \<and>
    (\<exists>bs. pem_blocks (ra_pemDecode api) data bs \<and>
      leafCertificate (ra_pemDecode api) (ra_parseCertificate api) data = Some
        (case find (\<lambda>(typ, _). typ = ''CERTIFICATE'') bs of
           None \<Rightarrow> Inl (Msg ''no certificate in PEM data'')
         | Some (_, bytes) \<Rightarrow> (case ra_parseCertificate api bytes of Inl err \<Rightarrow> Inl (Api err) | Inr cert \<Rightarrow> Inr cert)))"
proof
  have "\<exists>l. secret_key_entry api now sec key = Some l" for sec key
  proof (cases "map_of (se_data sec) key")
    case (Some d)
    obtain r where "leafCertificate (ra_pemDecode api) (ra_parseCertificate api) d = Some r"
      using leafCertificate_returns [OF assms] by blast
    with Some show ?thesis by (cases r) (simp_all add: secret_key_entry_def)
  qed (simp add: secret_key_entry_def)
  then have "\<exists>l. gather (\<lambda>sec. gather (secret_key_entry api now sec) certificateKeys) secs = Some l" for secs
    by (intro gather_some)
  then obtain out where "\<And>secs. gather (\<lambda>sec. gather (secret_key_entry api now sec) certificateKeys) secs = Some (out secs)"
    by metis
  then show "\<exists>r. handleListCertificates api now a = Some r"
    by (simp add: handleListCertificates_def Let_def split: sum.split)
  have "\<exists>bs. pem_blocks (ra_pemDecode api) data bs"
  proof (induction "length data" arbitrary: data rule: less_induct)
    case less
    show ?case
    proof (cases "ra_pemDecode api data")
      case (Some p)
      then obtain b rest where p: "ra_pemDecode api data = Some (b, rest)" by (cases p) auto
      with assms have "length rest < length data" unfolding pem_consumes_def by blast
      with less p show ?thesis by (blast intro: next_block)
    qed (blast intro: no_block)
  qed
  then show "\<exists>bs. pem_blocks (ra_pemDecode api) data bs \<and>
      leafCertificate (ra_pemDecode api) (ra_parseCertificate api) data = Some
        (case find (\<lambda>(typ, _). typ = ''CERTIFICATE'') bs of
           None \<Rightarrow> Inl (Msg ''no certificate in PEM data'')
         | Some (_, bytes) \<Rightarrow> (case ra_parseCertificate api bytes of Inl err \<Rightarrow> Inl (Api err) | Inr cert \<Rightarrow> Inr cert))"
    using leafCertificate_first by blast
qed

subsection \<open>A small cluster\<close>

definition crash_pod :: podObject where
  "crash_pod =
     \<lparr>pb_meta = \<lparr>mt_name = ''web-1'', mt_namespace = ''team-a'', mt_created = second, mt_labels = []\<rparr>,
      pb_phase = ''Running'', pb_reason = [], pb_node = ''n1'', pb_ip = ''10.0.0.7'', pb_qos = ''Burstable'',
      pb_containers = [\<lparr>co_name = ''app'', co_image = ''img'', co_requests = [], co_limits = []\<rparr>],
      pb_statuses =
        [\<lparr>cu_name = ''app'', cu_ready = False, cu_restarts = 4,
          cu_state = \<lparr>st_running = None, st_waiting = Some \<lparr>ws_reason = ''CrashLoopBackOff'', ws_message = ''x''\<rparr>, st_terminated = None\<rparr>,
          cu_last = \<lparr>st_running = None, st_waiting = None, st_terminated = Some \<lparr>te_reason = ''Error'', te_exitCode = 1\<rparr>\<rparr>\<rparr>],
      pb_conditions = []\<rparr>"

definition sample_object :: object where
  "sample_object = [(''kind'', JStr ''Route''), (''spec'', JMap [(''password'', JStr ''hunter2''), (''host'', JStr ''web'')])]"

definition sample_read_api :: "(string, string) read_api" where
  "sample_read_api =
     \<lparr>ra_pods = (\<lambda>ns o'. Inr [crash_pod]), ra_pod = (\<lambda>ns name. Inr crash_pod),
      ra_logs = (\<lambda>ns name o'. Inr ''started''), ra_events = (\<lambda>ns o'. Inl ''forbidden''),
      ra_deployments = (\<lambda>ns. Inr []), ra_deployment = (\<lambda>ns name. Inl ''not found''),
      ra_statefulsets = (\<lambda>ns. Inr []), ra_statefulset = (\<lambda>ns name. Inl ''not found''),
      ra_daemonsets = (\<lambda>ns. Inr []), ra_daemonset = (\<lambda>ns name. Inl ''not found''),
      ra_services = (\<lambda>ns. Inr []),
      ra_service = (\<lambda>ns name. Inr \<lparr>sv_meta = pb_meta crash_pod, sv_type = ''ClusterIP'', sv_clusterIP = ''10.1.1.1'', sv_ports = [], sv_selector = []\<rparr>),
      ra_endpointSlices = (\<lambda>ns o'. Inr [[\<lparr>ep_addresses = [''10.0.0.7''], ep_ready = Some True, ep_target = None\<rparr>,
                                        \<lparr>ep_addresses = [''10.0.0.8''], ep_ready = None, ep_target = None\<rparr>]]),
      ra_claims = (\<lambda>ns. Inr []), ra_quotas = (\<lambda>ns. Inr []), ra_limitRanges = (\<lambda>ns. Inr []),
      ra_nodes = Inr [], ra_node = (\<lambda>name. Inl ''not found''), ra_secrets = (\<lambda>ns. Inr []),
      ra_list = (\<lambda>g ns o'. Inr ([sample_object], [])), ra_get = (\<lambda>g ns name. Inr sample_object),
      ra_gvrString = gvr_resource, ra_selectorString = Some,
      ra_nested_slice = (\<lambda>m p. []), ra_nested_string = (\<lambda>m p. None), ra_remove_nested = (\<lambda>m p. m),
      ra_kind_of = (\<lambda>m. str_field m ''kind''), ra_name_of = (\<lambda>m. []), ra_namespace_of = (\<lambda>m. []), ra_created_of = (\<lambda>m. 0),
      ra_zeroQuantity = ''0'', ra_cpu = (\<lambda>rl. label rl ''cpu''), ra_memory = (\<lambda>rl. label rl ''memory''),
      ra_parseQuantity = (\<lambda>s. Some (250, 4194304)),
      ra_pemDecode = (\<lambda>s. case s of [] \<Rightarrow> None | c # r \<Rightarrow> Some ((if c = CHR ''C'' then ''CERTIFICATE'' else ''KEY'', [c]), r)),
      ra_parseCertificate = (\<lambda>b. Inr \<lparr>ce_subject = ''web'', ce_issuer = ''ca'', ce_notBefore = 0, ce_notAfter = second, ce_dnsNames = []\<rparr>)\<rparr>"

definition read_request :: args where
  "read_request = [(''namespace'', JStr ''team-a''), (''name'', JStr ''web''), (''version'', JStr ''v1''),
     (''resource'', JStr ''routes''), (''limit'', JInt 9000)]"

theorem get_resource_hides_credentials_witness:
  "\<exists>v. handleGetResource sample_read_api read_request = Inr v \<and>
    value_at v [Key ''object'', Key ''spec'', Key ''password''] = Some (JStr redacted)"
proof -
  have s: "stripped sample_read_api sample_object = sample_object"
    by (simp add: stripped_def sample_read_api_def)
  have c: "wf_any (JMap (stripped sample_read_api sample_object))"
    "credential_at (JMap (stripped sample_read_api sample_object)) [Key ''spec'', Key ''password'']"
    unfolding s by code_simp+
  have g: "ra_get sample_read_api (requested_gvr read_request) (arg_str read_request ''namespace'')
      (arg_str read_request ''name'') = Inr sample_object"
    by (simp add: sample_read_api_def)
  from get_resource_hides_credentials [OF g c] show ?thesis by blast
qed

theorem get_resource_noninterference_witness:
  "handleGetResource (sample_read_api\<lparr>ra_get := \<lambda>g ns name. Inr [(''apiKey'', JStr ''one'')]\<rparr>) read_request =
   handleGetResource (sample_read_api\<lparr>ra_get := \<lambda>g ns name. Inr [(''apiKey'', JStr ''two'')]\<rparr>) read_request"
proof (rule get_resource_noninterference)
  have c: "credential_field [(''apiKey'', JStr ''one'')] ''apiKey'' (JStr ''one'')"
    "credential_field [(''apiKey'', JStr ''two'')] ''apiKey'' (JStr ''two'')" by code_simp+
  show "same_public (JMap (stripped (sample_read_api\<lparr>ra_get := \<lambda>g ns name. Inr [(''apiKey'', JStr ''one'')]\<rparr>) [(''apiKey'', JStr ''one'')]))
     (JMap (stripped (sample_read_api\<lparr>ra_get := \<lambda>g ns name. Inr [(''apiKey'', JStr ''two'')]\<rparr>) [(''apiKey'', JStr ''two'')]))"
    by (simp add: stripped_def sample_read_api_def) (rule same_map, simp add: c)
qed (simp_all add: stripped_def sample_read_api_def)

theorem certificates_returned_witness:
  "(\<exists>r. handleListCertificates sample_read_api 0 read_request = Some r) \<and>
   (\<exists>bs. pem_blocks (ra_pemDecode sample_read_api) ''KCC'' bs)"
proof -
  have "pem_consumes (ra_pemDecode sample_read_api)"
    by (simp add: pem_consumes_def sample_read_api_def split: list.split)
  from certificates_returned [OF this, of 0 read_request "''KCC''"] show ?thesis by blast
qed

subsection \<open>Requests and sizes\<close>

text \<open>
  C32. Generic lists are capped by the server: the two tools that take a limit only ever ask for
  between 1 and 500 pods or 1 and 200 objects, whatever limit is named - clusters that agree on
  those requests give the same answers.
\<close>

theorem list_requests_bounded:
  assumes "\<forall>ns o'. 1 \<le> qo_limit o' \<and> qo_limit o' \<le> 500 \<longrightarrow> pods ns o' = ra_pods api ns o'"
    and "\<forall>g ns o'. 1 \<le> qo_limit o' \<and> qo_limit o' \<le> 200 \<longrightarrow> objects g ns o' = ra_list api g ns o'"
  shows "handleListPods (api\<lparr>ra_pods := pods\<rparr>) now a = handleListPods api now a \<and>
    handleListResource (api\<lparr>ra_list := objects\<rparr>) now a = handleListResource api now a"
  using assms list_limit_range [of 500 a] list_limit_range [of 200 a]
  by (simp add: handleListPods_def handleListResource_def resource_entry_def Let_def split: sum.split)

theorem list_requests_bounded_witness:
  "handleListPods (sample_read_api\<lparr>ra_pods := \<lambda>ns o'. if qo_limit o' > 500 then Inl ''too many'' else Inr [crash_pod]\<rparr>)
     second read_request = handleListPods sample_read_api second read_request"
  using list_requests_bounded [of "\<lambda>ns o'. if qo_limit o' > 500 then Inl ''too many'' else Inr [crash_pod]" sample_read_api
    "ra_list sample_read_api" second read_request]
  by (simp add: sample_read_api_def)

text \<open>
  The number of lines of a text, a last one without a line feed included, and what the API server documents of
  \<open>tailLines\<close>: it answers with that many lines from the end at most (a negative number it refuses).
\<close>

definition line_count :: "string \<Rightarrow> nat" where
  "line_count s = count_list s (CHR 0x0A) + (if s = [] \<or> last s = CHR 0x0A then 0 else 1)"

definition keeps_to_tail :: "('e, 'sel) read_api \<Rightarrow> bool" where
  "keeps_to_tail api \<longleftrightarrow>
     (\<forall>ns name o' raw. ra_logs api ns name o' = Inr raw \<longrightarrow> int (line_count raw) \<le> lo_tailLines o')"

lemma line_count_end: "line_count text \<le> line_count (front @ text)"
  by (cases "text = []") (simp_all add: line_count_def)

text \<open>
  C31. A log answer is bounded: at most 64 KiB and, where the API server keeps to \<open>tailLines\<close>, at most 2000 lines
  and no more than asked for (the text for a log without output apart, one line). It is the end of
  what the server returned for the container and the instance asked for, all of it where it fits.
\<close>

theorem pod_logs_bounded:
  assumes "handlePodLogs api a = Inr text"
  shows "length text \<le> 64 * 1024 \<and>
    (keeps_to_tail api \<longrightarrow> line_count text \<le> 2000 \<and>
       int (line_count text) \<le> max 1 (arg_intOr a ''tail_lines'' 100)) \<and>
    (\<exists>raw cut. ra_logs api (arg_str a ''namespace'') (arg_str a ''name'')
         \<lparr>lo_container = arg_str a ''container'', lo_tailLines = min 2000 (arg_intOr a ''tail_lines'' 100),
          lo_previous = arg_boolean a ''previous''\<rparr> = Inr raw \<and>
       (if raw = [] then text = ''(no log output)''
        else raw = cut @ text \<and> (cut = [] \<longleftrightarrow> length raw \<le> 64 * 1024)))"
proof -
  define tail where "tail = min 2000 (arg_intOr a ''tail_lines'' 100)"
  have tail: "(if arg_intOr a ''tail_lines'' 100 > 2000 then 2000 else arg_intOr a ''tail_lines'' 100) = tail"
    by (simp add: tail_def)
  let ?o = "\<lparr>lo_container = arg_str a ''container'', lo_tailLines = tail, lo_previous = arg_boolean a ''previous''\<rparr>"
  obtain raw where raw: "ra_logs api (arg_str a ''namespace'') (arg_str a ''name'') ?o = Inr raw"
    and ans: "text = (if raw = [] then ''(no log output)'' else drop (length raw - 64 * 1024) raw)"
    using assms by (auto simp: handlePodLogs_def Let_def tail maxLogBytes_def split: sum.splits if_splits)
  have len: "length text \<le> 64 * 1024" using ans by auto
  have cut: "\<exists>cut. if raw = [] then text = ''(no log output)''
      else raw = cut @ text \<and> (cut = [] \<longleftrightarrow> length raw \<le> 64 * 1024)"
    using ans by (intro exI [of _ "take (length raw - 64 * 1024) raw"]) simp
  have "int (line_count text) \<le> max 1 tail" if "keeps_to_tail api"
  proof (cases "raw = []")
    case True
    then show ?thesis using ans by (simp add: line_count_def)
  next
    case False
    then have "line_count text \<le> line_count raw" using line_count_end cut by metis
    moreover have "int (line_count raw) \<le> tail" using that raw unfolding keeps_to_tail_def by fastforce
    ultimately show ?thesis by simp
  qed
  then have "keeps_to_tail api \<longrightarrow> line_count text \<le> 2000 \<and> int (line_count text) \<le> max 1 (arg_intOr a ''tail_lines'' 100)"
    by (auto simp: tail_def)
  with len raw cut show ?thesis unfolding tail_def by blast
qed

text \<open>A container with more output than a log answer holds, in lines of 50 bytes, asked for 5000 of them.\<close>

definition chatty_line :: string where
  "chatty_line = replicate 49 (CHR ''x'') @ [CHR 0x0A]"

definition chatty_api :: "(string, string) read_api" where
  "chatty_api = sample_read_api\<lparr>ra_logs := \<lambda>ns name o'.
     if lo_tailLines o' < 0 then Inl ''invalid'' else Inr (concat (replicate (nat (lo_tailLines o')) chatty_line))\<rparr>"

definition chatty_request :: args where
  "chatty_request = (''tail_lines'', JInt 5000) # read_request"

lemma chatty_lines: "count_list (concat (replicate n chatty_line)) (CHR 0x0A) = n"
  by (induction n) (simp_all add: chatty_line_def count_list_append)

lemma chatty_last: "concat (replicate n chatty_line) = [] \<or> last (concat (replicate n chatty_line)) = CHR 0x0A"
  by (induction n) (auto simp: chatty_line_def)

theorem pod_logs_bounded_witness:
  "\<exists>text. handlePodLogs chatty_api chatty_request = Inr text \<and> length text \<le> 64 * 1024 \<and> line_count text \<le> 2000 \<and>
     (\<exists>cut. cut \<noteq> [] \<and> cut @ text = concat (replicate 2000 chatty_line))"
proof -
  let ?log = "concat (replicate 2000 chatty_line)"
  have k: "keeps_to_tail chatty_api"
    unfolding keeps_to_tail_def
  proof (intro allI impI)
    fix ns name and o' :: logOptions and raw assume "ra_logs chatty_api ns name o' = Inr raw"
    then have "0 \<le> lo_tailLines o'" "raw = concat (replicate (nat (lo_tailLines o')) chatty_line)"
      by (auto simp: chatty_api_def split: if_splits)
    then show "int (line_count raw) \<le> lo_tailLines o'"
      using chatty_last [of "nat (lo_tailLines o')"] by (auto simp: line_count_def chatty_lines)
  qed
  have l: "length ?log = 100000" by (simp add: length_concat chatty_line_def sum_list_replicate)
  have logs: "ra_logs chatty_api ns name
      \<lparr>lo_container = c, lo_tailLines = min 2000 (arg_intOr chatty_request ''tail_lines'' 100), lo_previous = p\<rparr> = Inr ?log"
    for ns name c p by (simp add: chatty_api_def chatty_request_def arg_intOr_def)
  obtain reply where h: "handlePodLogs chatty_api chatty_request = Inr reply"
    using logs by (simp add: handlePodLogs_def Let_def chatty_request_def arg_intOr_def split: if_splits) metis
  note bounded = pod_logs_bounded [OF h]
  then obtain cut where "if ?log = [] then reply = ''(no log output)''
      else ?log = cut @ reply \<and> (cut = [] \<longleftrightarrow> length ?log \<le> 64 * 1024)" unfolding logs by blast
  moreover have "?log \<noteq> []" using l by auto
  ultimately have "?log = cut @ reply" "cut = [] \<longleftrightarrow> length ?log \<le> 64 * 1024" by (simp_all only: if_False)
  then have "cut \<noteq> [] \<and> cut @ reply = ?log" unfolding l by simp
  with bounded h k show ?thesis by blast
qed

subsection \<open>Summaries\<close>

lemma wrap32_add: "wrap32 (wrap32 x + y) = wrap32 (x + y)"
proof -
  have "(wrap32 x + y + 2 ^ 31) mod 2 ^ 32 = ((x + 2 ^ 31) mod 2 ^ 32 + y) mod 2 ^ 32"
    by (simp add: wrap32_def)
  also have "\<dots> = (x + y + 2 ^ 31) mod 2 ^ 32" by (simp add: mod_simps algebra_simps)
  finally show ?thesis by (simp add: wrap32_def)
qed

lemma wrap32_id: "- (2 ^ 31) \<le> x \<Longrightarrow> x < 2 ^ 31 \<Longrightarrow> wrap32 x = x"
  unfolding wrap32_def by (subst mod_pos_pos_trivial) auto

text \<open>The reason a container gives: why it waits, else why it terminated.\<close>

definition status_reason :: "containerStatus \<Rightarrow> string option" where
  "status_reason st =
     (case st_waiting (cu_state st) of
        Some w \<Rightarrow> if ws_reason w \<noteq> [] then Some (ws_reason w)
          else (case st_terminated (cu_state st) of Some t \<Rightarrow> if te_reason t \<noteq> [] then Some (te_reason t) else None | None \<Rightarrow> None)
      | None \<Rightarrow> (case st_terminated (cu_state st) of Some t \<Rightarrow> if te_reason t \<noteq> [] then Some (te_reason t) else None | None \<Rightarrow> None))"

lemma status_step_eq:
  "status_step st (n, r, reason) =
     (n + (if cu_ready st then 1 else 0), wrap32 (r + cu_restarts st),
      case status_reason st of Some x \<Rightarrow> x | None \<Rightarrow> reason)"
  by (auto simp: status_step_def status_reason_def Let_def split: option.split)

lemma status_fold:
  "fold status_step sts (n, wrap32 r, reason) =
     (n + int (length (filter cu_ready sts)), wrap32 (r + sum_list (map cu_restarts sts)),
      last (reason # List.map_filter status_reason sts))"
proof (induction sts arbitrary: n r reason)
  case (Cons st sts)
  show ?case
    by (simp add: status_step_eq wrap32_add Cons.IH add.assoc map_filter_simps split: option.split)
qed (simp add: map_filter_simps)

text \<open>
  C30. The summary of a pod: the ready count is the number of ready containers over the containers of
  its spec, the restarts are their sum (for sums below 2 to the 31), and the reason is the pod's own,
  else the last one a container gives, left out when there is none or the pod completed.
\<close>

theorem pod_summary_exact:
  assumes "0 \<le> sum_list (map cu_restarts (pb_statuses pod))" and "sum_list (map cu_restarts (pb_statuses pod)) < 2 ^ 31"
  shows "map_of (podSummary now pod) ''ready'' =
      Some (JStr (itoa (int (length (filter cu_ready (pb_statuses pod)))) @ ''/'' @ itoa (int (length (pb_containers pod))))) \<and>
    map_of (podSummary now pod) ''restarts'' = Some (JInt (sum_list (map cu_restarts (pb_statuses pod)))) \<and>
    map_of (podSummary now pod) ''reason'' =
      (let reason = (if pb_reason pod \<noteq> [] then pb_reason pod else last ([] # List.map_filter status_reason (pb_statuses pod)))
       in if reason = [] \<or> reason = ''Completed'' then None else Some (JStr reason))"
proof -
  have "fold status_step (pb_statuses pod) (0, 0, []) =
      (int (length (filter cu_ready (pb_statuses pod))), sum_list (map cu_restarts (pb_statuses pod)),
       last ([] # List.map_filter status_reason (pb_statuses pod)))"
    using status_fold [of "pb_statuses pod" 0 0 "[]"] wrap32_id [of "sum_list (map cu_restarts (pb_statuses pod))"]
      wrap32_id [of 0] assms by simp
  then show ?thesis by (simp add: podSummary_def Let_def ready_text_def)
qed

theorem pod_summary_exact_witness:
  "map_of (podSummary second crash_pod) ''ready'' = Some (JStr (itoa 0 @ ''/'' @ itoa 1)) \<and>
   map_of (podSummary second crash_pod) ''reason'' = Some (JStr ''CrashLoopBackOff'')"
  using pod_summary_exact [of crash_pod second]
  by (simp add: crash_pod_def status_reason_def map_filter_simps)

lemma endpoint_counts_concat:
  "fold (\<lambda>sl acc. fold (\<lambda>ep (ready, notReady).
       if is_ready ep then (ready + 1, notReady) else (ready, notReady + 1)) sl acc) slices (r, n) =
   (r + int (length (filter is_ready (concat slices))), n + int (length (filter (\<lambda>ep. \<not> is_ready ep) (concat slices))))"
proof -
  have "fold (\<lambda>ep (ready, notReady). if is_ready ep then (ready + 1, notReady) else (ready, notReady + 1)) sl (r, n) =
      (r + int (length (filter is_ready sl)), n + int (length (filter (\<lambda>ep. \<not> is_ready ep) sl)))" for sl r n
    by (induction sl arbitrary: r n) simp_all
  then show ?thesis by (induction slices arbitrary: r n) simp_all
qed

text \<open>The ready marks of the endpoints in an answer of \<open>get_service\<close>.\<close>

definition ready_marks :: "any option \<Rightarrow> bool list" where
  "ready_marks v =
     (case v of
        Some (JList l) \<Rightarrow> concat (map (\<lambda>e. case e of JMap m \<Rightarrow> (case map_of m ''ready'' of Some (JBool b) \<Rightarrow> [b] | _ \<Rightarrow> []) | _ \<Rightarrow> []) l)
      | _ \<Rightarrow> [])"

text \<open>
  C26. The two service tools agree: the endpoint counts \<open>list_services\<close> shows for a service are the
  numbers of ready and of other endpoints that \<open>get_service\<close> lists for it (an endpoint whose
  readiness is unknown is not ready).
\<close>

theorem service_tools_agree:
  assumes "handleGetService api a = Inr (JMap v)"
  shows "endpointCounts api (arg_str a ''namespace'') (arg_str a ''name'') =
    (int (length (filter id (ready_marks (map_of v ''endpoints'')))),
     int (length (filter Not (ready_marks (map_of v ''endpoints'')))))"
proof -
  let ?ns = "arg_str a ''namespace''" and ?n = "arg_str a ''name''"
  from assms obtain svc slices where s: "ra_endpointSlices api ?ns (service_selector ?n) = Inr slices"
    "map_of v ''endpoints'' = Some (slice_value (map (\<lambda>ep. JMap (endpoint_entry ep)) (concat slices)))"
    by (auto simp: handleGetService_def Let_def split: sum.splits)
  have "ready_marks (Some (slice_value (map (\<lambda>ep. JMap (endpoint_entry ep)) eps))) = map is_ready eps" for eps
    by (induction eps) (auto simp: ready_marks_def slice_value_def endpoint_entry_def split: if_splits)
  then show ?thesis
    by (simp add: s endpointCounts_def endpoint_counts_concat filter_map comp_def id_def)
qed

theorem service_tools_agree_witness:
  "endpointCounts sample_read_api (arg_str read_request ''namespace'') (arg_str read_request ''name'') = (1, 1)"
proof -
  define v where "v = (case handleGetService sample_read_api read_request of Inr (JMap m) \<Rightarrow> m | _ \<Rightarrow> [])"
  have e: "map_of v ''endpoints'' = Some (JList
      [JMap [(''addresses'', JList [JStr ''10.0.0.7'']), (''ready'', JBool True)],
       JMap [(''addresses'', JList [JStr ''10.0.0.8'']), (''ready'', JBool False)]])"
    by (simp add: v_def handleGetService_def sample_read_api_def Let_def slice_value_def endpoint_entry_def is_ready_def)
  have "handleGetService sample_read_api read_request = Inr (JMap v)"
    by (simp add: v_def handleGetService_def sample_read_api_def Let_def)
  from service_tools_agree [OF this] show ?thesis unfolding e by (simp add: ready_marks_def)
qed

subsection \<open>Metrics and nodes\<close>

text \<open>What one container adds: the milli value of its CPU, the whole MiB of its memory.\<close>

definition cpu_of :: "('e, 'sel) read_api \<Rightarrow> any \<Rightarrow> int" where
  "cpu_of api raw =
     (case raw of JMap m \<Rightarrow>
        (case Option.bind (ra_nested_string api m [''usage'', ''cpu'']) (ra_parseQuantity api) of Some (c, _) \<Rightarrow> c | None \<Rightarrow> 0)
      | _ \<Rightarrow> 0)"

definition memory_of :: "('e, 'sel) read_api \<Rightarrow> any \<Rightarrow> int" where
  "memory_of api raw =
     (case raw of JMap m \<Rightarrow>
        (case Option.bind (ra_nested_string api m [''usage'', ''memory'']) (ra_parseQuantity api) of
           Some (_, b) \<Rightarrow> b sdiv (1024 * 1024) | None \<Rightarrow> 0)
      | _ \<Rightarrow> 0)"

lemma wrap64_add: "wrap64 (wrap64 x + y) = wrap64 (x + y)"
proof -
  have "(wrap64 x + y + 2 ^ 63) mod 2 ^ 64 = ((x + 2 ^ 63) mod 2 ^ 64 + y) mod 2 ^ 64"
    by (simp add: wrap64_def)
  also have "\<dots> = (x + y + 2 ^ 63) mod 2 ^ 64" by (simp add: mod_simps algebra_simps)
  finally show ?thesis by (simp add: wrap64_def)
qed

lemma wrap64_idem: "wrap64 (wrap64 x) = wrap64 x"
  using wrap64_add [of x 0] by simp

lemma usage_step_eq:
  "usage_step api raw (wrap64 x, wrap64 y) = (wrap64 (x + cpu_of api raw), wrap64 (y + memory_of api raw))"
proof (cases raw)
  case (JMap m)
  show ?thesis
    by (cases "Option.bind (ra_nested_string api m [''usage'', ''cpu'']) (ra_parseQuantity api)";
        cases "Option.bind (ra_nested_string api m [''usage'', ''memory'']) (ra_parseQuantity api)")
      (simp_all add: JMap usage_step_def cpu_of_def memory_of_def wrap64_add wrap64_idem case_prod_beta)
qed (simp_all add: usage_step_def cpu_of_def memory_of_def)

lemma usage_fold:
  "fold (usage_step api) raws (wrap64 x, wrap64 y) =
     (wrap64 (x + sum_list (map (cpu_of api) raws)), wrap64 (y + sum_list (map (memory_of api) raws)))"
  by (induction raws arbitrary: x y) (simp_all add: usage_step_eq add.assoc)

text \<open>
  The usage report has every pod of the metrics API once, the greatest CPU use first, and each
  pod's figures are the sums over its containers (as 64-bit integers); a container without a
  readable quantity adds nothing.
\<close>

theorem top_pods_by_cpu:
  assumes "ra_list api podMetricsGVR (arg_str a ''namespace'') no_options = Inr (items, continue)"
  shows "\<exists>us. handleTopPods api a = Inr (JMap [(''namespace'', JStr (arg_str a ''namespace'')),
      (''count'', JInt (int (length items))), (''pods'', JList (map usage_value us))]) \<and>
    sorted (map (\<lambda>u. - us_CPUMilli u) us) \<and>
    mset us = mset (map (\<lambda>item. \<lparr>us_Pod = ra_name_of api item,
      us_CPUMilli = wrap64 (sum_list (map (cpu_of api) (ra_nested_slice api item [''containers'']))),
      us_MemoryMi = wrap64 (sum_list (map (memory_of api) (ra_nested_slice api item [''containers''])))\<rparr>) items)"
proof -
  have "wrap64 0 = 0" by (simp add: wrap64_def)
  then have u: "pod_usage api item = \<lparr>us_Pod = ra_name_of api item,
      us_CPUMilli = wrap64 (sum_list (map (cpu_of api) (ra_nested_slice api item [''containers'']))),
      us_MemoryMi = wrap64 (sum_list (map (memory_of api) (ra_nested_slice api item [''containers''])))\<rparr>" for item
    using usage_fold [of api "ra_nested_slice api item [''containers'']" 0 0] by (simp add: pod_usage_def)
  show ?thesis
    by (rule exI [of _ "sort_slice (\<lambda>u. - us_CPUMilli u) (map (pod_usage api) items)"])
      (simp add: handleTopPods_def assms u [abs_def] sort_slice_def)
qed

theorem top_pods_by_cpu_witness:
  "\<exists>us. handleTopPods sample_read_api read_request = Inr (JMap [(''namespace'', JStr ''team-a''),
      (''count'', JInt 1), (''pods'', JList (map usage_value us))]) \<and> sorted (map (\<lambda>u. - us_CPUMilli u) us)"
proof -
  have g: "ra_list sample_read_api podMetricsGVR (arg_str read_request ''namespace'') no_options = Inr ([sample_object], [])"
    and n: "arg_str read_request ''namespace'' = ''team-a''"
    by (simp_all add: sample_read_api_def read_request_def arg_str_def)
  from top_pods_by_cpu [OF g] obtain us where u: "handleTopPods sample_read_api read_request =
      Inr (JMap [(''namespace'', JStr (arg_str read_request ''namespace'')),
        (''count'', JInt (int (length [sample_object]))), (''pods'', JList (map usage_value us))])"
      "sorted (map (\<lambda>u. - us_CPUMilli u) us)" by blast
  from u(1) have "handleTopPods sample_read_api read_request = Inr (JMap [(''namespace'', JStr ''team-a''),
      (''count'', JInt 1), (''pods'', JList (map usage_value us))])" by (simp add: n)
  with u(2) show ?thesis by blast
qed

text \<open>
  The health of a node: it is as ready as its last Ready condition says (Unknown without one),
  its pressures are exactly the other conditions that are True, in their order, and its roles are
  the non-empty names behind the role labels, sorted.
\<close>

theorem node_summary_exact:
  "node_health cs = (last (''Unknown'' # map cn_status (filter (\<lambda>c. cn_type c = ''Ready'') cs)),
     map cn_type (filter (\<lambda>c. cn_type c \<noteq> ''Ready'' \<and> cn_status c = ''True'') cs)) \<and>
   sorted (nodeRoles nd) \<and>
   set (nodeRoles nd) = {role. role \<noteq> [] \<and> rolePrefix @ role \<in> fst ` set (mt_labels (nd_meta nd))}"
proof (intro conjI)
  have "fold (\<lambda>c (ready, pressures).
         if cn_type c = ''Ready'' then (cn_status c, pressures)
         else if cn_status c = ''True'' then (ready, pressures @ [cn_type c])
         else (ready, pressures)) cs (r, p) =
      (last (r # map cn_status (filter (\<lambda>c. cn_type c = ''Ready'') cs)),
       p @ map cn_type (filter (\<lambda>c. cn_type c \<noteq> ''Ready'' \<and> cn_status c = ''True'') cs))" for r p
    by (induction cs arbitrary: r p) simp_all
  then show "node_health cs = (last (''Unknown'' # map cn_status (filter (\<lambda>c. cn_type c = ''Ready'') cs)),
     map cn_type (filter (\<lambda>c. cn_type c \<noteq> ''Ready'' \<and> cn_status c = ''True'') cs))"
    by (simp add: node_health_def)
  show "sorted (nodeRoles nd)" unfolding nodeRoles_def using sort_slice_sorted [of id] by simp
  show "set (nodeRoles nd) = {role. role \<noteq> [] \<and> rolePrefix @ role \<in> fst ` set (mt_labels (nd_meta nd))}"
    by (force simp: nodeRoles_def Let_def has_prefix_iff image_iff split: if_splits)
qed

end
