(* ===== verification/Tool_Catalogue.thy ===== *)
theory Tool_Catalogue
  imports Tool_Schemas Workload_Reads Cluster_Reads Resource_Reads Policies Disruption_Audit
begin

text \<open>
  The catalogue of the read-only tools, \<open>src/internal/mcp/tools.go\<close>: name, description, input
  schema and handler of every tool. The cluster a
  handler reads is the record \<open>cluster\<close>: the requests of the three groups of handlers, the clock
  and the text \<open>%v\<close> gives a value that is no string, boolean or integer. A handler that may not
  return (an endless list, an endless bundle) has no result.
\<close>

subsection \<open>Tools\<close>

datatype answer = Text string | Value any | AuditAnswer auditResult | TeamsAnswer nat "team list"

record 'e toolEntry =
  te_name :: string
  te_description :: string
  te_schema :: any
  te_handler :: "args \<Rightarrow> ('e goerr, answer) fallible option"

record ('e, 'sel, 'asel) cluster =
  cl_reads :: "('e, 'sel) read_api"
  cl_policies :: "'e policy_api"
  cl_audit :: "('e, 'asel) audit_api"
  cl_now :: instant
  cl_print :: "any \<Rightarrow> string"

definition tool_list_pods :: "('e, 'sel, 'asel) cluster \<Rightarrow> 'e toolEntry" where
  "tool_list_pods c =
     \<lparr>te_name = ''list_pods'',
      te_description =
        ''List pods in a namespace with phase, readiness, restarts, node, and a reason when not '' @
        ''healthy. Start here for any workload issue.'',
      te_schema = objSchema
             [(''namespace'', schema_str nsDesc),
              (''selector'', schema_str (''Optional label selector (e.g. '' @ [CHR 0x27] @ ''app=web,tier=frontend'' @ [CHR 0x27] @ '').'')),
              (''field_selector'', schema_str (''Optional field selector (e.g. '' @ [CHR 0x27] @ ''status.phase=Pending'' @ [CHR 0x27] @ '' or '' @ [CHR 0x27] @ ''spec.nodeName=node1'' @ [CHR 0x27] @ '').'')),
              (''limit'', schema_integer ''Max pods to return (default 100).'')]
             [''namespace''],
      te_handler = (\<lambda>a. Some (map_sum id Value (handleListPods (cl_reads c) (cl_now c) a)))\<rparr>"

definition tool_get_pod :: "('e, 'sel, 'asel) cluster \<Rightarrow> 'e toolEntry" where
  "tool_get_pod c =
     \<lparr>te_name = ''get_pod'',
      te_description =
        ''Full diagnostic view of one pod: containers (image, state, restart reason, resources), '' @
        ''conditions, QoS, and its recent events.'',
      te_schema = objSchema
             [(''namespace'', schema_str nsDesc),
              (''name'', schema_str ''Pod name.'')]
             [''namespace'', ''name''],
      te_handler = (\<lambda>a. Some (map_sum id Value (handleGetPod (cl_reads c) (cl_now c) a)))\<rparr>"

definition tool_pod_logs :: "('e, 'sel, 'asel) cluster \<Rightarrow> 'e toolEntry" where
  "tool_pod_logs c =
     \<lparr>te_name = ''pod_logs'',
      te_description =
        ''Fetch container logs from a pod. Use previous=true to read logs from before the last '' @
        ''restart (essential for CrashLoopBackOff).'',
      te_schema = objSchema
             [(''namespace'', schema_str nsDesc),
              (''name'', schema_str ''Pod name.''),
              (''container'', schema_str ''Container name. Defaults to the first container.''),
              (''tail_lines'', schema_integer ''Number of trailing lines (default 100, max 2000).''),
              (''previous'', schema_boolean ''Read logs of the previous (crashed) container instance.'')]
             [''namespace'', ''name''],
      te_handler = (\<lambda>a. Some (map_sum id Text (handlePodLogs (cl_reads c) a)))\<rparr>"

definition tool_list_events :: "('e, 'sel, 'asel) cluster \<Rightarrow> 'e toolEntry" where
  "tool_list_events c =
     \<lparr>te_name = ''list_events'',
      te_description =
        ''Recent events in a namespace: scheduling failures, image pull errors, OOM kills, probe '' @
        ''failures. Filter to one object or warnings only.'',
      te_schema = objSchema
             [(''namespace'', schema_str nsDesc),
              (''object'', schema_str ''Optional involved object name (e.g. a pod or deployment name).''),
              (''warnings_only'', schema_boolean ''Return only Warning events.'')]
             [''namespace''],
      te_handler = (\<lambda>a. Some (map_sum id Value (handleListEvents (cl_reads c) (cl_now c) a)))\<rparr>"

definition tool_list_workloads :: "('e, 'sel, 'asel) cluster \<Rightarrow> 'e toolEntry" where
  "tool_list_workloads c =
     \<lparr>te_name = ''list_workloads'',
      te_description =
        ''Deployments, StatefulSets, and DaemonSets in a namespace with ready/desired replica '' @
        ''counts. Quickly shows which workload is degraded.'',
      te_schema = objSchema
             [(''namespace'', schema_str nsDesc)]
             [''namespace''],
      te_handler = (\<lambda>a. Some (map_sum id Value (handleListWorkloads (cl_reads c) (cl_now c) a)))\<rparr>"

definition tool_get_workload :: "('e, 'sel, 'asel) cluster \<Rightarrow> 'e toolEntry" where
  "tool_get_workload c =
     \<lparr>te_name = ''get_workload'',
      te_description =
        ''One workload'' @
        [CHR 0x27] @
        ''s rollout state: replica counts, conditions (with messages), selector, and its pods'' @
        [CHR 0x27] @
        '' health.'',
      te_schema = objSchema
             [(''namespace'', schema_str nsDesc),
              (''kind'', strEnum ''Workload kind.'' [''deployment'', ''statefulset'', ''daemonset'']),
              (''name'', schema_str ''Workload name.'')]
             [''namespace'', ''kind'', ''name''],
      te_handler = (\<lambda>a. Some (map_sum id Value (handleGetWorkload (cl_reads c) (cl_now c) a)))\<rparr>"

definition tool_list_services :: "('e, 'sel, 'asel) cluster \<Rightarrow> 'e toolEntry" where
  "tool_list_services c =
     \<lparr>te_name = ''list_services'',
      te_description =
        ''Services in a namespace with type, cluster IP, ports, and ready endpoint counts (0 '' @
        ''ready endpoints = broken service).'',
      te_schema = objSchema
             [(''namespace'', schema_str nsDesc)]
             [''namespace''],
      te_handler = (\<lambda>a. Some (map_sum id Value (handleListServices (cl_reads c) a)))\<rparr>"

definition tool_get_service :: "('e, 'sel, 'asel) cluster \<Rightarrow> 'e toolEntry" where
  "tool_get_service c =
     \<lparr>te_name = ''get_service'',
      te_description =
        ''One service'' @
        [CHR 0x27] @
        ''s spec plus its endpoints: which backend addresses are ready/not-ready. Diagnose '' @
        ''selector mismatches and unready backends.'',
      te_schema = objSchema
             [(''namespace'', schema_str nsDesc),
              (''name'', schema_str ''Service name.'')]
             [''namespace'', ''name''],
      te_handler = (\<lambda>a. Some (map_sum id Value (handleGetService (cl_reads c) a)))\<rparr>"

definition tool_list_routes :: "('e, 'sel, 'asel) cluster \<Rightarrow> 'e toolEntry" where
  "tool_list_routes c =
     \<lparr>te_name = ''list_routes'',
      te_description =
        ''OpenShift Routes in a namespace: host, target service/port, TLS termination, and '' @
        ''admitted status.'',
      te_schema = objSchema
             [(''namespace'', schema_str nsDesc)]
             [''namespace''],
      te_handler = (\<lambda>a. Some (map_sum id Value (handleListRoutes (cl_print c) (cl_reads c) a)))\<rparr>"

definition tool_list_pvcs :: "('e, 'sel, 'asel) cluster \<Rightarrow> 'e toolEntry" where
  "tool_list_pvcs c =
     \<lparr>te_name = ''list_pvcs'',
      te_description =
        ''PersistentVolumeClaims in a namespace: phase (Pending = unbound), capacity, storage '' @
        ''class, bound volume.'',
      te_schema = objSchema
             [(''namespace'', schema_str nsDesc)]
             [''namespace''],
      te_handler = (\<lambda>a. Some (map_sum id Value (handleListPVCs (cl_reads c) (cl_now c) a)))\<rparr>"

definition tool_get_quota :: "('e, 'sel, 'asel) cluster \<Rightarrow> 'e toolEntry" where
  "tool_get_quota c =
     \<lparr>te_name = ''get_quota'',
      te_description =
        ''ResourceQuota usage (hard vs used) and LimitRanges in a namespace. Exhausted quota '' @
        ''silently blocks new pods and rollouts.'',
      te_schema = objSchema
             [(''namespace'', schema_str nsDesc)]
             [''namespace''],
      te_handler = (\<lambda>a. Some (map_sum id Value (handleGetQuota (cl_reads c) a)))\<rparr>"

definition tool_list_policies :: "('e, 'sel, 'asel) cluster \<Rightarrow> 'e toolEntry" where
  "tool_list_policies c =
     \<lparr>te_name = ''list_policies'',
      te_description =
        ''Admission policies (Kyverno) that apply to a kind in a namespace '' @
        [CHR 0xE2, CHR 0x80, CHR 0x94] @
        '' use it to check a manifest BEFORE it is applied. Each rule shows its action (Enforce: '' @
        ''a violating object is rejected; Audit: admitted and reported), message, and check (the '' @
        ''rule'' @
        [CHR 0x27] @
        ''s pattern, deny conditions or CEL as JSON). Pod rules also apply to Deployments, '' @
        ''StatefulSets, Jobs etc. (applies_via). only_if marks a rule that depends on the object'' @
        [CHR 0x27] @
        ''s name or labels.'',
      te_schema = objSchema
             [(''namespace'', schema_str nsDesc),
              (''kind'', schema_str ''Kind to check, e.g. Deployment, Service, HTTPProxy. Omit for every kind.'')]
             [''namespace''],
      te_handler = (\<lambda>a. Some (map_sum id Value (handleListPolicies (cl_policies c) a)))\<rparr>"

definition tool_get_policy_report :: "('e, 'sel, 'asel) cluster \<Rightarrow> 'e toolEntry" where
  "tool_get_policy_report c =
     \<lparr>te_name = ''get_policy_report'',
      te_description =
        ''Policy violations already reported in a namespace (Kyverno policy reports): failed, '' @
        ''errored and warned results per object, worst first, with totals.'',
      te_schema = objSchema
             [(''namespace'', schema_str nsDesc)]
             [''namespace''],
      te_handler = (\<lambda>a. Some (map_sum id Value (handleGetPolicyReport (cl_policies c) a)))\<rparr>"

definition tool_top_pods :: "('e, 'sel, 'asel) cluster \<Rightarrow> 'e toolEntry" where
  "tool_top_pods c =
     \<lparr>te_name = ''top_pods'',
      te_description =
        ''Live CPU (millicores) and memory (Mi) usage per pod in a namespace via metrics.k8s.io, '' @
        ''sorted by CPU. Compare against requests/limits from get_pod.'',
      te_schema = objSchema
             [(''namespace'', schema_str nsDesc)]
             [''namespace''],
      te_handler = (\<lambda>a. Some (map_sum id Value (handleTopPods (cl_reads c) a)))\<rparr>"

definition tool_list_nodes :: "('e, 'sel, 'asel) cluster \<Rightarrow> 'e toolEntry" where
  "tool_list_nodes c =
     \<lparr>te_name = ''list_nodes'',
      te_description =
        ''Cluster nodes: readiness, roles, kubelet version, allocatable CPU/memory, taints, and '' @
        ''any pressure conditions.'',
      te_schema = objSchema
             []
             [],
      te_handler = (\<lambda>a. Some (map_sum id Value (handleListNodes (cl_reads c) (cl_now c) a)))\<rparr>"

definition tool_get_node :: "('e, 'sel, 'asel) cluster \<Rightarrow> 'e toolEntry" where
  "tool_get_node c =
     \<lparr>te_name = ''get_node'',
      te_description =
        ''One node in depth: all conditions (memory/disk/PID pressure), taints, capacity vs '' @
        ''allocatable, addresses, system info.'',
      te_schema = objSchema
             [(''name'', schema_str ''Node name.'')]
             [''name''],
      te_handler = (\<lambda>a. Some (map_sum id Value (handleGetNode (cl_reads c) a)))\<rparr>"

definition tool_list_certificates :: "('e, 'sel, 'asel) cluster \<Rightarrow> 'e toolEntry" where
  "tool_list_certificates c =
     \<lparr>te_name = ''list_certificates'',
      te_description =
        ''Certificate expiry report for a namespace: parses the PUBLIC certificate data '' @
        ''(tls.crt/ca.crt) of TLS secrets and returns subject, issuer, SANs, notBefore/notAfter, '' @
        ''and days until expiry. Never returns private keys. Requires read access to secrets in '' @
        ''that namespace (granted only for platform namespaces, e.g. openshift-ingress, '' @
        ''openshift-config).'',
      te_schema = objSchema
             [(''namespace'', schema_str nsDesc)]
             [''namespace''],
      te_handler = (\<lambda>a. map_option (map_sum id Value) (handleListCertificates (cl_reads c) (cl_now c) a))\<rparr>"

definition tool_get_resource :: "('e, 'sel, 'asel) cluster \<Rightarrow> 'e toolEntry" where
  "tool_get_resource c =
     \<lparr>te_name = ''get_resource'',
      te_description =
        ''Read any single API object (including CRDs and OpenShift kinds) by '' @
        ''group/version/resource plural. Read-only escape hatch, e.g. group='' @
        [CHR 0x27] @
        ''route.openshift.io'' @
        [CHR 0x27] @
        '', version='' @
        [CHR 0x27] @
        ''v1'' @
        [CHR 0x27] @
        '', resource='' @
        [CHR 0x27] @
        ''routes'' @
        [CHR 0x27] @
        ''.'',
      te_schema = objSchema
             [(''group'', schema_str (''API group ('' @ [CHR 0x27, CHR 0x27] @ '' for core, e.g. '' @ [CHR 0x27] @ ''apps'' @ [CHR 0x27] @ '', '' @ [CHR 0x27] @ ''route.openshift.io'' @ [CHR 0x27] @ '').'')),
              (''version'', schema_str (''API version (e.g. '' @ [CHR 0x27] @ ''v1'' @ [CHR 0x27] @ '').'')),
              (''resource'', schema_str (''Resource plural (e.g. '' @ [CHR 0x27] @ ''pods'' @ [CHR 0x27] @ '', '' @ [CHR 0x27] @ ''routes'' @ [CHR 0x27] @ '', '' @ [CHR 0x27] @ ''ciliumnetworkpolicies'' @ [CHR 0x27] @ '').'')),
              (''namespace'', schema_str ''Namespace. Omit for cluster-scoped resources.''),
              (''name'', schema_str ''Object name.'')]
             [''version'', ''resource'', ''name''],
      te_handler = (\<lambda>a. Some (map_sum id Value (handleGetResource (cl_reads c) a)))\<rparr>"

definition tool_list_resource :: "('e, 'sel, 'asel) cluster \<Rightarrow> 'e toolEntry" where
  "tool_list_resource c =
     \<lparr>te_name = ''list_resource'',
      te_description =
        ''List any resource type (including CRDs and OpenShift kinds) by group/version/resource '' @
        ''plural '' @
        [CHR 0xE2, CHR 0x80, CHR 0x94] @
        '' servicemonitors, podmonitors, prometheusrules, cronjobs, hpa, networkpolicies, '' @
        ''httpproxies, argo applications, database clusters and so on. Returns name/namespace/age '' @
        ''summaries; filter server-side with namespace, selector or field_selector.'',
      te_schema = objSchema
             [(''group'', schema_str (''API group ('' @ [CHR 0x27, CHR 0x27] @ '' for core).'')),
              (''version'', schema_str (''API version (e.g. '' @ [CHR 0x27] @ ''v1'' @ [CHR 0x27] @ '').'')),
              (''resource'', schema_str ''Resource plural.''),
              (''namespace'', schema_str ''Namespace. Omit for cluster-scoped resources.''),
              (''selector'', schema_str ''Optional label selector.''),
              (''field_selector'', schema_str (''Optional field selector, e.g. '' @ [CHR 0x27] @ ''status.phase=Running'' @ [CHR 0x27] @ '' '' @ [CHR 0xE2, CHR 0x80, CHR 0x94] @ '' filtered server-side.'')),
              (''limit'', schema_integer ''Maximum items to return (default 100, max 200).'')]
             [''version'', ''resource''],
      te_handler = (\<lambda>a. Some (map_sum id Value (handleListResource (cl_reads c) (cl_now c) a)))\<rparr>"

definition tool_disruption_audit :: "('e, 'sel, 'asel) cluster \<Rightarrow> 'e toolEntry" where
  "tool_disruption_audit c =
     \<lparr>te_name = ''disruption_audit'',
      te_description =
        ''Cluster-wide drain-safety inventory, no namespace argument. Returns every '' @
        ''PodDisruptionBudget (minAvailable/maxUnavailable, unhealthyPodEvictionPolicy, the '' @
        ''controller-computed expectedPods/currentHealthy/desiredHealthy/disruptionsAllowed, the '' @
        ''owning workloads with replicas and images, and the other PDBs selecting the same pods); '' @
        ''every data-service instance '' @
        [CHR 0xE2, CHR 0x80, CHR 0x94] @
        '' RabbitmqCluster and opstree Redis CRs, plus plain Deployments/StatefulSets whose image '' @
        ''is redis, rabbitmq or a quorum system '' @
        [CHR 0xE2, CHR 0x80, CHR 0x94] @
        '' with replicas, whether it holds a quorum, and the PDBs covering it; the '' @
        ''team/environment of each namespace involved; and the CRDs not installed on this '' @
        ''cluster. Facts only: which of these is a problem is for the caller to decide.'',
      te_schema = objSchema
             [(''quorum_images'', strArray (''Image keywords that mark a StatefulSet as a quorum system (default: rabbitmq, etcd, '' @ ''zookeeper, kafka, consul, nats, mongo, redis-sentinel, elasticsearch).''))]
             [],
      te_handler = (\<lambda>a. map_option (map_sum id AuditAnswer) (handleDisruptionAudit (cl_audit c) a))\<rparr>"

definition tool_list_teams :: "('e, 'sel, 'asel) cluster \<Rightarrow> 'e toolEntry" where
  "tool_list_teams c =
     \<lparr>te_name = ''list_teams'',
      te_description =
        ''SnappCloud teams (team.snappcloud.io Team CRs): each team'' @
        [CHR 0x27] @
        ''s admins and its namespaces with their environment (production/staging).'',
      te_schema = objSchema
             []
             [],
      te_handler = (\<lambda>a. map_option (map_sum id (\<lambda>(n, teams). TeamsAnswer n teams)) (handleListTeams (cl_audit c)))\<rparr>"

definition buildTools :: "('e, 'sel, 'asel) cluster \<Rightarrow> 'e toolEntry list" where
  "buildTools c =
     [tool_list_pods c,
      tool_get_pod c,
      tool_pod_logs c,
      tool_list_events c,
      tool_list_workloads c,
      tool_get_workload c,
      tool_list_services c,
      tool_get_service c,
      tool_list_routes c,
      tool_list_pvcs c,
      tool_get_quota c,
      tool_list_policies c,
      tool_get_policy_report c,
      tool_top_pods c,
      tool_list_nodes c,
      tool_get_node c,
      tool_list_certificates c,
      tool_get_resource c,
      tool_list_resource c,
      tool_disruption_audit c,
      tool_list_teams c]"

lemmas tool_defs =
  tool_list_pods_def tool_get_pod_def tool_pod_logs_def tool_list_events_def tool_list_workloads_def tool_get_workload_def tool_list_services_def tool_get_service_def tool_list_routes_def tool_list_pvcs_def tool_get_quota_def tool_list_policies_def tool_get_policy_report_def tool_top_pods_def tool_list_nodes_def tool_get_node_def tool_list_certificates_def tool_get_resource_def tool_list_resource_def tool_disruption_audit_def tool_list_teams_def

subsection \<open>What the schemas promise\<close>

lemma pod_tools_declared:
  "list_all (\<lambda>t. same_arguments (te_schema t) a b \<longrightarrow> te_handler t a = te_handler t b)
     [tool_list_pods c, tool_get_pod c, tool_pod_logs c, tool_list_events c, tool_list_workloads c, tool_get_workload c]"
  by (simp add: tool_defs schema_simps handleListPods_def handleGetPod_def handlePodLogs_def handleListEvents_def
      handleListWorkloads_def handleGetWorkload_def list_limit_def)

lemma cluster_tools_declared:
  "list_all (\<lambda>t. same_arguments (te_schema t) a b \<longrightarrow> te_handler t a = te_handler t b)
     [tool_list_services c, tool_get_service c, tool_list_routes c, tool_list_pvcs c, tool_get_quota c,
      tool_top_pods c, tool_list_nodes c, tool_get_node c]"
  by (simp add: tool_defs schema_simps handleListServices_def handleGetService_def handleListRoutes_def
      handleListPVCs_def handleGetQuota_def handleTopPods_def handleListNodes_def handleGetNode_def)

lemma handleDisruptionAudit_arguments:
  "quorum_images a = quorum_images b \<Longrightarrow> handleDisruptionAudit api a = handleDisruptionAudit api b"
  by (simp only: handleDisruptionAudit_def)

lemma audit_tool_declared:
  "same_arguments (te_schema (tool_disruption_audit c)) a b \<Longrightarrow>
   te_handler (tool_disruption_audit c) a = te_handler (tool_disruption_audit c) b"
  using handleDisruptionAudit_arguments [of a b "cl_audit c"]
  by (simp add: tool_disruption_audit_def schema_simps quorum_images_def)

lemma other_tools_declared:
  "list_all (\<lambda>t. same_arguments (te_schema t) a b \<longrightarrow> te_handler t a = te_handler t b)
     [tool_list_policies c, tool_get_policy_report c, tool_list_certificates c, tool_get_resource c,
      tool_list_resource c, tool_list_teams c]"
  by (simp add: tool_defs schema_simps handleListPolicies_def handleGetPolicyReport_def handleListCertificates_def
      handleGetResource_def handleListResource_def requested_gvr_def list_limit_def)

text \<open>
  C20. The schemas tell the whole input: a tool's answer depends only on the arguments its schema
  declares, each read at its declared type - every tool, every cluster, every pair of argument
  objects that agree on those.
\<close>

theorem tools_read_declared_arguments:
  fixes c :: "('e, 'sel, 'asel) cluster"
  assumes "t \<in> set (buildTools c)" and "same_arguments (te_schema t) a b"
  shows "te_handler t a = te_handler t b"
proof -
  define P where "P = (\<lambda>t :: 'e toolEntry. same_arguments (te_schema t) a b \<longrightarrow> te_handler t a = te_handler t b)"
  note parts = pod_tools_declared [of a b c, folded P_def] cluster_tools_declared [of a b c, folded P_def]
    other_tools_declared [of a b c, folded P_def]
  have "P (tool_disruption_audit c)" unfolding P_def using audit_tool_declared by blast
  with parts have "list_all P (buildTools c)" by (simp add: buildTools_def)
  with assms(1) have "P t" by (auto simp: list_all_iff)
  with assms(2) show ?thesis by (simp add: P_def)
qed

lemma tool_names:
  "map te_name (buildTools c) =
     [''list_pods'', ''get_pod'', ''pod_logs'', ''list_events'', ''list_workloads'', ''get_workload'',
      ''list_services'', ''get_service'', ''list_routes'', ''list_pvcs'', ''get_quota'', ''list_policies'',
      ''get_policy_report'', ''top_pods'', ''list_nodes'', ''get_node'', ''list_certificates'', ''get_resource'',
      ''list_resource'', ''disruption_audit'', ''list_teams'']"
  by (simp add: buildTools_def tool_defs)

text \<open>
  The catalogue is well typed: the 21 tools have different names, no name holds the zero byte
  that separates it from the arguments in a cache key, and every input schema is an object whose
  properties have a type the getters know and a description and include every required argument.
\<close>

theorem catalogue_well_typed:
  "length (buildTools c) = 21 \<and> distinct (map te_name (buildTools c)) \<and>
   list_all (\<lambda>t. schema_ok (te_schema t) \<and> CHR 0x00 \<notin> set (te_name t) \<and> te_description t \<noteq> []) (buildTools c)"
proof (intro conjI)
  have n: "length [''list_pods'', ''get_pod'', ''pod_logs'', ''list_events'', ''list_workloads'', ''get_workload'',
      ''list_services'', ''get_service'', ''list_routes'', ''list_pvcs'', ''get_quota'', ''list_policies'',
      ''get_policy_report'', ''top_pods'', ''list_nodes'', ''get_node'', ''list_certificates'', ''get_resource'',
      ''list_resource'', ''disruption_audit'', ''list_teams''] = 21"
    by simp
  show "length (buildTools c) = 21" using n unfolding tool_names [of c, symmetric] by simp
  show "distinct (map te_name (buildTools c))" unfolding tool_names by code_simp
  show "list_all (\<lambda>t. schema_ok (te_schema t) \<and> CHR 0x00 \<notin> set (te_name t) \<and> te_description t \<noteq> []) (buildTools c)"
    by (simp add: buildTools_def tool_defs schema_ok_objSchema property_ok_simps nsDesc_def)
qed

end
