(* ===== verification/Mcp_Server.thy ===== *)
theory Mcp_Server
  imports Instructions Tool_Server Tool_Catalogue Reads_Props Policies_Props Audit_Props
begin

text \<open>
  The server of the read-only tools as a whole, \<open>NewServer\<close> and \<open>addTool\<close> of
  \<open>src/internal/mcp/server.go\<close>: the catalogue behind the result cache. The cluster may be a different
  one at every call. A handler that does not return (an endless list) is a call that does not
  return: the model of a handler sets a flag then, and the call has no answer. The MCP library,
  which hands a call to the tool it names, is not part of the repository: a call carries the
  position of its tool in the catalogue.
\<close>

subsection \<open>The server\<close>

definition registered :: "'e toolEntry \<Rightarrow> ('e, answer, bool) tool" where
  "registered t =
     \<lparr>tool_name = te_name t,
      tool_handler = (\<lambda>a stuck.
        case te_handler t a of
          None \<Rightarrow> (Inl (Msg []), True)
        | Some (Inl herr) \<Rightarrow> (Inl herr, stuck)
        | Some (Inr (Text s)) \<Rightarrow> (Inr (PlainText s), stuck)
        | Some (Inr out) \<Rightarrow> (Inr (JsonValue out), stuck))\<rparr>"

record 'e server =
  sv_mcpServer :: "('e, answer, bool) tool mcpServer"
  sv_cache :: resultCache

text \<open>The tools \<open>NewServer\<close> adds, each with the handler \<open>addTool\<close> makes of it.\<close>

definition added_tools :: "('e, 'sel, 'asel) cluster \<Rightarrow> ('e, answer, bool) tool list" where
  "added_tools c = map registered (buildTools c)"

definition NewServer :: "string \<Rightarrow> ('e, 'sel, 'asel) cluster \<Rightarrow> 'e server" where
  "NewServer ver c =
     \<lparr>sv_mcpServer =
        \<lparr>ms_name = ''openshift-mcp'', ms_version = ver, ms_instructions = instructions,
         ms_tools = added_tools c\<rparr>,
      sv_cache = NewServerCache\<rparr>"

text \<open>
  Every tool the instructions name is registered: their other words with an underscore are an argument of
  \<open>list_policies\<close> results and an example of a variable.
\<close>

lemma instructions_name_tools:
  "set (identifiers [] (ms_instructions (sv_mcpServer (NewServer ver c)))) \<subseteq>
   set (map tool_name (ms_tools (sv_mcpServer (NewServer ver c)))) \<union> {''only_if'', ''DB_PASSWORD''}"
proof -
  have "map tool_name (ms_tools (sv_mcpServer (NewServer ver c))) = map te_name (buildTools c)"
    by (simp add: NewServer_def added_tools_def registered_def)
  moreover have "ms_instructions (sv_mcpServer (NewServer ver c)) = instructions" by (simp add: NewServer_def)
  ultimately show ?thesis
    unfolding tool_names by (simp only:) (rule order_trans [OF instructions_identifiers], simp)
qed

text \<open>A call: the tool, the text of the arguments, and the three times the cache reads the clock.\<close>

record toolCall =
  rq_tool :: nat
  rq_raw :: string
  rq_start :: instant
  rq_again :: instant
  rq_done :: instant

definition called :: "('e, 'sel, 'asel) cluster \<Rightarrow> toolCall \<Rightarrow> ('e, answer, bool) tool" where
  "called c q = added_tools c ! rq_tool q"

definition serve ::
  "(string \<Rightarrow> ('e goerr, bool) flight \<Rightarrow> ('e goerr, bool) flight) \<Rightarrow> (string \<Rightarrow> args) \<Rightarrow> (answer \<Rightarrow> ('e, string) fallible) \<Rightarrow>
   ('e \<Rightarrow> string) \<Rightarrow> ('e, 'sel, 'asel) cluster \<Rightarrow> toolCall \<Rightarrow> resultCache \<Rightarrow> (callResult \<times> resultCache) option" where
  "serve group_Do decode marshal txt c q cache =
     (case callTool group_Do decode marshal txt (rq_start q) (rq_again q) (rq_done q) (called c q) (rq_raw q) (cache, False) of
        None \<Rightarrow> None
      | Some (r, cache', stuck) \<Rightarrow> if stuck then None else Some (r, cache'))"

fun serve_all ::
  "(string \<Rightarrow> ('e goerr, bool) flight \<Rightarrow> ('e goerr, bool) flight) \<Rightarrow> (string \<Rightarrow> args) \<Rightarrow> (answer \<Rightarrow> ('e, string) fallible) \<Rightarrow>
   ('e \<Rightarrow> string) \<Rightarrow> (('e, 'sel, 'asel) cluster \<times> toolCall) list \<Rightarrow> resultCache \<Rightarrow> (callResult list \<times> resultCache) option" where
  "serve_all group_Do decode marshal txt [] cache = Some ([], cache)"
| "serve_all group_Do decode marshal txt ((c, q) # qs) cache =
     (case serve group_Do decode marshal txt c q cache of
        None \<Rightarrow> None
      | Some (r, cache') \<Rightarrow> map_option (\<lambda>(rs, cache''). (r # rs, cache'')) (serve_all group_Do decode marshal txt qs cache'))"

subsection \<open>Fresh answers\<close>

text \<open>What the handler of a call gives on a cluster, rendered: nothing where it does not return.\<close>

definition rendered ::
  "(string \<Rightarrow> args) \<Rightarrow> (answer \<Rightarrow> ('e, string) fallible) \<Rightarrow> ('e, 'sel, 'asel) cluster \<times> toolCall \<Rightarrow>
   ('e goerr, string) fallible option" where
  "rendered decode marshal cq =
     (case cq of (c, q) \<Rightarrow>
        case run_handler marshal (tool_handler (called c q)) (if length (rq_raw q) > 0 then decode (rq_raw q) else []) False of
          (r, stuck) \<Rightarrow> if stuck then None else Some r)"

definition call_key :: "('e, 'sel, 'asel) cluster \<times> toolCall \<Rightarrow> string" where
  "call_key cq = tool_key (tool_name (called (fst cq) (snd cq))) (rq_raw (snd cq))"

text \<open>Every entry of the cache is the result of an earlier call.\<close>

definition cached_from ::
  "(string \<Rightarrow> args) \<Rightarrow> (answer \<Rightarrow> ('e, string) fallible) \<Rightarrow> (('e, 'sel, 'asel) cluster \<times> toolCall) list \<Rightarrow> resultCache \<Rightarrow> bool" where
  "cached_from decode marshal past cache \<longleftrightarrow>
     cache_ok 512 (5 * second) cache \<and>
     (\<forall>k text e. (k, text, e) \<in> set (contents cache) \<longrightarrow>
        (\<exists>p \<in> set past. call_key p = k \<and> rendered decode marshal p = Some (Inr text) \<and> e = rq_done (snd p) + 5 * second))"

text \<open>An answer is right when it is the handler's own error, or the text of a call at most five seconds old.\<close>

definition fresh_answer ::
  "(string \<Rightarrow> args) \<Rightarrow> (answer \<Rightarrow> ('e, string) fallible) \<Rightarrow> ('e \<Rightarrow> string) \<Rightarrow> (('e, 'sel, 'asel) cluster \<times> toolCall) list \<Rightarrow>
   ('e, 'sel, 'asel) cluster \<times> toolCall \<Rightarrow> callResult \<Rightarrow> bool" where
  "fresh_answer decode marshal txt past cq r \<longleftrightarrow>
     (if cr_isError r
      then \<exists>err. rendered decode marshal cq = Some (Inl err) \<and> cr_text r = error_text txt err
      else \<exists>p \<in> set past. call_key p = call_key cq \<and> rendered decode marshal p = Some (Inr (cr_text r)) \<and>
             rq_start (snd cq) \<le> rq_done (snd p) + 5 * second)"

lemma cached_from_new: "cached_from decode marshal [] NewServerCache"
proof -
  have "contents NewServerCache = []" by (simp add: NewServerCache_def contents_def newResultCache_def)
  then show ?thesis
    using cache_ok_new [of 512 "5 * second"] by (simp add: cached_from_def NewServerCache_def)
qed

text \<open>One call keeps the cache sound and gives a right answer; the two cases are a hit and a miss.\<close>

lemma serve_hit:
  assumes inv: "cached_from decode marshal past cache" and hit: "\<not> expired_or_absent (rq_start q) (call_key (c, q)) cache"
    and serve: "serve group_Do decode marshal txt c q cache = Some (r, cache')"
  shows "cached_from decode marshal (past @ [(c, q)]) cache' \<and>
    fresh_answer decode marshal txt (past @ [(c, q)]) (c, q) r"
proof -
  let ?k = "call_key (c, q)"
  let ?fn = "run_handler marshal (tool_handler (called c q)) (if length (rq_raw q) > 0 then decode (rq_raw q) else [])"
  from hit obtain v e where e: "map_of (contents cache) ?k = Some (v, e)" "rq_start q \<le> e"
    by (auto simp: expired_or_absent_def split: option.splits)
  have ok: "cache_ok 512 (5 * second) cache" using inv by (simp add: cached_from_def)
  obtain c1 where c1: "cache_do group_Do (rq_start q) (rq_again q) (rq_done q) ?k ?fn (cache, False) = Some (Inr v, c1, False)"
    "cache_ok 512 (5 * second) c1" "contents c1 = (?k, v, e) # lru_drop ?k (contents cache)"
    using cache_do_hit [OF ok e, where fn = ?fn] by blast
  have "r = textResult v" "cache' = c1"
    using serve c1(1) by (simp_all add: serve_def callTool_def Let_def call_key_def)
  moreover have "(?k, v, e) \<in> set (contents cache)" using e(1) by (rule map_of_SomeD)
  ultimately show ?thesis
    using inv c1(2,3) e(2) by (auto simp: cached_from_def fresh_answer_def textResult_def set_lru_drop)
qed

lemma serve_miss:
  assumes direct: "runs_directly group_Do"
    and inv: "cached_from decode marshal past cache" and miss: "expired_or_absent (rq_start q) (call_key (c, q)) cache"
    and serve: "serve group_Do decode marshal txt c q cache = Some (r, cache')"
    and times: "rq_start q \<le> rq_done q"
  shows "cached_from decode marshal (past @ [(c, q)]) cache' \<and>
    fresh_answer decode marshal txt (past @ [(c, q)]) (c, q) r"
proof -
  let ?k = "call_key (c, q)"
  let ?fn = "run_handler marshal (tool_handler (called c q)) (if length (rq_raw q) > 0 then decode (rq_raw q) else [])"
  have ok: "cache_ok 512 (5 * second) cache" using inv by (simp add: cached_from_def)
  obtain res stuck where fn: "?fn False = (res, stuck)" by (rule prod.exhaust)
  show ?thesis
  proof (cases res)
    case (Inl err)
    then obtain c1 where c1: "cache_do group_Do (rq_start q) (rq_again q) (rq_done q) ?k ?fn (cache, False) =
        Some (Inl err, c1, stuck)" "cache_ok 512 (5 * second) c1" "contents c1 = lru_drop ?k (contents cache)"
      using cache_do_miss(1) [OF direct ok miss] fn by blast
    have s: "\<not> stuck" "r = errResult (error_text txt err)" "cache' = c1"
      using serve c1(1) by (simp_all add: serve_def callTool_def Let_def call_key_def split: if_splits)
    with fn Inl have "rendered decode marshal (c, q) = Some (Inl err)" by (simp add: rendered_def)
    with s inv c1(2,3) show ?thesis
      by (auto simp: cached_from_def fresh_answer_def errResult_def set_lru_drop)
  next
    case (Inr out)
    then obtain c1 where c1: "cache_do group_Do (rq_start q) (rq_again q) (rq_done q) ?k ?fn (cache, False) =
        Some (Inr out, c1, stuck)" "cache_ok 512 (5 * second) c1"
      "contents c1 = lru_put 512 (5 * second) (rq_done q) ?k out (contents cache)"
      using cache_do_miss(2) [OF direct ok miss] fn by blast
    have s: "\<not> stuck" "r = textResult out" "cache' = c1"
      using serve c1(1) by (simp_all add: serve_def callTool_def Let_def call_key_def split: if_splits)
    with fn Inr have ren: "rendered decode marshal (c, q) = Some (Inr out)" by (simp add: rendered_def)
    have "p \<in> set (contents c1) \<Longrightarrow> p = (?k, out, rq_done q + 5 * second) \<or> p \<in> set (contents cache)" for p
      unfolding c1(3) by (auto simp: lru_put_def set_lru_drop dest: in_set_takeD)
    then have "cached_from decode marshal (past @ [(c, q)]) c1"
      using inv c1(2) ren by (fastforce simp: cached_from_def)
    moreover have "fresh_answer decode marshal txt (past @ [(c, q)]) (c, q) r"
      using s(2) ren times by (auto simp: fresh_answer_def textResult_def second_def)
    ultimately show ?thesis using s(3) by simp
  qed
qed

lemma serve_all_fresh:
  assumes "runs_directly group_Do" and "\<forall>(c, q) \<in> set qs. rq_start q \<le> rq_done q"
    and "cached_from decode marshal past cache"
    and "serve_all group_Do decode marshal txt qs cache = Some (rs, cache')"
  shows "length rs = length qs \<and>
    (\<forall>i < length qs. fresh_answer decode marshal txt (past @ take (Suc i) qs) (qs ! i) (rs ! i))"
  using assms(2-)
proof (induction qs arbitrary: past cache rs)
  case (Cons cq qs)
  obtain c q where cq: "cq = (c, q)" by (rule prod.exhaust)
  from Cons.prems(3) obtain r cache1 rs1 where s: "serve group_Do decode marshal txt c q cache = Some (r, cache1)"
    "serve_all group_Do decode marshal txt qs cache1 = Some (rs1, cache')" "rs = r # rs1"
    by (auto simp: cq split: option.splits)
  have one: "cached_from decode marshal (past @ [(c, q)]) cache1 \<and>
      fresh_answer decode marshal txt (past @ [(c, q)]) (c, q) r"
    using serve_hit [OF Cons.prems(2) _ s(1)] serve_miss [OF assms(1) Cons.prems(2) _ s(1)] Cons.prems(1)
    by (auto simp: cq)
  from Cons.IH [OF _ conjunct1 [OF one] s(2)] Cons.prems(1)
  have rest: "length rs1 = length qs \<and>
      (\<forall>i < length qs. fresh_answer decode marshal txt (past @ (c, q) # take (Suc i) qs) (qs ! i) (rs1 ! i))"
    by simp
  show ?case
  proof (intro conjI allI impI)
    show "length rs = length (cq # qs)" using rest s(3) by simp
    fix i assume "i < length (cq # qs)"
    then show "fresh_answer decode marshal txt (past @ take (Suc i) (cq # qs)) ((cq # qs) ! i) (rs ! i)"
      using one rest s(3) by (cases i) (auto simp: cq)
  qed
qed simp

text \<open>Every call whose handler returns is answered, from the cache or not.\<close>

lemma serve_returns:
  assumes direct: "runs_directly group_Do" and ok: "cache_ok 512 (5 * second) cache"
    and "rendered decode marshal (c, q) = Some res"
  shows "\<exists>r cache'. serve group_Do decode marshal txt c q cache = Some (r, cache') \<and> cache_ok 512 (5 * second) cache'"
proof -
  let ?k = "call_key (c, q)"
  let ?fn = "run_handler marshal (tool_handler (called c q)) (if length (rq_raw q) > 0 then decode (rq_raw q) else [])"
  have fn: "?fn False = (res, False)" using assms(3) by (auto simp: rendered_def split: prod.splits if_splits)
  have "\<exists>r c1. cache_do group_Do (rq_start q) (rq_again q) (rq_done q) ?k ?fn (cache, False) = Some (r, c1, False) \<and>
      cache_ok 512 (5 * second) c1"
  proof (cases "expired_or_absent (rq_start q) ?k cache")
    case True
    then show ?thesis using cache_do_miss [OF direct ok True, where fn = ?fn and w = False and w' = False] fn
      by (cases res) blast+
  next
    case False
    then obtain v e where "map_of (contents cache) ?k = Some (v, e)" "rq_start q \<le> e"
      by (auto simp: expired_or_absent_def split: option.splits)
    from cache_do_hit [OF ok this, where fn = ?fn] show ?thesis by blast
  qed
  then obtain r c1 where d: "cache_do group_Do (rq_start q) (rq_again q) (rq_done q) ?k ?fn (cache, False) =
      Some (r, c1, False)" "cache_ok 512 (5 * second) c1" by blast
  then show ?thesis by (cases r) (simp_all add: serve_def callTool_def Let_def call_key_def)
qed

lemma serve_all_returns:
  assumes "runs_directly group_Do" and "\<forall>cq \<in> set qs. rendered decode marshal cq \<noteq> None"
    and "cache_ok 512 (5 * second) cache"
  shows "\<exists>rs cache'. serve_all group_Do decode marshal txt qs cache = Some (rs, cache')"
  using assms(2,3)
proof (induction qs arbitrary: cache)
  case (Cons cq qs)
  obtain c q where cq: "cq = (c, q)" by (rule prod.exhaust)
  from Cons.prems(1) obtain res where "rendered decode marshal (c, q) = Some res" by (auto simp: cq)
  from serve_returns [OF assms(1) Cons.prems(2) this] obtain r cache1 where
    s: "serve group_Do decode marshal txt c q cache = Some (r, cache1)" "cache_ok 512 (5 * second) cache1" by blast
  have "\<forall>cq \<in> set qs. rendered decode marshal cq \<noteq> None" using Cons.prems(1) by simp
  from Cons.IH [OF this s(2)] obtain rs cache' where
    "serve_all group_Do decode marshal txt qs cache1 = Some (rs, cache')" by blast
  with s(1) show ?case by (simp add: cq)
qed simp

subsection \<open>One tool and one text of arguments per key\<close>

lemma length_buildTools: "length (buildTools c) = 21"
  by (simp add: buildTools_def)

lemma tool_name_called:
  "rq_tool q < 21 \<Longrightarrow> tool_name (called c q) = map te_name (buildTools c) ! rq_tool q"
  by (simp add: called_def added_tools_def length_buildTools registered_def)

lemma names_plain: "list_all (\<lambda>n. CHR 0x00 \<notin> set n) (map te_name (buildTools c)) \<and> distinct (map te_name (buildTools c))"
  unfolding tool_names by code_simp

lemma same_tool:
  assumes "rq_tool q < 21" and "rq_tool q' < 21" and "call_key (c, q) = call_key (c', q')"
  shows "rq_tool q = rq_tool q' \<and> rq_raw q = rq_raw q'"
proof -
  let ?N = "map te_name (buildTools c)"
  have N: "map te_name (buildTools c') = ?N" by (simp only: tool_names)
  have len: "length ?N = 21" by (simp add: length_buildTools)
  have "CHR 0x00 \<notin> set (?N ! i)" if "i < 21" for i
    using names_plain [of c] that len by (simp add: list_all_length)
  with assms have "?N ! rq_tool q = ?N ! rq_tool q' \<and> rq_raw q = rq_raw q'"
    using tool_key_inject by (simp add: call_key_def tool_name_called N)
  with names_plain [of c] assms(1,2) len show ?thesis by (metis nth_eq_iff_index_eq)
qed

text \<open>
  C4. No answer is stale and no answer is mixed up, for any sequence of calls to a new server on a
  changing cluster: an error is the error of this very call, and a text is what the same tool with the
  same arguments gave for this call or for an earlier one that was finished at most five seconds
  before.
\<close>

theorem server_answers_fresh:
  assumes "runs_directly group_Do" and "\<forall>(c, q) \<in> set qs. rq_start q \<le> rq_done q \<and> rq_tool q < 21"
    and "serve_all group_Do decode marshal txt qs (sv_cache (NewServer ver c0)) = Some (rs, cache')" and "i < length qs"
  shows "length rs = length qs \<and>
    (if cr_isError (rs ! i)
     then \<exists>err. rendered decode marshal (qs ! i) = Some (Inl err) \<and> cr_text (rs ! i) = error_text txt err
     else \<exists>j \<le> i. rq_tool (snd (qs ! j)) = rq_tool (snd (qs ! i)) \<and> rq_raw (snd (qs ! j)) = rq_raw (snd (qs ! i)) \<and>
       rendered decode marshal (qs ! j) = Some (Inr (cr_text (rs ! i))) \<and>
       rq_start (snd (qs ! i)) \<le> rq_done (snd (qs ! j)) + 5 * second)"
proof -
  have new: "sv_cache (NewServer ver c0) = NewServerCache" by (simp add: NewServer_def)
  have all: "length rs = length qs" "fresh_answer decode marshal txt (take (Suc i) qs) (qs ! i) (rs ! i)"
    using serve_all_fresh [OF assms(1) _ cached_from_new assms(3) [unfolded new]] assms(2,4) by auto
  show ?thesis
  proof (cases "cr_isError (rs ! i)")
    case False
    with all(2) obtain p where p: "p \<in> set (take (Suc i) qs)" "call_key p = call_key (qs ! i)"
      "rendered decode marshal p = Some (Inr (cr_text (rs ! i)))" "rq_start (snd (qs ! i)) \<le> rq_done (snd p) + 5 * second"
      by (auto simp: fresh_answer_def)
    from p(1) obtain j where j: "j \<le> i" "p = qs ! j" by (auto simp: in_set_conv_nth less_Suc_eq_le)
    have "rq_tool (snd (qs ! j)) < 21" "rq_tool (snd (qs ! i)) < 21"
      using assms(2,4) j(1) by (auto simp: case_prod_beta)
    from same_tool [OF this, of "fst (qs ! j)" "fst (qs ! i)"] p(2) j False p(3,4) all(1) show ?thesis by auto
  qed (use all in \<open>simp add: fresh_answer_def\<close>)
qed

subsection \<open>Nothing of a credential leaves the server\<close>

definition alike_objects :: "('e, 'sel) read_api \<Rightarrow> ('e, object) fallible \<Rightarrow> ('e, object) fallible \<Rightarrow> bool" where
  "alike_objects api r r' \<longleftrightarrow>
     r = r' \<or>
     (case (r, r') of
        (Inr obj, Inr obj') \<Rightarrow>
          wf_any (JMap (stripped api obj)) \<and> wf_any (JMap (stripped api obj')) \<and>
          same_public (JMap (stripped api obj)) (JMap (stripped api obj'))
      | _ \<Rightarrow> False)"

text \<open>
  Two clusters that give the same answer to every read - policies, logs, lists, whatever another tool looks at -
  but to two kinds of them: a single object read by \<open>get_resource\<close>, where the credentials in it may
  differ, and the secrets read by \<open>list_certificates\<close>, where their data beside the two certificate keys may differ.
\<close>

definition same_but_secrets :: "('e, 'sel, 'asel) cluster \<Rightarrow> ('e, 'sel, 'asel) cluster \<Rightarrow> bool" where
  "same_but_secrets c c' \<longleftrightarrow>
     (let api = cl_reads c; get = ra_get (cl_reads c'); secrets = ra_secrets (cl_reads c') in
      c' = c\<lparr>cl_reads := api\<lparr>ra_get := get, ra_secrets := secrets\<rparr>\<rparr> \<and>
      (\<forall>g ns name. alike_objects api (ra_get api g ns name) (get g ns name)) \<and>
      (\<forall>ns. map_sum id (map public_part) (ra_secrets api ns) = map_sum id (map public_part) (secrets ns)))"

text \<open>The other handlers, and what they call, look at neither of the two.\<close>

lemma helpers_frame [simp]:
  "objectEvents (api\<lparr>ra_get := g, ra_secrets := s\<rparr>) = objectEvents api"
  "read_workload (api\<lparr>ra_get := g, ra_secrets := s\<rparr>) = read_workload api"
  "selected_pods (api\<lparr>ra_get := g, ra_secrets := s\<rparr>) = selected_pods api"
  "endpointCounts (api\<lparr>ra_get := g, ra_secrets := s\<rparr>) = endpointCounts api"
  "nested_text (api\<lparr>ra_get := g, ra_secrets := s\<rparr>) = nested_text api"
  "usage_step (api\<lparr>ra_get := g, ra_secrets := s\<rparr>) = usage_step api"
  "node_entry (api\<lparr>ra_get := g, ra_secrets := s\<rparr>) = node_entry api"
  "resource_entry (api\<lparr>ra_get := g, ra_secrets := s\<rparr>) = resource_entry api"
  "secret_key_entry (api\<lparr>ra_get := g, ra_secrets := s\<rparr>) = secret_key_entry api"
  "stripped (api\<lparr>ra_get := g, ra_secrets := s\<rparr>) = stripped api"
  unfolding objectEvents_def read_workload_def selected_pods_def endpointCounts_def nested_text_def usage_step_def
    node_entry_def resource_entry_def secret_key_entry_def stripped_def
  by (simp_all add: fun_eq_iff
      cong del: sum.case_cong_weak option.case_cong_weak let_weak_cong any.case_cong_weak prod.case_cong_weak if_weak_cong)

lemma nested_helpers_frame [simp]:
  "routeAdmitted p (api\<lparr>ra_get := g, ra_secrets := s\<rparr>) = routeAdmitted p api"
  "pod_usage (api\<lparr>ra_get := g, ra_secrets := s\<rparr>) = pod_usage api"
  unfolding routeAdmitted_def pod_usage_def by (simp_all add: fun_eq_iff
      cong del: sum.case_cong_weak option.case_cong_weak let_weak_cong any.case_cong_weak prod.case_cong_weak if_weak_cong)

lemma workload_handlers_frame [simp]:
  "handleListPods (api\<lparr>ra_get := g, ra_secrets := s\<rparr>) now a = handleListPods api now a"
  "handleGetPod (api\<lparr>ra_get := g, ra_secrets := s\<rparr>) now a = handleGetPod api now a"
  "handlePodLogs (api\<lparr>ra_get := g, ra_secrets := s\<rparr>) a = handlePodLogs api a"
  "handleListEvents (api\<lparr>ra_get := g, ra_secrets := s\<rparr>) now a = handleListEvents api now a"
  "handleListWorkloads (api\<lparr>ra_get := g, ra_secrets := s\<rparr>) now a = handleListWorkloads api now a"
  "handleGetWorkload (api\<lparr>ra_get := g, ra_secrets := s\<rparr>) now a = handleGetWorkload api now a"
  by (simp_all add: handleListPods_def handleGetPod_def handlePodLogs_def handleListEvents_def handleListWorkloads_def
      handleGetWorkload_def
      cong del: sum.case_cong_weak option.case_cong_weak let_weak_cong any.case_cong_weak prod.case_cong_weak if_weak_cong)

lemma cluster_handlers_frame [simp]:
  "handleListServices (api\<lparr>ra_get := g, ra_secrets := s\<rparr>) a = handleListServices api a"
  "handleGetService (api\<lparr>ra_get := g, ra_secrets := s\<rparr>) a = handleGetService api a"
  "handleListRoutes p (api\<lparr>ra_get := g, ra_secrets := s\<rparr>) a = handleListRoutes p api a"
  "handleListPVCs (api\<lparr>ra_get := g, ra_secrets := s\<rparr>) now a = handleListPVCs api now a"
  "handleGetQuota (api\<lparr>ra_get := g, ra_secrets := s\<rparr>) a = handleGetQuota api a"
  "handleTopPods (api\<lparr>ra_get := g, ra_secrets := s\<rparr>) a = handleTopPods api a"
  "handleListNodes (api\<lparr>ra_get := g, ra_secrets := s\<rparr>) now a = handleListNodes api now a"
  "handleGetNode (api\<lparr>ra_get := g, ra_secrets := s\<rparr>) a = handleGetNode api a"
  "handleListResource (api\<lparr>ra_get := g, ra_secrets := s\<rparr>) now a = handleListResource api now a"
  by (simp_all add: handleListServices_def handleGetService_def handleListRoutes_def handleListPVCs_def handleGetQuota_def
      handleTopPods_def handleListNodes_def handleGetNode_def handleListResource_def
      cong del: sum.case_cong_weak option.case_cong_weak let_weak_cong any.case_cong_weak prod.case_cong_weak if_weak_cong)

lemma get_resource_alike:
  assumes "\<forall>gvr ns name. alike_objects api (ra_get api gvr ns name) (g gvr ns name)"
  shows "handleGetResource (api\<lparr>ra_get := g, ra_secrets := s\<rparr>) a = handleGetResource api a"
proof -
  have "alike_objects api (ra_get api (requested_gvr a) (arg_str a ''namespace'') (arg_str a ''name''))
      (g (requested_gvr a) (arg_str a ''namespace'') (arg_str a ''name''))"
    using assms by blast
  then show ?thesis
    using rd.answer_alike
    by (auto simp: handleGetResource_def Let_def alike_objects_def split: sum.splits)
qed

lemma certificates_alike:
  assumes "\<forall>ns. map_sum id (map public_part) (ra_secrets api ns) = map_sum id (map public_part) (s ns)"
  shows "handleListCertificates (api\<lparr>ra_get := g, ra_secrets := s\<rparr>) now a = handleListCertificates api now a"
proof -
  have "secret_key_entry (api\<lparr>ra_secrets := s\<rparr>) = secret_key_entry api"
    unfolding secret_key_entry_def
    by (simp add: fun_eq_iff cong del: sum.case_cong_weak option.case_cong_weak if_weak_cong)
  then have "handleListCertificates (api\<lparr>ra_get := g, ra_secrets := s\<rparr>) now a =
      handleListCertificates (api\<lparr>ra_secrets := s\<rparr>) now a"
    by (simp add: handleListCertificates_def cong del: sum.case_cong_weak let_weak_cong)
  also have "\<dots> = handleListCertificates (api\<lparr>ra_secrets := \<lambda>ns. map_sum id (map public_part) (s ns)\<rparr>) now a"
    using certificates_public_part [of "api\<lparr>ra_secrets := s\<rparr>" now a] by simp
  also have "\<dots> = handleListCertificates api now a"
    using certificates_public_part [of api now a] assms by simp
  finally show ?thesis .
qed

lemma buildTools_alike:
  assumes "same_but_secrets c c'"
  shows "buildTools c' = buildTools c"
proof -
  obtain g s where c': "c' = c\<lparr>cl_reads := (cl_reads c)\<lparr>ra_get := g, ra_secrets := s\<rparr>\<rparr>"
    "\<forall>gvr ns name. alike_objects (cl_reads c) (ra_get (cl_reads c) gvr ns name) (g gvr ns name)"
    "\<forall>ns. map_sum id (map public_part) (ra_secrets (cl_reads c) ns) = map_sum id (map public_part) (s ns)"
    using assms by (auto simp: same_but_secrets_def Let_def)
  show ?thesis
    unfolding c'(1) by (simp add: buildTools_def tool_defs get_resource_alike [OF c'(2)] certificates_alike [OF c'(3)])
qed

text \<open>
  C3. The credentials in what \<open>get_resource\<close> and \<open>list_certificates\<close> read cannot be told from outside: clusters that
  agree in every other read, and differ in these two only in the credentials of an object and in the data of
  secrets beside the two certificate keys, give the same answers to the same calls of any tools in any order, from
  the same cache. Of a credential another tool reads nothing is said: \<open>list_policies\<close> prints the check and the
  preconditions of a policy as they are, and \<open>pod_logs\<close> the log.
\<close>

theorem server_noninterference:
  assumes "list_all2 (\<lambda>(c, q) (c', q'). same_but_secrets c c' \<and> q = q') qs qs'"
  shows "serve_all group_Do decode marshal txt qs cache = serve_all group_Do decode marshal txt qs' cache"
  using assms
proof (induction arbitrary: cache rule: list_all2_induct)
  case (Cons x xs y ys)
  obtain c q c' where xy: "x = (c, q)" "y = (c', q)" "same_but_secrets c c'" using Cons.hyps(1) by (cases x, cases y) auto
  have "called c q = called c' q"
    using buildTools_alike [OF xy(3)] by (simp add: called_def added_tools_def)
  then have "serve group_Do decode marshal txt c q cache' = serve group_Do decode marshal txt c' q cache'" for cache'
    by (simp only: serve_def)
  with Cons.IH show ?case by (simp add: xy split: option.split)
qed simp

lemma registered_returns:
  "te_handler t a = Some r \<Longrightarrow> snd (run_handler marshal (tool_handler (registered t)) a b) = b"
  by (auto simp: run_handler_def registered_def split: sum.split answer.split)

lemma sensitive_apiKey: "sensitiveKey ''apiKey''"
  by code_simp

definition hidden_cluster :: "string \<Rightarrow> (string, string, labels option) cluster" where
  "hidden_cluster p =
     \<lparr>cl_reads = sample_read_api\<lparr>ra_get := \<lambda>g ns name. Inr [(''apiKey'', JStr p)],
        ra_secrets := \<lambda>ns. Inr [\<lparr>se_name = ''tls'', se_data = [(''tls.key'', p)]\<rparr>]\<rparr>,
      cl_policies = policy_cluster (\<lambda>_. []), cl_audit = sample_api, cl_now = 0, cl_print = (\<lambda>_. ''0'')\<rparr>"

definition call_at :: "instant \<Rightarrow> toolCall" where
  "call_at t = \<lparr>rq_tool = 17, rq_raw = ''{}'', rq_start = t, rq_again = t, rq_done = t + second\<rparr>"

definition render :: "answer \<Rightarrow> (string, string) fallible" where
  "render v = (case v of Value j \<Rightarrow> Inr (json_Marshal (\<lambda>_. ''0'') j) | _ \<Rightarrow> Inl ''unsupported'')"

lemma called_get_resource: "called (hidden_cluster p) (call_at t) = registered (tool_get_resource (hidden_cluster p))"
  by (simp add: called_def added_tools_def call_at_def buildTools_def)

lemma hidden_alike:
  assumes "p \<noteq> []" and "p' \<noteq> []"
  shows "same_but_secrets (hidden_cluster p) (hidden_cluster p')"
proof -
  have c: "credential_field [(''apiKey'', JStr p)] ''apiKey'' (JStr p)" if "p \<noteq> []" for p
    using that sensitive_apiKey by (simp add: credential_field_def)
  have "same_public (JMap [(''apiKey'', JStr p)]) (JMap [(''apiKey'', JStr p')])"
    by (rule same_map) (simp add: c assms)
  then show ?thesis
    by (simp add: same_but_secrets_def hidden_cluster_def alike_objects_def stripped_def sample_read_api_def public_part_def)
qed

theorem server_noninterference_witness:
  "serve_all (\<lambda>k f s. f s) (\<lambda>_. read_request) render id [(hidden_cluster ''one'', call_at 0)] NewServerCache =
   serve_all (\<lambda>k f s. f s) (\<lambda>_. read_request) render id [(hidden_cluster ''two'', call_at 0)] NewServerCache"
  by (rule server_noninterference) (simp add: hidden_alike)

lemma rendered_get_resource:
  "\<exists>r. rendered (\<lambda>_. read_request) render (hidden_cluster p, call_at t) = Some r"
proof -
  have "te_handler (tool_get_resource c) a = Some (map_sum id Value (handleGetResource (cl_reads c) a))"
    for c :: "(string, string, labels option) cluster" and a by (simp add: tool_get_resource_def)
  then have "\<not> snd (run_handler render (tool_handler (registered (tool_get_resource c))) a False)"
    for c :: "(string, string, labels option) cluster" and a
    using registered_returns [where b = False] by blast
  then show ?thesis
    by (simp add: rendered_def called_get_resource case_prod_beta)
qed

theorem server_answers_fresh_witness:
  "\<exists>rs cache'. serve_all (\<lambda>k f s. f s) (\<lambda>_. read_request) render id
       [(hidden_cluster ''one'', call_at 0), (hidden_cluster ''two'', call_at (3 * second))] NewServerCache = Some (rs, cache') \<and>
     length rs = 2"
proof -
  let ?qs = "[(hidden_cluster ''one'', call_at 0), (hidden_cluster ''two'', call_at (3 * second))]"
  have direct: "runs_directly (\<lambda>k f s. f s)" by (simp add: runs_directly_def)
  have "\<forall>cq \<in> set ?qs. rendered (\<lambda>_. read_request) render cq \<noteq> None" using rendered_get_resource by simp
  from serve_all_returns [OF direct this, of NewServerCache id] cache_ok_new [of 512 "5 * second"] obtain rs cache' where
    s: "serve_all (\<lambda>k f s. f s) (\<lambda>_. read_request) render id ?qs NewServerCache = Some (rs, cache')"
    by (auto simp: NewServerCache_def)
  then have n: "serve_all (\<lambda>k f s. f s) (\<lambda>_. read_request) render id ?qs
      (sv_cache (NewServer ''dev'' (hidden_cluster ''one''))) = Some (rs, cache')" by (simp add: NewServer_def)
  have t: "\<forall>(c, q) \<in> set ?qs. rq_start q \<le> rq_done q \<and> rq_tool q < 21" by (simp add: call_at_def second_def)
  from server_answers_fresh [OF direct t n, of 1] s show ?thesis by auto
qed

theorem tools_read_declared_arguments_witness:
  "te_handler (tool_get_node (hidden_cluster ''one'')) [(''name'', JStr ''n1''), (''verbose'', JBool True)] =
   te_handler (tool_get_node (hidden_cluster ''one'')) [(''name'', JStr ''n1'')]"
  by (rule tools_read_declared_arguments [of _ "hidden_cluster ''one''"])
    (simp_all add: buildTools_def tool_get_node_def schema_simps arg_str_def)

end
