(* ===== verification/K8s_Client.thy ===== *)
theory K8s_Client
  imports Kube_Api Debug_Config
begin

text \<open>
  The Kubernetes client, \<open>src/internal/k8s/client.go\<close>: the settings from the environment and the
  choice of the configuration. Parameters are the environment, \<open>time.ParseDuration\<close> and
  \<open>strconv.ParseFloat\<close> (\<open>None\<close> for an error and for a text that is not a number), and the
  constructors of the client library.
\<close>

datatype qps = Finite rat | Infinite

definition positive_qps :: "qps \<Rightarrow> bool" where
  "positive_qps q = (case q of Finite r \<Rightarrow> r > 0 | Infinite \<Rightarrow> True)"

record k8sConfig =
  kc_Kubeconfig :: string
  kc_Context :: string
  kc_Timeout :: duration
  kc_QPS :: qps
  kc_Burst :: int

record k8s_env =
  ke_getenv :: "string \<Rightarrow> string"
  ke_parseDuration :: "string \<Rightarrow> duration option"
  ke_parseFloat32 :: "string \<Rightarrow> qps option"

definition K8s_ConfigFromEnv :: "k8s_env \<Rightarrow> k8sConfig" where
  "K8s_ConfigFromEnv env =
     (let v = ke_getenv env in
      \<lparr>kc_Kubeconfig = v ''K8S_KUBECONFIG'',
       kc_Context = v ''K8S_CONTEXT'',
       kc_Timeout =
         (if v ''K8S_TIMEOUT'' = [] then 30 * second
          else case ke_parseDuration env (v ''K8S_TIMEOUT'') of Some d \<Rightarrow> d | None \<Rightarrow> 30 * second),
       kc_QPS =
         (if v ''K8S_QPS'' = [] then Finite 50
          else case ke_parseFloat32 env (v ''K8S_QPS'') of
            Some f \<Rightarrow> if positive_qps f then f else Finite 50 | None \<Rightarrow> Finite 50),
       kc_Burst =
         (if v ''K8S_BURST'' = [] then 100
          else case atoi (v ''K8S_BURST'') of Some n \<Rightarrow> if n > 0 then n else 100 | None \<Rightarrow> 100)\<rparr>)"

text \<open>The fields of \<open>rest.Config\<close> the program sets, over what the library loaded.\<close>

record 'r restSettings =
  rs_loaded :: 'r
  rs_Timeout :: duration
  rs_QPS :: qps
  rs_Burst :: int
  rs_AcceptContentTypes :: string
  rs_ContentType :: string

record ('e, 'r, 'cs, 'dyn) client_library =
  cl_loadConfig :: "string \<Rightarrow> string \<Rightarrow> ('e, 'r restSettings) fallible"
  cl_inCluster :: "('e, 'r restSettings) fallible"
  cl_newClientset :: "'r restSettings \<Rightarrow> ('e, 'cs) fallible"
  cl_newDynamic :: "'r restSettings \<Rightarrow> ('e, 'dyn) fallible"

definition restConfig :: "('e, 'r, 'cs, 'dyn) client_library \<Rightarrow> k8sConfig \<Rightarrow> ('e, 'r restSettings) fallible" where
  "restConfig lib cfg =
     (if kc_Kubeconfig cfg \<noteq> [] \<or> kc_Context cfg \<noteq> [] then cl_loadConfig lib (kc_Kubeconfig cfg) (kc_Context cfg)
      else case cl_inCluster lib of
             Inr rc \<Rightarrow> Inr rc
           | Inl _ \<Rightarrow> cl_loadConfig lib [] [])"

record ('r, 'cs, 'dyn) client =
  cn_Clientset :: 'cs
  cn_Dynamic :: 'dyn
  cn_Rest :: "'r restSettings"

definition New_client ::
  "('e, 'r, 'cs, 'dyn) client_library \<Rightarrow> k8s_env \<Rightarrow> k8sConfig option \<Rightarrow> ('e goerr, ('r, 'cs, 'dyn) client) fallible" where
  "New_client lib env cfg0 =
     (let cfg = (case cfg0 of Some cfg \<Rightarrow> cfg | None \<Rightarrow> K8s_ConfigFromEnv env) in
      case restConfig lib cfg of
        Inl err \<Rightarrow> Inl (Wrap ''build rest config: '' (Api err) [])
      | Inr loaded \<Rightarrow>
          let restCfg = loaded\<lparr>rs_Timeout := kc_Timeout cfg, rs_QPS := kc_QPS cfg, rs_Burst := kc_Burst cfg\<rparr>;
              typedCfg = restCfg\<lparr>rs_AcceptContentTypes := ''application/vnd.kubernetes.protobuf,application/json'',
                                rs_ContentType := ''application/vnd.kubernetes.protobuf''\<rparr>
          in (case cl_newClientset lib typedCfg of
                Inl err \<Rightarrow> Inl (Wrap ''create kubernetes client: '' (Api err) [])
              | Inr cs \<Rightarrow>
                  (case cl_newDynamic lib restCfg of
                     Inl err \<Rightarrow> Inl (Wrap ''create dynamic client: '' (Api err) [])
                   | Inr dyn \<Rightarrow> Inr \<lparr>cn_Clientset = cs, cn_Dynamic = dyn, cn_Rest = restCfg\<rparr>)))"

lemma New_client_from_env: "New_client lib env (Some (K8s_ConfigFromEnv env)) = New_client lib env None"
  by (simp add: New_client_def)

text \<open>The limits of a configuration read from the environment are always positive.\<close>

lemma client_limits_positive:
  "positive_qps (kc_QPS (K8s_ConfigFromEnv env))" "0 < kc_Burst (K8s_ConfigFromEnv env)"
  by (auto simp: K8s_ConfigFromEnv_def Let_def positive_qps_def split: option.split qps.split)

text \<open>
  A client is made with the configured limits: the limits taken from the environment are
  positive whatever it holds, the base configuration that debug pods use carries them and keeps the
  loaded content type (the protobuf setting of the typed client does not leak into it), and a named
  kubeconfig or context is never passed over for the service account of the pod.
\<close>

theorem client_configuration:
  assumes "New_client lib env None = Inr c"
  shows "positive_qps (rs_QPS (cn_Rest c)) \<and> 0 < rs_Burst (cn_Rest c) \<and>
    rs_Timeout (cn_Rest c) = kc_Timeout (K8s_ConfigFromEnv env) \<and>
    cl_newDynamic lib (cn_Rest c) = Inr (cn_Dynamic c) \<and>
    (\<exists>loaded. rs_loaded (cn_Rest c) = rs_loaded loaded \<and> rs_ContentType (cn_Rest c) = rs_ContentType loaded \<and>
      (if ke_getenv env ''K8S_KUBECONFIG'' \<noteq> [] \<or> ke_getenv env ''K8S_CONTEXT'' \<noteq> []
       then cl_loadConfig lib (ke_getenv env ''K8S_KUBECONFIG'') (ke_getenv env ''K8S_CONTEXT'') = Inr loaded
       else cl_inCluster lib = Inr loaded \<or> cl_loadConfig lib [] [] = Inr loaded))"
proof -
  let ?cfg = "K8s_ConfigFromEnv env"
  from assms obtain loaded where l: "restConfig lib ?cfg = Inr loaded"
    "cn_Rest c = loaded\<lparr>rs_Timeout := kc_Timeout ?cfg, rs_QPS := kc_QPS ?cfg, rs_Burst := kc_Burst ?cfg\<rparr>"
    "cl_newDynamic lib (cn_Rest c) = Inr (cn_Dynamic c)"
    by (auto simp: New_client_def Let_def split: sum.splits)
  have k: "kc_Kubeconfig ?cfg = ke_getenv env ''K8S_KUBECONFIG''" "kc_Context ?cfg = ke_getenv env ''K8S_CONTEXT''"
    by (simp_all add: K8s_ConfigFromEnv_def Let_def)
  have "if ke_getenv env ''K8S_KUBECONFIG'' \<noteq> [] \<or> ke_getenv env ''K8S_CONTEXT'' \<noteq> []
       then cl_loadConfig lib (ke_getenv env ''K8S_KUBECONFIG'') (ke_getenv env ''K8S_CONTEXT'') = Inr loaded
       else cl_inCluster lib = Inr loaded \<or> cl_loadConfig lib [] [] = Inr loaded"
    using l(1) by (auto simp: restConfig_def k split: sum.splits if_splits)
  then show ?thesis using client_limits_positive [of env] l(2,3) by auto
qed

definition sample_library :: "(string, unit, bool, bool) client_library" where
  "sample_library =
     \<lparr>cl_loadConfig = (\<lambda>f x. Inl ''no kubeconfig''),
      cl_inCluster = Inr \<lparr>rs_loaded = (), rs_Timeout = 0, rs_QPS = Finite 5, rs_Burst = 10,
                         rs_AcceptContentTypes = [], rs_ContentType = ''application/json''\<rparr>,
      cl_newClientset = (\<lambda>r. Inr True), cl_newDynamic = (\<lambda>r. Inr False)\<rparr>"

definition sample_k8s_env :: k8s_env where
  "sample_k8s_env =
     \<lparr>ke_getenv = (\<lambda>k. if k = ''K8S_QPS'' then ''-1'' else if k = ''K8S_BURST'' then ''7'' else []),
      ke_parseDuration = (\<lambda>_. None), ke_parseFloat32 = (\<lambda>_. Some (Finite (- 1)))\<rparr>"

lemma sample_client: "\<exists>c. New_client sample_library sample_k8s_env None = Inr c"
  by (simp add: New_client_def sample_library_def sample_k8s_env_def K8s_ConfigFromEnv_def restConfig_def Let_def)

theorem client_configuration_witness:
  "\<exists>c. New_client sample_library sample_k8s_env None = Inr c \<and> positive_qps (rs_QPS (cn_Rest c))"
proof -
  obtain c where c: "New_client sample_library sample_k8s_env None = Inr c" using sample_client by blast
  from client_configuration [OF c] c show ?thesis by blast
qed

end
