(* ===== verification/Command.thy ===== *)
theory Command
  imports Debug_Server Debug_Config Go_Json
begin

text \<open>
  The command, \<open>src/cmd/openshift-mcp/main.go\<close>, and \<open>src/internal/version/version.go\<close>: when the
  debug endpoint exists, and which handler answers a request. The multiplexer is \<open>http.ServeMux\<close>
  of the Go library: a path that is not clean is redirected to its clean form, the patterns without
  a trailing slash match exactly, and \<open>/\<close> matches the rest (percent escapes in a path, and the
  method CONNECT, are not modelled). Flags, signals, logging, the listener and its time limits are not modelled.
\<close>

subsection \<open>Clean paths\<close>

text \<open>\<open>path.Clean\<close> of a rooted path, on its segments, and \<open>cleanPath\<close> of the multiplexer.\<close>

fun clean_segments :: "string list \<Rightarrow> string list \<Rightarrow> string list" where
  "clean_segments out [] = rev out"
| "clean_segments out (s # r) =
     (if s = [] \<or> s = ''.'' then clean_segments out r
      else if s = ''..'' then clean_segments (tl out) r
      else clean_segments (s # out) r)"

definition path_Clean :: "string \<Rightarrow> string" where
  "path_Clean p = CHR ''/'' # join (clean_segments [] (split_at p (CHR ''/''))) ''/''"

definition cleanPath :: "string \<Rightarrow> string" where
  "cleanPath p0 =
     (if p0 = [] then ''/''
      else
        let p = (if hd p0 \<noteq> CHR ''/'' then CHR ''/'' # p0 else p0); np = path_Clean p
        in if last p = CHR ''/'' \<and> np \<noteq> ''/'' then np @ ''/'' else np)"

subsection \<open>The command\<close>

text \<open>
  \<open>debugServer\<close>: the debug endpoint, none where it is off. \<open>runner_out\<close> is what a runner reaches with the
  client the program was given, \<open>ver\<close> the version text.
\<close>

definition debugServer ::
  "('e, 'q) config_env \<Rightarrow> string \<Rightarrow> ('e, 'q) outside \<Rightarrow>
   ('e goerr list, ('q runner, 'e) DebugServer option) fallible" where
  "debugServer env ver runner_out =
     (case ConfigFromEnv env of (cfg, errs) \<Rightarrow>
        if errs \<noteq> [] then Inl errs
        else if \<not> cfg_Enabled cfg then Inr None
        else
          let token = getenv env ''DEBUG_POD_TOKEN'' in
          if length token < 32
          then Inl [Msg ''DEBUG_POD_TOKEN must be at least 32 characters when debug pods are enabled'']
          else Inr (Some (NewDebugServer ver (runner_of cfg runner_out) token)))"

definition readinessTimeout :: "('e, 'q) config_env \<Rightarrow> duration" where
  "readinessTimeout env =
     (let v = getenv env ''READINESS_TIMEOUT'' in
      if v = [] then 10 * second
      else case parse_duration env v of Some d \<Rightarrow> if d > 0 then d else 10 * second | None \<Rightarrow> 10 * second)"

text \<open>
  The answers of the server: a status with a body, a redirect, or what the handler behind a path
  answers; \<open>http.Error\<close> and the JSON encoder end their text with a line feed. \<open>probe\<close> tells whether the API server answers within a time limit, \<open>mcp\<close> is the
  handler of the read-only tools, on the cache of its server, \<open>inner\<close> the handler of the debug tools behind the
  token, on the state of their runner.
\<close>

datatype ('m, 'r) webReply = Status int string | Redirect string | FromMcp 'm | FromDebug "'r httpReply"

definition http_Error :: "int \<Rightarrow> string \<Rightarrow> ('m, 'r) webReply" where
  "http_Error code text = Status code (text @ [CHR 0x0A])"

definition serveHTTP ::
  "('e, 'q) config_env \<Rightarrow> ('s, 'e) DebugServer option \<Rightarrow> (duration \<Rightarrow> bool) \<Rightarrow> string \<Rightarrow> (header \<Rightarrow> 'c \<Rightarrow> ('m \<times> 'c) option) \<Rightarrow>
   (('s, 'e) debugTool mcpServer \<Rightarrow> header \<Rightarrow> 's \<Rightarrow> ('r \<times> 's) option) \<Rightarrow> string \<Rightarrow> header \<Rightarrow> 'c \<times> 's \<Rightarrow>
   (('m, 'r) webReply \<times> 'c \<times> 's) option" where
  "serveHTTP env dbg probe versionText mcp inner path h st =
     (if cleanPath path \<noteq> path then Some (Redirect (cleanPath path), st)
      else if path = ''/healthz'' then Some (Status 200 [], st)
      else if path = ''/readyz'' then
        Some (if probe (readinessTimeout env) then Status 200 [] else http_Error 503 ''kubernetes api unavailable'', st)
      else if path = ''/version'' then
        Some (Status 200 (CHR ''{'' # json_quote ''version'' @ '':'' @ json_quote versionText @ ''}'' @ [CHR 0x0A]), st)
      else if path = ''/mcp'' then map_option (\<lambda>(r, c'). (FromMcp r, c', snd st)) (mcp h (fst st))
      else case dbg of
        Some s \<Rightarrow>
          if path = ''/debug/mcp''
          then map_option (\<lambda>(r, s'). (FromDebug r, fst st, s')) (HTTPHandler s inner h (snd st))
          else Some (http_Error 404 ''not found'', st)
      | None \<Rightarrow> Some (http_Error 404 ''not found'', st))"

subsection \<open>Who can change the cluster\<close>

lemma debugServer_token:
  assumes "debugServer env ver out = Inr (Some s)"
  shows "getenv env ''DEBUG_POD_ENABLED'' = ''true'' \<and> 32 \<le> length (ds_token s) \<and>
    ds_token s = getenv env ''DEBUG_POD_TOKEN'' \<and>
    (\<exists>cfg. ds_mcpServer s = ds_mcpServer (NewDebugServer ver (runner_of cfg out) (ds_token s)) \<and>
      cfg_Image cfg \<noteq> [] \<and> 0 < cfg_Lifetime cfg)"
proof -
  obtain c errs where c: "ConfigFromEnv env = (c, errs)" by (rule prod.exhaust)
  with assms have "errs = []" "cfg_Enabled c" "32 \<le> length (ds_token s)" "ds_token s = getenv env ''DEBUG_POD_TOKEN''"
    and s: "ds_mcpServer s = ds_mcpServer (NewDebugServer ver (runner_of c out) (ds_token s))"
    by (auto simp: debugServer_def Let_def split: if_splits)
  with c config_image [of env] config_positive(1) [of env] show ?thesis
    by (auto simp: ConfigFromEnv_def Let_def case_prod_beta intro!: exI [of _ c])
qed

lemma debug_path_clean: "cleanPath ''/debug/mcp'' = ''/debug/mcp''"
  by code_simp

text \<open>
  What is relied on of the MCP library: a request to the handler it makes of a server is any number of calls
  of the tools of the server, each with the headers of the request.
\<close>

definition hands_calls_over ::
  "(string \<Rightarrow> args) \<Rightarrow> (toolOut \<Rightarrow> ('e, string) fallible) \<Rightarrow> ('e \<Rightarrow> string) \<Rightarrow>
   (('s, 'e) debugTool mcpServer \<Rightarrow> header \<Rightarrow> 's \<Rightarrow> ('r \<times> 's) option) \<Rightarrow> bool" where
  "hands_calls_over decode marshal txt inner \<longleftrightarrow>
     (\<forall>m h st r st'. inner m h st = Some (r, st') \<longrightarrow> debug_calls decode marshal txt (ms_tools m) (Some h) st st')"

lemma request_acts:
  assumes "debugServer env ver out = Inr dbg"
    and "hands_calls_over decode marshal txt inner"
    and "serveHTTP env dbg probe ver mcp inner path h st = Some (reply, st')"
  shows "(path = ''/mcp'' \<and> snd st' = snd st \<or> fst st' = fst st) \<and>
    (snd st' = snd st \<or>
    path = ''/debug/mcp'' \<and> getenv env ''DEBUG_POD_ENABLED'' = ''true'' \<and>
    32 \<le> length (getenv env ''DEBUG_POD_TOKEN'') \<and>
    header_get h ''Authorization'' = ''Bearer '' @ getenv env ''DEBUG_POD_TOKEN'' \<and>
    person (header_user (Some h)) \<and> acts_as (trim_space (header_user (Some h))) (snd st) (snd st'))"
proof (cases "\<exists>s r. dbg = Some s \<and> path = ''/debug/mcp'' \<and> HTTPHandler s inner h (snd st) = Some (r, snd st')")
  case True
  then obtain s r where d: "dbg = Some s" "path = ''/debug/mcp''" "HTTPHandler s inner h (snd st) = Some (r, snd st')" by blast
  obtain cfg where s: "getenv env ''DEBUG_POD_ENABLED'' = ''true''" "32 \<le> length (ds_token s)"
    "ms_tools (ds_mcpServer s) = debugTools (runner_of cfg out)" "ds_token s = getenv env ''DEBUG_POD_TOKEN''"
    using debugServer_token [of env ver out s] assms(1) d(1) by auto
  have f: "fst st' = fst st"
    using assms(3) d(1,2) by (auto simp: serveHTTP_def debug_path_clean)
  from d(3) have "snd st' = snd st \<or> header_get h ''Authorization'' = ''Bearer '' @ ds_token s \<and>
      (\<exists>res. inner (ds_mcpServer s) h (snd st) = Some (res, snd st'))"
    by (auto simp: HTTPHandler_def Let_def split: if_splits)
  then consider "snd st' = snd st"
    | "header_get h ''Authorization'' = ''Bearer '' @ ds_token s"
      "debug_calls decode marshal txt (debugTools (runner_of cfg out)) (Some h) (snd st) (snd st')"
    using assms(2) [unfolded hands_calls_over_def] s(3) by metis
  then show ?thesis
  proof cases
    case 2
    with debug_calls_as [OF 2(2)] debug_calls_refused [OF 2(2)] s d(2) f show ?thesis
      by (cases "person (header_user (Some h))") auto
  qed (use f in simp)
next
  case False
  with assms(3) show ?thesis
    by (auto simp: serveHTTP_def split: if_splits option.splits)
qed

text \<open>
  C6. The only way to change the cluster: a request to the server that leads to any request of a
  debug tool went to \<open>/debug/mcp\<close>, the endpoint was enabled with a token of at least 32
  characters, the request carried exactly that token and named a person, and everything asked of the cluster - by any
  number of tool calls, in any order, with any arguments - was impersonated as the user it names, but for the
  list of the groups, which the server reads with its own access. A request changes the cache of the read-only
  tools or the runner, never both, and the cache only on \<open>/mcp\<close>.
\<close>

theorem only_debug_endpoint_acts:
  assumes "debugServer env ver out = Inr dbg"
    and "hands_calls_over decode marshal txt inner"
    and "serveHTTP env dbg probe ver mcp inner path h st = Some (reply, st')"
  shows "(path = ''/mcp'' \<and> snd st' = snd st \<or> fst st' = fst st) \<and>
    (snd st' = snd st \<or>
    path = ''/debug/mcp'' \<and> getenv env ''DEBUG_POD_ENABLED'' = ''true'' \<and>
    32 \<le> length (getenv env ''DEBUG_POD_TOKEN'') \<and>
    header_get h ''Authorization'' = ''Bearer '' @ getenv env ''DEBUG_POD_TOKEN'' \<and>
    person (header_user (Some h)) \<and> acts_as (trim_space (header_user (Some h))) (snd st) (snd st'))"
  by (rule request_acts [OF assms])

theorem debug_path_absent_when_disabled:
  assumes "getenv env ''DEBUG_POD_ENABLED'' \<noteq> ''true''" and "debugServer env ver out = Inr dbg"
  shows "serveHTTP env dbg probe ver mcp inner ''/debug/mcp'' h st = Some (http_Error 404 ''not found'', st)"
proof -
  have "dbg = None" using assms debugServer_token by (cases dbg) auto
  then show ?thesis by (simp add: serveHTTP_def debug_path_clean)
qed

definition command_env :: "(string, nat) config_env" where
  "command_env =
     \<lparr>getenv = (\<lambda>k. if k = ''DEBUG_POD_ENABLED'' then ''true'' else if k = ''DEBUG_POD_IMAGE'' then ''netshoot''
        else if k = ''DEBUG_POD_TOKEN'' then replicate 40 (CHR ''t'') else []),
      must_parse = (\<lambda>s. 1), parse_quantity = (\<lambda>s. Inr 1), parse_duration = (\<lambda>s. None)\<rparr>"

definition sample_inner ::
  "(nat runner, string) debugTool mcpServer \<Rightarrow> header \<Rightarrow> nat runner \<Rightarrow> (callResult \<times> nat runner) option" where
  "sample_inner m h st =
     (if ms_tools m = [] then None
      else debug_call (\<lambda>_. []) (\<lambda>_. Inr ''[]'') id (last (ms_tools m)) (Some h) ''{}'' st)"

definition token_header :: header where
  "token_header = [(''Authorization'', [''Bearer '' @ replicate 40 (CHR ''t'')]), (''X-Remote-User'', [''ann''])]"

lemma sample_debugServer:
  "\<exists>cfg. debugServer command_env ''dev'' sample_outside =
     Inr (Some (NewDebugServer ''dev'' (runner_of cfg sample_outside) (replicate 40 (CHR ''t''))))"
  by (simp add: debugServer_def ConfigFromEnv_def command_env_def read_quantity_def read_duration_def
      read_max_output_def Let_def) blast

lemma sample_inner_calls:
  "sample_inner m h st = Some (r, st') \<Longrightarrow>
   debug_calls (\<lambda>_. []) (\<lambda>_. Inr ''[]'') id (ms_tools m) (Some h) st st'"
  unfolding sample_inner_def by (rule next_call [OF no_call, of "last (ms_tools m)"]) (auto split: if_splits)

theorem only_debug_endpoint_acts_witness:
  "\<exists>s reply st'. debugServer command_env ''dev'' sample_outside = Inr (Some s) \<and>
    serveHTTP command_env (Some s) (\<lambda>_. True) ''dev'' (\<lambda>h c. Some ((), c)) sample_inner
      ''/debug/mcp'' token_header ((), New_runner) = Some (reply, (), st') \<and>
    (st' = New_runner \<or> acts_as ''ann'' New_runner st')"
proof -
  obtain cfg where d: "debugServer command_env ''dev'' sample_outside =
      Inr (Some (NewDebugServer ''dev'' (runner_of cfg sample_outside) (replicate 40 (CHR ''t''))))"
    using sample_debugServer by blast
  have u: "trim_space (header_user (Some token_header)) = ''ann''" by code_simp
  have h: "header_user (Some token_header) = ''ann''" by code_simp
  have g: "header_get token_header ''Authorization'' = ''Bearer '' @ replicate 40 (CHR ''t'')" by code_simp
  obtain cs st1 where c: "caller sample_outside ''ann'' New_runner = (Inr cs, st1)" using sample_caller by blast
  obtain r st' where i: "sample_inner (ds_mcpServer (NewDebugServer ''dev'' (runner_of cfg sample_outside) (replicate 40 (CHR ''t''))))
      token_header New_runner = Some (r, st')"
    using c h by (simp add: sample_inner_def debugTools_def debug_call_def tool_debug_pod_list_def run_list_def
        List_pods_def sample_outside_def)
  have s: "serveHTTP command_env (Some (NewDebugServer ''dev'' (runner_of cfg sample_outside) (replicate 40 (CHR ''t''))))
      (\<lambda>_. True) ''dev'' (\<lambda>h c. Some ((), c)) sample_inner ''/debug/mcp'' token_header ((), New_runner) = Some (FromDebug (Served r), (), st')"
    using i g by (simp add: serveHTTP_def debug_path_clean HTTPHandler_def)
  have "hands_calls_over (\<lambda>_. []) (\<lambda>_. Inr ''[]'') id sample_inner"
    using sample_inner_calls by (auto simp: hands_calls_over_def)
  from only_debug_endpoint_acts [OF d this s] u s d show ?thesis by auto
qed

theorem debug_path_absent_when_disabled_witness:
  "serveHTTP (command_env\<lparr>getenv := \<lambda>k. []\<rparr>) None (\<lambda>_. True) ''dev'' (\<lambda>h c. Some ((), c)) sample_inner ''/debug/mcp'' token_header
     ((), New_runner) = Some (http_Error 404 ''not found'', (), New_runner)"
proof (rule debug_path_absent_when_disabled)
  show "debugServer (command_env\<lparr>getenv := \<lambda>k. []\<rparr>) ''dev'' sample_outside = Inr None"
    by (simp add: debugServer_def ConfigFromEnv_def command_env_def read_quantity_def read_duration_def
      read_max_output_def Let_def)
qed simp

end
