(* ===== verification/Concurrent_Calls.thy ===== *)
theory Concurrent_Calls
  imports Result_Cache
begin

text \<open>
  Concurrent calls of \<open>do\<close>, \<open>src/internal/mcp/cache.go\<close>: any number of goroutines, each at one of
  the points between the operations of \<open>do\<close> that hold a lock. One step is one operation: \<open>get\<close> and
  \<open>put\<close> of \<open>Result_Cache\<close>, or what \<open>singleflight\<close> documents of \<open>group.Do\<close> - the caller becomes
  the leader of a flight where there is none for the key, or else waits for it and receives the same
  result. Which goroutine moves is not determined, and the clock may advance between steps. The
  handler behind a key is the parameter \<open>gives\<close>: what it may return at an instant.
\<close>

subsection \<open>The steps\<close>

text \<open>
  A phase has the key and the instant the call began; \<open>Finishing\<close> and \<open>Returned\<close> also the result,
  the instant it was found or stored, and \<open>Returned\<close> the instant the call was answered.
\<close>

datatype 'e phase =
    Idle
  | Asked string instant
  | Missed string instant
  | Leading string instant
  | Running string instant
  | Storing string instant string
  | Finishing string instant "('e, string) fallible" instant
  | Waiting string instant nat
  | Returned string instant "('e, string) fallible" instant instant

record 'e calls =
  ca_now :: instant
  ca_cache :: resultCache
  ca_flight :: "string \<rightharpoonup> nat"
  ca_phase :: "nat \<Rightarrow> 'e phase"
  ca_runs :: "(string \<times> ('e, string) fallible \<times> instant) list"

definition goes :: "nat \<Rightarrow> 'e phase \<Rightarrow> 'e calls \<Rightarrow> 'e calls" where
  "goes i p y = y\<lparr>ca_phase := (ca_phase y)(i := p)\<rparr>"

text \<open>The end of a flight: its leader and everybody who waits for it is answered.\<close>

definition landed :: "nat \<Rightarrow> string \<Rightarrow> ('e, string) fallible \<Rightarrow> instant \<Rightarrow> instant \<Rightarrow> 'e phase \<Rightarrow> 'e phase" where
  "landed i k r u f p =
     (case p of Waiting k' s j \<Rightarrow> if k' = k \<and> j = i then Returned k s r u f else p | _ \<Rightarrow> p)"

inductive call_step :: "(string \<Rightarrow> instant \<Rightarrow> ('e, string) fallible \<Rightarrow> bool) \<Rightarrow> 'e calls \<Rightarrow> 'e calls \<Rightarrow> bool"
  for gives where
  clock: "ca_now y \<le> t \<Longrightarrow> call_step gives y (y\<lparr>ca_now := t\<rparr>)"
| ask: "ca_phase y i = Idle \<Longrightarrow> call_step gives y (goes i (Asked k (ca_now y)) y)"
| hit: "ca_phase y i = Asked k s \<Longrightarrow> cache_get (ca_now y) k (ca_cache y) = ((v, True), c) \<Longrightarrow>
    call_step gives y (goes i (Returned k s (Inr v) (ca_now y) (ca_now y)) (y\<lparr>ca_cache := c\<rparr>))"
| miss: "ca_phase y i = Asked k s \<Longrightarrow> cache_get (ca_now y) k (ca_cache y) = ((v, False), c) \<Longrightarrow>
    call_step gives y (goes i (Missed k s) (y\<lparr>ca_cache := c\<rparr>))"
| lead: "ca_phase y i = Missed k s \<Longrightarrow> ca_flight y k = None \<Longrightarrow>
    call_step gives y (goes i (Leading k s) (y\<lparr>ca_flight := (ca_flight y)(k \<mapsto> i)\<rparr>))"
| join: "ca_phase y i = Missed k s \<Longrightarrow> ca_flight y k = Some j \<Longrightarrow> call_step gives y (goes i (Waiting k s j) y)"
| again_hit: "ca_phase y i = Leading k s \<Longrightarrow> cache_get (ca_now y) k (ca_cache y) = ((v, True), c) \<Longrightarrow>
    call_step gives y (goes i (Finishing k s (Inr v) (ca_now y)) (y\<lparr>ca_cache := c\<rparr>))"
| again_miss: "ca_phase y i = Leading k s \<Longrightarrow> cache_get (ca_now y) k (ca_cache y) = ((v, False), c) \<Longrightarrow>
    call_step gives y (goes i (Running k s) (y\<lparr>ca_cache := c\<rparr>))"
| failed: "ca_phase y i = Running k s \<Longrightarrow> gives k (ca_now y) (Inl err) \<Longrightarrow>
    call_step gives y (goes i (Finishing k s (Inl err) (ca_now y)) (y\<lparr>ca_runs := (k, Inl err, ca_now y) # ca_runs y\<rparr>))"
| succeeded: "ca_phase y i = Running k s \<Longrightarrow> gives k (ca_now y) (Inr v) \<Longrightarrow>
    call_step gives y (goes i (Storing k s v) y)"
| store: "ca_phase y i = Storing k s v \<Longrightarrow> cache_put (ca_now y) k v (ca_cache y) = Some c \<Longrightarrow>
    call_step gives y (goes i (Finishing k s (Inr v) (ca_now y))
      (y\<lparr>ca_cache := c, ca_runs := (k, Inr v, ca_now y) # ca_runs y\<rparr>))"
| land: "ca_phase y i = Finishing k s r u \<Longrightarrow>
    call_step gives y (y\<lparr>ca_flight := (ca_flight y)(k := None),
      ca_phase := (\<lambda>j. landed i k r u (ca_now y) (ca_phase y j))(i := Returned k s r u (ca_now y))\<rparr>)"

inductive call_steps :: "(string \<Rightarrow> instant \<Rightarrow> ('e, string) fallible \<Rightarrow> bool) \<Rightarrow> 'e calls \<Rightarrow> 'e calls \<Rightarrow> bool"
  for gives where
  at_rest [simp, intro]: "call_steps gives y y"
| one_more: "call_steps gives x y \<Longrightarrow> call_step gives y z \<Longrightarrow> call_steps gives x z"

definition new_calls :: "resultCache \<Rightarrow> instant \<Rightarrow> 'e calls" where
  "new_calls c t = \<lparr>ca_now = t, ca_cache = c, ca_flight = Map.empty, ca_phase = (\<lambda>_. Idle), ca_runs = []\<rparr>"

lemma goes_simps [simp]:
  "ca_phase (goes i p y) = (ca_phase y)(i := p)" "ca_now (goes i p y) = ca_now y"
  "ca_cache (goes i p y) = ca_cache y" "ca_flight (goes i p y) = ca_flight y" "ca_runs (goes i p y) = ca_runs y"
  by (simp_all add: goes_def)

lemma call_steps_trans: "call_steps gives y z \<Longrightarrow> call_steps gives x y \<Longrightarrow> call_steps gives x z"
  by (induction rule: call_steps.induct) (auto intro: one_more)

subsection \<open>The invariant\<close>

text \<open>The key a goroutine leads a flight for, and whether a result may be given: it was found or stored fresh.\<close>

fun leads :: "'e phase \<Rightarrow> string option" where
  "leads (Leading k s) = Some k"
| "leads (Running k s) = Some k"
| "leads (Storing k s v) = Some k"
| "leads (Finishing k s r u) = Some k"
| "leads _ = None"

definition good_result ::
  "duration \<Rightarrow> (string \<times> ('e, string) fallible \<times> instant) list \<Rightarrow> string \<Rightarrow> ('e, string) fallible \<Rightarrow> instant \<Rightarrow> bool" where
  "good_result ttl runs k r u \<longleftrightarrow>
     (\<exists>t. (k, r, t) \<in> set runs \<and> t \<le> u \<and> (case r of Inl _ \<Rightarrow> u = t | Inr _ \<Rightarrow> u \<le> t + ttl))"

text \<open>What is known of a goroutine from its phase.\<close>

fun phase_ok :: "duration \<Rightarrow> (string \<Rightarrow> instant \<Rightarrow> ('e, string) fallible \<Rightarrow> bool) \<Rightarrow> 'e calls \<Rightarrow> 'e phase \<Rightarrow> bool" where
  "phase_ok ttl gives y Idle = True"
| "phase_ok ttl gives y (Asked k s) = (s \<le> ca_now y)"
| "phase_ok ttl gives y (Missed k s) = (s \<le> ca_now y)"
| "phase_ok ttl gives y (Leading k s) = (s \<le> ca_now y)"
| "phase_ok ttl gives y (Running k s) = (s \<le> ca_now y)"
| "phase_ok ttl gives y (Storing k s v) = (s \<le> ca_now y \<and> (\<exists>t \<le> ca_now y. gives k t (Inr v)))"
| "phase_ok ttl gives y (Finishing k s r u) = (s \<le> u \<and> u \<le> ca_now y \<and> good_result ttl (ca_runs y) k r u)"
| "phase_ok ttl gives y (Waiting k s i) = (s \<le> ca_now y \<and> ca_flight y k = Some i)"
| "phase_ok ttl gives y (Returned k s r u f) =
     (s \<le> f \<and> u \<le> f \<and> f \<le> ca_now y \<and> good_result ttl (ca_runs y) k r u)"

definition entries_ok :: "duration \<Rightarrow> 'e calls \<Rightarrow> bool" where
  "entries_ok ttl y \<longleftrightarrow>
     (\<forall>k v e. (k, v, e) \<in> set (contents (ca_cache y)) \<longrightarrow>
        (\<exists>t \<le> ca_now y. (k, Inr v, t) \<in> set (ca_runs y) \<and> e = t + ttl))"

definition flights_ok :: "'e calls \<Rightarrow> bool" where
  "flights_ok y \<longleftrightarrow> (\<forall>i k. ca_flight y k = Some i \<longleftrightarrow> leads (ca_phase y i) = Some k)"

definition runs_ok :: "(string \<Rightarrow> instant \<Rightarrow> ('e, string) fallible \<Rightarrow> bool) \<Rightarrow> 'e calls \<Rightarrow> bool" where
  "runs_ok gives y \<longleftrightarrow> (\<forall>k r t. (k, r, t) \<in> set (ca_runs y) \<longrightarrow> (\<exists>t0 \<le> t. gives k t0 r))"

definition calls_ok :: "nat \<Rightarrow> duration \<Rightarrow> (string \<Rightarrow> instant \<Rightarrow> ('e, string) fallible \<Rightarrow> bool) \<Rightarrow> 'e calls \<Rightarrow> bool" where
  "calls_ok cap ttl gives y \<longleftrightarrow>
     cache_ok cap ttl (ca_cache y) \<and> entries_ok ttl y \<and> flights_ok y \<and>
     (\<forall>i. phase_ok ttl gives y (ca_phase y i)) \<and> runs_ok gives y"

lemma good_result_more: "good_result ttl runs k r u \<Longrightarrow> set runs \<subseteq> set runs' \<Longrightarrow> good_result ttl runs' k r u"
  by (auto simp: good_result_def)

lemma phase_ok_mono:
  assumes "phase_ok ttl gives y p" and "ca_now y \<le> ca_now z" and "set (ca_runs y) \<subseteq> set (ca_runs z)"
    and "\<And>k s i. p = Waiting k s i \<Longrightarrow> ca_flight z k = ca_flight y k"
  shows "phase_ok ttl gives z p"
  using assms by (cases p) (auto dest: order_trans intro: good_result_more)

text \<open>The two cache operations, as the invariant sees them.\<close>

lemma get_entries:
  assumes "cache_ok cap ttl c" and "cache_get t k c = (r, c')"
  shows "cache_ok cap ttl c' \<and> set (contents c') \<subseteq> set (contents c)"
  using assms cache_get_ok [of cap ttl c t k] rc.get_view [OF assms(1), of t k] set_lru_get [of t k "contents c"]
  by simp

lemma get_hit_entry:
  assumes "cache_ok cap ttl c" and "cache_get t k c = ((v, True), c')"
  shows "\<exists>e. (k, v, e) \<in> set (contents c) \<and> t \<le> e"
  using rc.hit_iff [OF assms(1), of t k v] assms(2) by (auto dest: map_of_SomeD)

lemma put_entries:
  assumes "cache_ok cap ttl c" and "cache_put t k v c = Some c'"
  shows "cache_ok cap ttl c' \<and> set (contents c') \<subseteq> insert (k, v, t + ttl) (set (contents c))"
  using rc.put_view [OF assms(1), of t k v] assms(2) set_lru_put [of cap ttl t k v "contents c"] by auto

lemma good_hit:
  assumes "calls_ok cap ttl gives y" and "cache_get (ca_now y) k (ca_cache y) = ((v, True), c)"
  shows "good_result ttl (ca_runs y) k (Inr v) (ca_now y)"
proof -
  have "cache_ok cap ttl (ca_cache y)" using assms(1) by (simp add: calls_ok_def)
  from get_hit_entry [OF this assms(2)] obtain e where
    "(k, v, e) \<in> set (contents (ca_cache y))" "ca_now y \<le> e" by blast
  with assms(1) show ?thesis by (fastforce simp: calls_ok_def entries_ok_def good_result_def)
qed

text \<open>A step that moves one goroutine and changes the cache by a \<open>get\<close>.\<close>

lemma ok_after_get:
  assumes ok: "calls_ok cap ttl gives y" and get: "cache_get (ca_now y) k (ca_cache y) = (r, c)"
    and p: "phase_ok ttl gives y p" and l: "leads p = leads (ca_phase y i)"
  shows "calls_ok cap ttl gives (goes i p (y\<lparr>ca_cache := c\<rparr>))"
proof -
  have c: "cache_ok cap ttl c" "set (contents c) \<subseteq> set (contents (ca_cache y))"
    using get_entries [OF _ get] ok by (auto simp: calls_ok_def)
  have "phase_ok ttl gives (goes i p (y\<lparr>ca_cache := c\<rparr>)) q" if "phase_ok ttl gives y q" for q
    using that by (rule phase_ok_mono) simp_all
  with ok p c l show ?thesis
    by (auto simp: calls_ok_def entries_ok_def flights_ok_def runs_ok_def)
qed

lemma ok_after_move:
  assumes ok: "calls_ok cap ttl gives y" and p: "phase_ok ttl gives y p" and l: "leads p = leads (ca_phase y i)"
  shows "calls_ok cap ttl gives (goes i p y)"
proof -
  have "phase_ok ttl gives (goes i p y) q" if "phase_ok ttl gives y q" for q
    using that by (rule phase_ok_mono) simp_all
  with ok p l show ?thesis
    by (auto simp: calls_ok_def entries_ok_def flights_ok_def runs_ok_def)
qed

lemma phase_okI: "calls_ok cap ttl gives y \<Longrightarrow> ca_phase y i = p \<Longrightarrow> phase_ok ttl gives y p"
  by (auto simp: calls_ok_def)

lemma calls_ok_step:
  assumes "call_step gives y z" and "calls_ok cap ttl gives y" and "0 \<le> ttl"
  shows "calls_ok cap ttl gives z"
  using assms(1,2)
proof (induction rule: call_step.induct)
  case (clock y t)
  then have "phase_ok ttl gives (y\<lparr>ca_now := t\<rparr>) q" if "phase_ok ttl gives y q" for q
    using that by (auto intro: phase_ok_mono)
  with clock show ?case by (fastforce simp: calls_ok_def entries_ok_def flights_ok_def runs_ok_def)
next
  case (ask y i k)
  then show ?case by (intro ok_after_move) simp_all
next
  case (hit y i k s v c)
  note g = good_hit [OF hit.prems hit.hyps(2)] and h = phase_okI [OF hit.prems hit.hyps(1)]
  show ?case using g h hit.hyps by (intro ok_after_get [OF hit.prems hit.hyps(2)]) simp_all
next
  case (miss y i k s v c)
  note h = phase_okI [OF miss.prems miss.hyps(1)]
  show ?case using h miss.hyps by (intro ok_after_get [OF miss.prems miss.hyps(2)]) simp_all
next
  case (lead y i k s)
  let ?z = "goes i (Leading k s) (y\<lparr>ca_flight := (ca_flight y)(k \<mapsto> i)\<rparr>)"
  note h = phase_okI [OF lead.prems lead.hyps(1)]
  have "phase_ok ttl gives ?z q" if "phase_ok ttl gives y q" for q
    using that lead.hyps(2) by (intro phase_ok_mono [OF that]) auto
  moreover have "leads (ca_phase y j) \<noteq> Some k" for j
    using lead by (simp add: calls_ok_def flights_ok_def flip: option.distinct(1)) (metis option.distinct(1))
  with lead have "flights_ok ?z" by (auto simp: calls_ok_def flights_ok_def)
  ultimately show ?case using lead h by (auto simp: calls_ok_def entries_ok_def runs_ok_def)
next
  case (join y i k s j)
  note h = phase_okI [OF join.prems join.hyps(1)]
  show ?case using h join.hyps by (intro ok_after_move [OF join.prems]) simp_all
next
  case (again_hit y i k s v c)
  note g = good_hit [OF again_hit.prems again_hit.hyps(2)] and h = phase_okI [OF again_hit.prems again_hit.hyps(1)]
  show ?case using g h again_hit.hyps by (intro ok_after_get [OF again_hit.prems again_hit.hyps(2)]) simp_all
next
  case (again_miss y i k s v c)
  note h = phase_okI [OF again_miss.prems again_miss.hyps(1)]
  show ?case using h again_miss.hyps by (intro ok_after_get [OF again_miss.prems again_miss.hyps(2)]) simp_all
next
  case (failed y i k s err)
  let ?y = "y\<lparr>ca_runs := (k, Inl err, ca_now y) # ca_runs y\<rparr>"
  note h = phase_okI [OF failed.prems failed.hyps(1)]
  have m: "phase_ok ttl gives ?y q" if "phase_ok ttl gives y q" for q
    using that by (rule phase_ok_mono) auto
  have "calls_ok cap ttl gives ?y"
    using failed m by (fastforce simp: calls_ok_def entries_ok_def flights_ok_def runs_ok_def)
  moreover have "phase_ok ttl gives ?y (Finishing k s (Inl err) (ca_now y))"
    using h by (auto simp: good_result_def)
  ultimately show ?case by (rule ok_after_move) (simp add: failed.hyps)
next
  case (succeeded y i k s v)
  note h = phase_okI [OF succeeded.prems succeeded.hyps(1)]
  show ?case using h succeeded.hyps by (intro ok_after_move [OF succeeded.prems]) auto
next
  case (store y i k s v c)
  let ?y = "y\<lparr>ca_cache := c, ca_runs := (k, Inr v, ca_now y) # ca_runs y\<rparr>"
  note h = phase_okI [OF store.prems store.hyps(1)]
  have m: "phase_ok ttl gives ?y q" if "phase_ok ttl gives y q" for q
    using that by (rule phase_ok_mono) auto
  have c: "cache_ok cap ttl c" "set (contents c) \<subseteq> insert (k, v, ca_now y + ttl) (set (contents (ca_cache y)))"
    using put_entries [OF _ store.hyps(2)] store.prems by (auto simp: calls_ok_def)
  then have "entries_ok ttl ?y" using store.prems by (fastforce simp: calls_ok_def entries_ok_def)
  moreover have "runs_ok gives ?y" using store.prems h by (auto simp: calls_ok_def runs_ok_def)
  ultimately have "calls_ok cap ttl gives ?y"
    using store.prems m c(1) by (auto simp: calls_ok_def flights_ok_def)
  moreover have "phase_ok ttl gives ?y (Finishing k s (Inr v) (ca_now y))"
    using h assms(3) by (auto simp: good_result_def)
  ultimately show ?case by (rule ok_after_move) (simp add: store.hyps)
next
  case (land y i k s r u)
  let ?z = "y\<lparr>ca_flight := (ca_flight y)(k := None),
    ca_phase := (\<lambda>j. landed i k r u (ca_now y) (ca_phase y j))(i := Returned k s r u (ca_now y))\<rparr>"
  note h = phase_okI [OF land.prems land.hyps]
  have f: "ca_flight y k = Some i" using land by (auto simp: calls_ok_def flights_ok_def)
  have "phase_ok ttl gives ?z (landed i k r u (ca_now y) q)" if "phase_ok ttl gives y q" for q
    using that h f by (cases q) (auto simp: landed_def)
  moreover have "leads (landed i k r u t q) = leads q" for t q by (cases q) (auto simp: landed_def)
  moreover have "leads (ca_phase y j) = Some k \<Longrightarrow> j = i" for j
    using land.prems f by (simp add: calls_ok_def flights_ok_def) (metis option.inject)
  ultimately show ?case
    using land h f by (auto simp: calls_ok_def entries_ok_def flights_ok_def runs_ok_def)
qed

lemma calls_ok_steps: "call_steps gives y z \<Longrightarrow> calls_ok cap ttl gives y \<Longrightarrow> 0 \<le> ttl \<Longrightarrow> calls_ok cap ttl gives z"
  by (induction rule: call_steps.induct) (auto intro: calls_ok_step)

lemma calls_ok_new: "calls_ok cap ttl gives (new_calls (newResultCache ttl (int cap)) t)"
proof -
  have "contents (newResultCache ttl (int cap)) = []" by (simp add: contents_def newResultCache_def)
  then show ?thesis
    using cache_ok_new [of cap ttl] by (simp add: calls_ok_def new_calls_def entries_ok_def flights_ok_def runs_ok_def)
qed

subsection \<open>Every call can be answered\<close>

text \<open>
  A call that leads a flight can be driven to its end, whatever the other goroutines do meanwhile,
  where its handler returns; with it everybody who waits for the flight is answered.
\<close>

definition answered :: "string \<Rightarrow> 'e phase \<Rightarrow> bool" where
  "answered k p \<longleftrightarrow> (case p of Returned k' s r u f \<Rightarrow> k' = k | _ \<Rightarrow> False)"

fun phase_key :: "'e phase \<Rightarrow> string option" where
  "phase_key Idle = None"
| "phase_key (Asked k s) = Some k"
| "phase_key (Missed k s) = Some k"
| "phase_key (Leading k s) = Some k"
| "phase_key (Running k s) = Some k"
| "phase_key (Storing k s v) = Some k"
| "phase_key (Finishing k s r u) = Some k"
| "phase_key (Waiting k s i) = Some k"
| "phase_key (Returned k s r u f) = Some k"

definition flight_ends :: "nat \<Rightarrow> string \<Rightarrow> 'e calls \<Rightarrow> 'e calls \<Rightarrow> bool" where
  "flight_ends i k y z \<longleftrightarrow>
     answered k (ca_phase z i) \<and> ca_flight z k = None \<and>
     (\<forall>j s. ca_phase y j = Waiting k s i \<longrightarrow> answered k (ca_phase z j))"

lemma finishing_ends:
  assumes "ca_phase y i = Finishing k s r u"
  shows "\<exists>z. call_steps gives y z \<and> flight_ends i k y z"
proof (intro exI conjI)
  show "call_steps gives y (y\<lparr>ca_flight := (ca_flight y)(k := None),
      ca_phase := (\<lambda>j. landed i k r u (ca_now y) (ca_phase y j))(i := Returned k s r u (ca_now y))\<rparr>)"
    by (rule one_more [OF at_rest land]) (rule assms)
qed (auto simp: flight_ends_def answered_def landed_def)

lemma flight_ends_later:
  assumes "call_steps gives y x" and "\<exists>z. call_steps gives x z \<and> flight_ends i k x z"
    and "\<And>j s. ca_phase y j = Waiting k s i \<Longrightarrow> ca_phase x j = Waiting k s i"
  shows "\<exists>z. call_steps gives y z \<and> flight_ends i k y z"
  using assms call_steps_trans unfolding flight_ends_def by blast

lemma storing_ends:
  assumes "calls_ok cap ttl gives y" and "ca_phase y i = Storing k s v"
  shows "\<exists>z. call_steps gives y z \<and> flight_ends i k y z"
proof -
  have "cache_ok cap ttl (ca_cache y)" using assms(1) by (simp add: calls_ok_def)
  then obtain c where "cache_put (ca_now y) k v (ca_cache y) = Some c" using rc.put_view by blast
  note st = store [OF assms(2) this]
  show ?thesis
    by (rule flight_ends_later [OF one_more [OF at_rest st]]) (use assms(2) in \<open>auto intro!: finishing_ends\<close>)
qed

lemma running_ends:
  assumes "calls_ok cap ttl gives y" and "0 \<le> ttl" and "ca_phase y i = Running k s" and "\<exists>r. gives k (ca_now y) r"
  shows "\<exists>z. call_steps gives y z \<and> flight_ends i k y z"
proof -
  from assms(4) consider err where "gives k (ca_now y) (Inl err)" | v where "gives k (ca_now y) (Inr v)"
    by (metis sum.exhaust)
  then show ?thesis
  proof cases
    case 1
    note st = failed [where gives = gives and y = y and i = i, OF assms(3) this]
    show ?thesis
      by (rule flight_ends_later [OF one_more [OF at_rest st]]) (use assms(3) in \<open>auto intro!: finishing_ends\<close>)
  next
    case 2
    note st = succeeded [where gives = gives and y = y and i = i, OF assms(3) this]
    show ?thesis
      by (rule flight_ends_later [OF one_more [OF at_rest st]])
        (use assms(3) calls_ok_step [OF st assms(1,2)] in \<open>auto intro!: storing_ends\<close>)
  qed
qed

lemma leading_ends:
  assumes "calls_ok cap ttl gives y" and "0 \<le> ttl" and "leads (ca_phase y i) = Some k" and "\<exists>r. gives k (ca_now y) r"
  shows "\<exists>z. call_steps gives y z \<and> flight_ends i k y z"
proof (cases "ca_phase y i")
  case (Leading k' s)
  with assms(3) have p: "ca_phase y i = Leading k s" by simp
  obtain v b c where g: "cache_get (ca_now y) k (ca_cache y) = ((v, b), c)" by (metis prod.exhaust)
  then consider "cache_get (ca_now y) k (ca_cache y) = ((v, True), c)"
    | "cache_get (ca_now y) k (ca_cache y) = ((v, False), c)" by (cases b) simp_all
  then show ?thesis
  proof cases
    case 1
    note st = again_hit [where gives = gives and y = y and i = i, OF p 1]
    show ?thesis
      by (rule flight_ends_later [OF one_more [OF at_rest st]]) (use p in \<open>auto intro!: finishing_ends\<close>)
  next
    case 2
    note st = again_miss [where gives = gives and y = y and i = i, OF p 2]
    show ?thesis
      by (rule flight_ends_later [OF one_more [OF at_rest st]])
        (use p assms(4) calls_ok_step [OF st assms(1,2)] assms(2) in \<open>auto intro!: running_ends\<close>)
  qed
next
  case (Running k' s)
  with assms show ?thesis by (auto intro!: running_ends)
next
  case (Storing k' s v)
  with assms show ?thesis by (auto intro!: storing_ends)
next
  case (Finishing k' s r u)
  with assms show ?thesis by (auto intro!: finishing_ends)
qed (use assms(3) in simp_all)

lemma step_first: "call_step gives x y \<Longrightarrow> call_steps gives y z \<Longrightarrow> call_steps gives x z"
  using call_steps_trans one_more [OF at_rest] by blast

lemma missed_answered:
  assumes "calls_ok cap ttl gives y" and "0 \<le> ttl" and "ca_phase y i = Missed k s" and "\<exists>r. gives k (ca_now y) r"
  shows "\<exists>z. call_steps gives y z \<and> answered k (ca_phase z i)"
proof (cases "ca_flight y k")
  case None
  note st = lead [where gives = gives and y = y and i = i, OF assms(3) None]
  from leading_ends [OF calls_ok_step [OF st assms(1,2)] assms(2), of i k] assms(4)
  show ?thesis by (auto simp: flight_ends_def intro: step_first [OF st])
next
  case (Some j)
  note st = join [where gives = gives and y = y and i = i, OF assms(3) Some]
  have "leads (ca_phase y j) = Some k" using assms(1) Some by (simp add: calls_ok_def flights_ok_def)
  moreover from this assms(3) have "j \<noteq> i" by auto
  ultimately show ?thesis
    using leading_ends [OF calls_ok_step [OF st assms(1,2)] assms(2), of j k] assms(4)
    by (auto simp: flight_ends_def intro: step_first [OF st])
qed

lemma call_answered:
  assumes "calls_ok cap ttl gives y" and "0 \<le> ttl" and "phase_key (ca_phase y i) = Some k"
    and "\<exists>r. gives k (ca_now y) r"
  shows "\<exists>z. call_steps gives y z \<and> answered k (ca_phase z i)"
proof (cases "ca_phase y i")
  case (Asked k' s)
  with assms(3) have p: "ca_phase y i = Asked k s" by simp
  obtain v b c where g: "cache_get (ca_now y) k (ca_cache y) = ((v, b), c)" by (metis prod.exhaust)
  show ?thesis
  proof (cases b)
    case True
    note st = hit [where gives = gives and y = y and i = i, OF p g [simplified True]]
    show ?thesis by (rule exI [of _ "goes i (Returned k s (Inr v) (ca_now y) (ca_now y)) (y\<lparr>ca_cache := c\<rparr>)"])
        (simp add: answered_def one_more [OF at_rest st])
  next
    case False
    note st = miss [where gives = gives and y = y and i = i, OF p g [simplified False]]
    from missed_answered [OF calls_ok_step [OF st assms(1,2)] assms(2), of i k s] assms(4)
    show ?thesis by (auto intro: step_first [OF st])
  qed
next
  case (Missed k' s)
  with assms show ?thesis by (auto intro: missed_answered)
next
  case (Waiting k' s j)
  with assms(3) have p: "ca_phase y i = Waiting k s j" by simp
  then have "leads (ca_phase y j) = Some k"
    using phase_okI [OF assms(1) p] assms(1) by (simp add: calls_ok_def flights_ok_def)
  with leading_ends [OF assms(1,2) this assms(4)] p show ?thesis by (auto simp: flight_ends_def)
next
  case (Returned k' s r u f)
  with assms(3) show ?thesis by (intro exI [of _ y]) (simp add: answered_def)
qed (use assms leading_ends [OF assms(1,2), of i k] in \<open>auto simp: flight_ends_def\<close>)

subsection \<open>A call by itself\<close>

text \<open>
  Where nobody else moves, the steps of one call are exactly \<open>cache_do\<close> of \<open>Result_Cache\<close>: same
  cache, same result.
\<close>

lemma landing:
  assumes "call_steps gives y x" and "ca_cache x = c'" and "ca_phase x i = Finishing k s r u"
  shows "\<exists>z u. call_steps gives y z \<and> ca_cache z = c' \<and> ca_phase z i = Returned k s r u (ca_now z)"
  using assms(2)
  by (intro exI conjI) (rule one_more [OF assms(1) land], rule assms(3), simp_all)

lemma do_is_a_run:
  assumes "runs_directly group_Do" and "cache_do group_Do t1 t2 t3 k fn (ca_cache y, w) = Some (res, c', w')"
    and "ca_now y \<le> t1" "t1 \<le> t2" "t2 \<le> t3" and "ca_phase y i = Idle" and "ca_flight y k = None"
    and "gives k t3 (fst (fn w))"
  shows "\<exists>z u. call_steps gives y z \<and> ca_cache z = c' \<and> ca_phase z i = Returned k t1 res u (ca_now z)"
proof -
  let ?y1 = "goes i (Asked k t1) (y\<lparr>ca_now := t1\<rparr>)"
  have y1: "call_steps gives y ?y1"
    using ask [of "y\<lparr>ca_now := t1\<rparr>" i gives k] assms(6) by (auto intro!: one_more [OF one_more [OF at_rest clock [OF assms(3)]]])
  have run: "group_Do k f st = f st" for f st using assms(1) unfolding runs_directly_def by blast
  obtain v b c1 where g1: "cache_get t1 k (ca_cache y) = ((v, b), c1)" by (metis prod.exhaust)
  show ?thesis
  proof (cases b)
    case True
    have st: "call_step gives ?y1 (goes i (Returned k t1 (Inr v) t1 t1) (?y1\<lparr>ca_cache := c1\<rparr>))"
      using hit [of ?y1 i k t1 v c1 gives] g1 True by simp
    from assms(2) g1 True have "res = Inr v" "c' = c1" by (simp_all add: cache_do_def)
    then show ?thesis
      by (intro exI conjI) (rule one_more [OF y1 st], simp_all)
  next
    case False
    let ?ym = "goes i (Missed k t1) (?y1\<lparr>ca_cache := c1\<rparr>)"
    let ?yl = "goes i (Leading k t1) (?ym\<lparr>ca_flight := (ca_flight y)(k \<mapsto> i)\<rparr>)"
    let ?y2 = "?yl\<lparr>ca_now := t2\<rparr>"
    have "call_step gives ?y1 ?ym" using miss [of ?y1 i k t1 v c1 gives] g1 False by simp
    moreover have "call_step gives ?ym ?yl" using lead [of ?ym i k t1 gives] assms(7) by simp
    moreover have "call_step gives ?yl ?y2" using clock [of ?yl t2 gives] assms(4) by simp
    ultimately have y2: "call_steps gives y ?y2" using y1 by (blast intro: one_more)
    obtain v2 b2 c2 where g2: "cache_get t2 k c1 = ((v2, b2), c2)" by (metis prod.exhaust)
    show ?thesis
    proof (cases b2)
      case True
      have st: "call_step gives ?y2 (goes i (Finishing k t1 (Inr v2) t2) (?y2\<lparr>ca_cache := c2\<rparr>))"
        using again_hit [of ?y2 i k t1 v2 c2 gives] g2 True by simp
      have "res = Inr v2" "c' = c2" using assms(2) g1 False g2 True by (simp_all add: cache_do_def run)
      then show ?thesis using landing [OF one_more [OF y2 st], of c2 i k t1 "Inr v2" t2] by simp
    next
      case b2: False
      let ?yr = "goes i (Running k t1) (?y2\<lparr>ca_cache := c2\<rparr>)"
      let ?y3 = "?yr\<lparr>ca_now := t3\<rparr>"
      have "call_step gives ?y2 ?yr" using again_miss [of ?y2 i k t1 v2 c2 gives] g2 b2 by simp
      moreover have "call_step gives ?yr ?y3" using clock [of ?yr t3 gives] assms(5) by simp
      ultimately have y3: "call_steps gives y ?y3" using y2 by (blast intro: one_more)
      show ?thesis
      proof (cases "fst (fn w)")
        case (Inl err)
        have st: "call_step gives ?y3 (goes i (Finishing k t1 (Inl err) t3) (?y3\<lparr>ca_runs := (k, Inl err, t3) # ca_runs ?y3\<rparr>))"
          using failed [of ?y3 i k t1 gives err] assms(8) Inl by simp
        have "res = Inl err" "c' = c2"
          using assms(2) g1 False g2 b2 Inl by (cases "fn w"; simp add: cache_do_def run)+
        then show ?thesis using landing [OF one_more [OF y3 st], of c2 i k t1 "Inl err" t3] by simp
      next
        case (Inr v3)
        let ?ys = "goes i (Storing k t1 v3) ?y3"
        have "call_step gives ?y3 ?ys" using succeeded [of ?y3 i k t1 gives v3] assms(8) Inr by simp
        with y3 have ys: "call_steps gives y ?ys" by (rule one_more)
        obtain c3 where c3: "cache_put t3 k v3 c2 = Some c3" "res = Inr v3" "c' = c3"
          using assms(2) g1 False g2 b2 Inr by (cases "fn w") (auto simp: cache_do_def run)
        then have st: "call_step gives ?ys (goes i (Finishing k t1 (Inr v3) t3)
            (?ys\<lparr>ca_cache := c3, ca_runs := (k, Inr v3, t3) # ca_runs ?ys\<rparr>))"
          using store [of ?ys i k t1 v3 c3 gives] by simp
        with c3 landing [OF one_more [OF ys st], of c3 i k t1 "Inr v3" t3] show ?thesis by simp
      qed
    qed
  qed
qed

subsection \<open>Properties\<close>

text \<open>
  C13. Identical calls are collapsed, for any number of goroutines in any interleaving: at most one of
  them executes the handler of a key, whoever waits waits for exactly that one (no wait is for a
  flight that is gone), and the cache stays consistent and within its bound.
\<close>

theorem one_flight_per_key:
  assumes "call_steps gives (new_calls (newResultCache ttl (int cap)) t0) y" and "0 \<le> ttl"
  shows "(\<forall>i j k. leads (ca_phase y i) = Some k \<and> leads (ca_phase y j) = Some k \<longrightarrow> i = j) \<and>
    (\<forall>i j k s. ca_phase y i = Waiting k s j \<longrightarrow> leads (ca_phase y j) = Some k) \<and>
    wf_cache (ca_cache y) \<and> length (rc_order (ca_cache y)) \<le> cap"
proof -
  have ok: "calls_ok cap ttl gives y" using calls_ok_steps [OF assms(1) calls_ok_new assms(2)] .
  then have f: "ca_flight y k = Some i \<longleftrightarrow> leads (ca_phase y i) = Some k" for i k
    by (simp add: calls_ok_def flights_ok_def)
  have "i = j" if "leads (ca_phase y i) = Some k" "leads (ca_phase y j) = Some k" for i j k
    using that unfolding f [symmetric] by simp
  moreover have "leads (ca_phase y j) = Some k" if "ca_phase y i = Waiting k s j" for i j k s
    using phase_okI [OF ok that] f by simp
  ultimately show ?thesis using ok by (auto simp: calls_ok_def cache_ok_def)
qed

text \<open>
  C22. A call can only be held up by the handler of its own key: whatever calls are under way and however they got
  there, the goroutine of a call that has begun can be brought to its answer wherever that handler may still return, now or
  later. No lock, no flight that is gone and no call of another key, whose handler may hang, is in its way; behind a
  handler that never returns its callers do wait for ever.
\<close>

theorem every_call_can_return:
  assumes "call_steps gives (new_calls (newResultCache ttl (int cap)) t0) y" and "0 \<le> ttl"
    and "phase_key (ca_phase y i) = Some k" and "ca_now y \<le> t" and "gives k t r"
  shows "\<exists>z s r u f. call_steps gives y z \<and> ca_phase z i = Returned k s r u f"
proof -
  let ?y = "y\<lparr>ca_now := t\<rparr>"
  have later: "call_steps gives y ?y" using one_more [OF at_rest clock [OF assms(4)]] .
  have "calls_ok cap ttl gives ?y"
    using calls_ok_steps [OF call_steps_trans [OF later assms(1)] calls_ok_new assms(2)] .
  then obtain z where z: "call_steps gives ?y z" "answered k (ca_phase z i)"
    using call_answered [OF _ assms(2), of cap gives ?y i k] assms(3,5) by auto
  from call_steps_trans [OF z(1) later] z(2) show ?thesis by (cases "ca_phase z i") (auto simp: answered_def)
qed

text \<open>What an answer is: the result of a run of the handler of its key, found fresh.\<close>

lemma answers_fresh:
  assumes "call_steps gives (new_calls (newResultCache ttl (int cap)) t0) y" and "0 \<le> ttl"
    and "ca_phase y i = Returned k s r u f"
  shows "s \<le> f \<and> u \<le> f \<and>
    (\<exists>g t. gives k g r \<and> g \<le> t \<and> t \<le> u \<and> (case r of Inl _ \<Rightarrow> u = t | Inr _ \<Rightarrow> u \<le> t + ttl))"
proof -
  have ok: "calls_ok cap ttl gives y" using calls_ok_steps [OF assms(1) calls_ok_new assms(2)] .
  from phase_okI [OF this assms(3)] obtain t where t: "s \<le> f" "u \<le> f" "(k, r, t) \<in> set (ca_runs y)" "t \<le> u"
    "case r of Inl _ \<Rightarrow> u = t | Inr _ \<Rightarrow> u \<le> t + ttl" by (auto simp: good_result_def)
  moreover have "runs_ok gives y" using ok by (simp add: calls_ok_def)
  ultimately obtain g where "g \<le> t" "gives k g r" unfolding runs_ok_def by blast
  with t show ?thesis by blast
qed

subsection \<open>Two calls at once\<close>

text \<open>
  The first goroutine leads, the second waits for it; the handler of their key returns from instant 7 on, that of
  any other key never does.
\<close>

definition late_gives :: "string \<Rightarrow> instant \<Rightarrow> (unit, string) fallible \<Rightarrow> bool" where
  "late_gives k t r \<longleftrightarrow> k = ''k'' \<and> 7 \<le> t \<and> r = Inr ''ok''"

definition two_calls :: "unit calls" where
  "two_calls =
     (new_calls (newResultCache 5 2) 0)\<lparr>ca_flight := [''k'' \<mapsto> 0],
        ca_phase := (\<lambda>_. Idle)(0 := Leading ''k'' 0, 1 := Waiting ''k'' 0 0)\<rparr>"

lemma two_calls_reached: "call_steps late_gives (new_calls (newResultCache 5 (int 2)) 0) two_calls"
proof -
  let ?c = "newResultCache 5 2"
  let ?n = "new_calls ?c 0 :: unit calls"
  have g: "cache_get 0 ''k'' ?c = (([], False), ?c)" by (simp add: cache_get_def newResultCache_def)
  let ?a = "goes 0 (Asked ''k'' 0) ?n"
  let ?b = "goes 0 (Missed ''k'' 0) (?a\<lparr>ca_cache := ?c\<rparr>)"
  let ?d = "goes 0 (Leading ''k'' 0) (?b\<lparr>ca_flight := (ca_flight ?b)(''k'' \<mapsto> 0)\<rparr>)"
  let ?e = "goes 1 (Asked ''k'' 0) ?d"
  let ?f = "goes 1 (Missed ''k'' 0) (?e\<lparr>ca_cache := ?c\<rparr>)"
  have 1: "call_step late_gives ?n ?a" using ask [of ?n 0 late_gives "''k''"] by (simp add: new_calls_def)
  have 2: "call_step late_gives ?a ?b" using miss [of ?a 0 "''k''" 0 "[]" ?c] g by (simp add: new_calls_def)
  have 3: "call_step late_gives ?b ?d" using lead [of ?b 0 "''k''" 0] by (simp add: new_calls_def)
  have 4: "call_step late_gives ?d ?e" using ask [of ?d 1 late_gives "''k''"] by (simp add: new_calls_def)
  have 5: "call_step late_gives ?e ?f" using miss [of ?e 1 "''k''" 0 "[]" ?c] g by (simp add: new_calls_def)
  have 6: "call_step late_gives ?f (goes 1 (Waiting ''k'' 0 0) ?f)"
    using join [of ?f 1 "''k''" 0 0] by simp
  have "goes 1 (Waiting ''k'' 0 0) ?f = two_calls"
    by (simp add: two_calls_def goes_def new_calls_def fun_eq_iff)
  with one_more [OF one_more [OF one_more [OF one_more [OF one_more [OF one_more [OF at_rest 1] 2] 3] 4] 5] 6]
  show ?thesis by simp
qed

theorem one_flight_per_key_witness:
  "leads (ca_phase two_calls 0) = Some ''k'' \<and> ca_phase two_calls 1 = Waiting ''k'' 0 0 \<and>
   length (rc_order (ca_cache two_calls)) \<le> 2"
  using one_flight_per_key [OF two_calls_reached] by (simp add: two_calls_def)

theorem every_call_can_return_witness:
  "\<exists>z s r u f. call_steps late_gives two_calls z \<and> ca_phase z 1 = Returned ''k'' s r u f"
  by (rule every_call_can_return [OF two_calls_reached, where t = 7]) (simp_all add: two_calls_def new_calls_def late_gives_def)

end
