(* ===== verification/Concurrent_Server.thy ===== *)
theory Concurrent_Server
  imports Mcp_Server Concurrent_Calls
begin

text \<open>
  The tool server under concurrent requests: the steps of \<open>Concurrent_Calls\<close> with the tools of the
  catalogue behind the cache keys. The cluster at an instant is the parameter \<open>cluster_at\<close>; a handler
  that returns at an instant has seen the cluster of that instant. A handler that does not return is a
  goroutine that stays in its phase.
\<close>

text \<open>What the handler of a key may return: the rendered result of a tool of the catalogue.\<close>

definition tool_gives ::
  "(string \<Rightarrow> args) \<Rightarrow> (answer \<Rightarrow> ('e, string) fallible) \<Rightarrow> (instant \<Rightarrow> ('e, 'sel, 'asel) cluster) \<Rightarrow>
   string \<Rightarrow> instant \<Rightarrow> ('e goerr, string) fallible \<Rightarrow> bool" where
  "tool_gives decode marshal cluster_at k t r \<longleftrightarrow>
     (\<exists>q. rq_tool q < 21 \<and> call_key (cluster_at t, q) = k \<and> rendered decode marshal (cluster_at t, q) = Some r)"

lemma rendered_same:
  assumes "rq_tool q = rq_tool q'" and "rq_raw q = rq_raw q'"
  shows "rendered decode marshal (c, q) = rendered decode marshal (c, q')"
  using assms by (simp add: rendered_def called_def)

text \<open>
  C9. Under any interleaving of any number of requests, an answer is right and fresh: it is what the
  very tool and arguments of the request gave on the cluster at some instant; a text was no more than
  five seconds old when the flight that gives it looked at it, and that flight ended no earlier than
  the request began; an error is never kept, it is the one the flight met.
\<close>

theorem concurrent_answers_fresh:
  assumes "call_steps (tool_gives decode marshal cluster_at) (new_calls NewServerCache t0) y"
    and "ca_phase y i = Returned (call_key (c, q)) s r u f" and "rq_tool q < 21"
  shows "s \<le> f \<and> u \<le> f \<and>
    (\<exists>g t. rendered decode marshal (cluster_at g, q) = Some r \<and> g \<le> t \<and> t \<le> u \<and>
      (case r of Inl _ \<Rightarrow> u = t | Inr _ \<Rightarrow> u \<le> t + 5 * second))"
proof -
  have new: "new_calls NewServerCache t0 = new_calls (newResultCache (5 * second) (int 512)) t0"
    by (simp add: NewServerCache_def)
  have "0 \<le> 5 * second" by (simp add: second_def)
  from answers_fresh [OF assms(1) [unfolded new] this assms(2)] obtain g t where a: "s \<le> f" "u \<le> f"
    "tool_gives decode marshal cluster_at (call_key (c, q)) g r" "g \<le> t" "t \<le> u"
    "case r of Inl _ \<Rightarrow> u = t | Inr _ \<Rightarrow> u \<le> t + 5 * second" by blast
  from a(3) obtain q' where q': "rq_tool q' < 21" "call_key (cluster_at g, q') = call_key (c, q)"
    "rendered decode marshal (cluster_at g, q') = Some r" by (auto simp: tool_gives_def)
  from same_tool [OF q'(1) assms(3) q'(2)] q'(3) have "rendered decode marshal (cluster_at g, q) = Some r"
    using rendered_same by metis
  with a show ?thesis by blast
qed

definition first_cluster :: "instant \<Rightarrow> (string, string, labels option) cluster" where
  "first_cluster t = hidden_cluster ''one''"

theorem concurrent_answers_fresh_witness:
  "\<exists>y r u f. call_steps (tool_gives (\<lambda>_. read_request) render first_cluster) (new_calls NewServerCache 0) y \<and>
     ca_phase y 0 = Returned (call_key (hidden_cluster ''one'', call_at 0)) 0 r u f \<and>
     (\<exists>g. rendered (\<lambda>_. read_request) render (first_cluster g, call_at 0) = Some r)"
proof -
  let ?n = "new_calls NewServerCache 0 :: string goerr calls"
  let ?q = "call_at 0" and ?k = "call_key (hidden_cluster ''one'', call_at 0)"
  obtain res where r: "rendered (\<lambda>_. read_request) render (hidden_cluster ''one'', ?q) = Some res"
    using rendered_get_resource by blast
  have new: "?n = new_calls (newResultCache (5 * second) (int 512)) 0" by (simp add: NewServerCache_def)
  have ok: "cache_ok 512 (5 * second) (ca_cache ?n)"
    using cache_ok_new [of 512 "5 * second"] by (simp add: new_calls_def NewServerCache_def)
  have empty: "expired_or_absent 0 ?k (ca_cache ?n)"
    by (simp add: expired_or_absent_def contents_def new_calls_def NewServerCache_def newResultCache_def)
  have direct: "runs_directly (\<lambda>k f s. f s)" by (simp add: runs_directly_def)
  have "\<exists>c. cache_do (\<lambda>k f s. f s) 0 0 0 ?k (\<lambda>n::nat. (res, n)) (ca_cache ?n, 0) = Some (res, c, 0)"
  proof (cases res)
    case (Inl err)
    from cache_do_miss(1) [OF direct ok empty, where fn = "\<lambda>n::nat. (res, n)" and w = 0 and w' = 0 and err = err] Inl
    show ?thesis by blast
  next
    case (Inr out)
    from cache_do_miss(2) [OF direct ok empty, where fn = "\<lambda>n::nat. (res, n)" and w = 0 and w' = 0 and out = out] Inr
    show ?thesis by blast
  qed
  then obtain c where c: "cache_do (\<lambda>k f s. f s) 0 0 0 ?k (\<lambda>n::nat. (res, n)) (ca_cache ?n, 0) = Some (res, c, 0)" by blast
  have "tool_gives (\<lambda>_. read_request) render first_cluster ?k 0 res"
    unfolding tool_gives_def first_cluster_def using r by (intro exI [of _ ?q]) (simp add: call_at_def)
  then obtain y u where y: "call_steps (tool_gives (\<lambda>_. read_request) render first_cluster) ?n y"
    "ca_phase y 0 = Returned ?k 0 res u (ca_now y)"
    using do_is_a_run [OF _ c, of 0 "tool_gives (\<lambda>_. read_request) render first_cluster"]
    by (auto simp: runs_directly_def new_calls_def)
  from concurrent_answers_fresh [OF y] have "\<exists>g. rendered (\<lambda>_. read_request) render (first_cluster g, ?q) = Some res"
    by (auto simp: call_at_def)
  with y show ?thesis by blast
qed

end
