(* ===== verification/Process.thy ===== *)
theory Process
  imports Command K8s_Client
begin

text \<open>
  The process, \<open>main\<close> and \<open>runHTTP\<close> of \<open>src/cmd/openshift-mcp/main.go\<close>: what the command starts, and the life
  of the HTTP server from its first request to the exit of the process. The flag package, logging and
  the sockets are not modelled; what \<open>net/http\<close> documents of \<open>ListenAndServe\<close>, \<open>Shutdown\<close> and \<open>Close\<close> is:
  \<open>Shutdown\<close> makes \<open>ListenAndServe\<close> return at once and itself waits for the open requests, \<open>Close\<close> drops the
  connections, and \<open>ListenAndServe\<close> never returns without an error. Requests are served side by side: each makes
  its requests to the cluster one at a time, at steps of its own, so that those of several are interleaved in any
  way and one that is cut off by the exit has done a part of its work.
\<close>

subsection \<open>Start\<close>

record flags =
  fl_mcp :: bool
  fl_http_addr :: string

definition default_flags :: flags where
  "default_flags = \<lparr>fl_mcp = False, fl_http_addr = '':8080''\<rparr>"

record httpServer =
  hs_Addr :: string
  hs_ReadHeaderTimeout :: duration
  hs_IdleTimeout :: duration
  hs_MaxHeaderBytes :: int

definition http_server :: "string \<Rightarrow> httpServer" where
  "http_server addr =
     \<lparr>hs_Addr = addr, hs_ReadHeaderTimeout = 5 * second, hs_IdleTimeout = 120 * second,
      hs_MaxHeaderBytes = push_bit 20 1\<rparr>"

text \<open>
  What \<open>main\<close> does with its flags and its environment: it exits, or serves the tools of a client over
  stdin and stdout, or over HTTP with the debug endpoint or without it.
\<close>

datatype ('c, 'd) startup = ExitNow int | Stdio 'c | Http 'c 'd httpServer

definition main_start ::
  "('e, 'r, 'cs, 'dyn) client_library \<Rightarrow> k8s_env \<Rightarrow> ('e, 'q) config_env \<Rightarrow> string \<Rightarrow>
   (('r, 'cs, 'dyn) client \<Rightarrow> ('e, 'q) outside) \<Rightarrow> flags \<Rightarrow>
   (('r, 'cs, 'dyn) client, ('q runner, 'e) DebugServer option) startup" where
  "main_start lib kenv env ver reach fl =
     (case New_client lib kenv (Some (K8s_ConfigFromEnv kenv)) of
        Inl err \<Rightarrow> ExitNow 1
      | Inr c \<Rightarrow>
          if fl_mcp fl then Stdio c
          else (case debugServer env ver (reach c) of
            Inl errs \<Rightarrow> ExitNow 1
          | Inr dbg \<Rightarrow> Http c dbg (http_server (fl_http_addr fl))))"

text \<open>
  The exit code after a server returned, with the error it returned, if any, and whether the process had been
  asked to stop.
\<close>

definition exit_code :: "'err option \<Rightarrow> bool \<Rightarrow> int" where
  "exit_code err cancelled = (if err \<noteq> None \<and> \<not> cancelled then 1 else 0)"

subsection \<open>The life of the HTTP server\<close>

datatype listenError = ServerClosed | ListenFailed

type_synonym web_request = "string \<times> header"

text \<open>
  A request of the server is not looked at yet, or it is under way: what it still asks the cluster for,
  and what it answers after that.
\<close>

datatype ('a, 'p) work = Waiting | Working "'a list" 'p

record ('a, 'p) process =
  p_cancelled :: bool
  p_shutdown :: bool
  p_closed :: bool
  p_listen :: "listenError option"
  p_open :: "(web_request \<times> ('a, 'p) work) list"
  p_answered :: "(web_request \<times> 'p) list"
  p_lost :: "web_request list"
  p_calls :: "'a list"
  p_exit :: "int option"

definition new_process :: "'a list \<Rightarrow> ('a, 'p) process" where
  "new_process calls =
     \<lparr>p_cancelled = False, p_shutdown = False, p_closed = False, p_listen = None, p_open = [], p_answered = [],
      p_lost = [], p_calls = calls, p_exit = None\<rparr>"

text \<open>
  A step: a request arrives, its handler starts, makes the next of its requests to the cluster, or answers (the
  reply is lost once the connections were closed), the process gets a signal, the goroutine that waits for
  the signal calls \<open>Shutdown\<close>, \<open>Shutdown\<close> runs into its ten seconds and \<open>Close\<close> is called, the listener
  fails, or \<open>ListenAndServe\<close> has returned and so does \<open>main\<close>, which ends whatever is open, as far as it got.
  \<open>behaves rq calls reply\<close> tells that serving \<open>rq\<close> may make these requests, in this order, and then answer this.
\<close>

inductive process_step ::
  "(web_request \<Rightarrow> 'a list \<Rightarrow> 'p \<Rightarrow> bool) \<Rightarrow> ('a, 'p) process \<Rightarrow> ('a, 'p) process \<Rightarrow> bool" for behaves where
  arrives: "p_exit p = None \<Longrightarrow> p_listen p = None \<Longrightarrow>
    process_step behaves p (p\<lparr>p_open := p_open p @ [(rq, Waiting)]\<rparr>)"
| starts: "p_exit p = None \<Longrightarrow> p_open p = before @ (rq, Waiting) # after \<Longrightarrow> behaves rq calls reply \<Longrightarrow>
    process_step behaves p (p\<lparr>p_open := before @ (rq, Working calls reply) # after\<rparr>)"
| works: "p_exit p = None \<Longrightarrow> p_open p = before @ (rq, Working (call # calls) reply) # after \<Longrightarrow>
    process_step behaves p (p\<lparr>p_open := before @ (rq, Working calls reply) # after, p_calls := p_calls p @ [call]\<rparr>)"
| answers: "p_exit p = None \<Longrightarrow> p_open p = before @ (rq, Working [] reply) # after \<Longrightarrow> \<not> p_closed p \<Longrightarrow>
    process_step behaves p (p\<lparr>p_open := before @ after, p_answered := p_answered p @ [(rq, reply)]\<rparr>)"
| answers_nobody: "p_exit p = None \<Longrightarrow> p_open p = before @ (rq, Working [] reply) # after \<Longrightarrow> p_closed p \<Longrightarrow>
    process_step behaves p (p\<lparr>p_open := before @ after, p_lost := p_lost p @ [rq]\<rparr>)"
| signalled: "p_exit p = None \<Longrightarrow> process_step behaves p (p\<lparr>p_cancelled := True\<rparr>)"
| shuts_down: "p_exit p = None \<Longrightarrow> p_cancelled p \<Longrightarrow> \<not> p_shutdown p \<Longrightarrow>
    process_step behaves p
      (p\<lparr>p_shutdown := True, p_listen := Some (case p_listen p of None \<Rightarrow> ServerClosed | Some err \<Rightarrow> err)\<rparr>)"
| closes: "p_exit p = None \<Longrightarrow> p_shutdown p \<Longrightarrow> p_open p \<noteq> [] \<Longrightarrow> process_step behaves p (p\<lparr>p_closed := True\<rparr>)"
| listen_fails: "p_exit p = None \<Longrightarrow> p_listen p = None \<Longrightarrow> process_step behaves p (p\<lparr>p_listen := Some ListenFailed\<rparr>)"
| main_returns: "p_exit p = None \<Longrightarrow> p_listen p \<noteq> None \<Longrightarrow>
    process_step behaves p
      (p\<lparr>p_exit := Some (exit_code (p_listen p) (p_cancelled p)), p_lost := p_lost p @ map fst (p_open p), p_open := []\<rparr>)"

abbreviation process_steps ::
  "(web_request \<Rightarrow> 'a list \<Rightarrow> 'p \<Rightarrow> bool) \<Rightarrow> ('a, 'p) process \<Rightarrow> ('a, 'p) process \<Rightarrow> bool" where
  "process_steps behaves \<equiv> (process_step behaves)\<^sup>*\<^sup>*"

text \<open>
  What \<open>runHTTP\<close> serves, the handlers of the multiplexer, and what serving a request may ask the cluster
  for with the debug tools: \<open>start out\<close> is what \<open>main\<close> starts where the cluster answers as \<open>out\<close> tells. The
  cluster may answer each request of the server in a way of its own, and the group cache it finds is any: both
  depend on what the others do in the meantime.
\<close>

definition http_served ::
  "('e, 'q) config_env \<Rightarrow> ('s, 'e) DebugServer option \<Rightarrow> (duration \<Rightarrow> bool) \<Rightarrow> string \<Rightarrow> (header \<Rightarrow> 'c \<Rightarrow> ('m \<times> 'c) option) \<Rightarrow>
   (('s, 'e) debugTool mcpServer \<Rightarrow> header \<Rightarrow> 's \<Rightarrow> ('r \<times> 's) option) \<Rightarrow> web_request \<Rightarrow> 'c \<times> 's \<Rightarrow>
   (('m, 'r) webReply \<times> 'c \<times> 's) option" where
  "http_served env dbg probe ver mcp inner rq = serveHTTP env dbg probe ver mcp inner (fst rq) (snd rq)"

definition http_behaves ::
  "(('e, 'q) outside \<Rightarrow> ('k, ('q runner, 'e) DebugServer option) startup) \<Rightarrow> ('e, 'q) config_env \<Rightarrow> (duration \<Rightarrow> bool) \<Rightarrow> string \<Rightarrow>
   (header \<Rightarrow> 'c \<Rightarrow> ('m \<times> 'c) option) \<Rightarrow>
   (('q runner, 'e) debugTool mcpServer \<Rightarrow> header \<Rightarrow> 'q runner \<Rightarrow> ('r \<times> 'q runner) option) \<Rightarrow>
   web_request \<Rightarrow> 'q call list \<Rightarrow> ('m, 'r) webReply \<Rightarrow> bool" where
  "http_behaves start env probe ver mcp inner rq calls reply \<longleftrightarrow>
     (\<exists>out c dbg hs st st'. start out = Http c dbg hs \<and>
        http_served env dbg probe ver mcp inner rq st = Some (reply, st') \<and>
        r_trace (snd st') = r_trace (snd st) @ calls)"

subsection \<open>What holds in every state\<close>

text \<open>
  The states of the server: \<open>Shutdown\<close> only after a signal, with the listener closed, the connections
  closed only after that; and an exit whose code tells why.
\<close>

definition process_ok :: "('a, 'p) process \<Rightarrow> bool" where
  "process_ok p \<longleftrightarrow>
     (p_shutdown p \<longrightarrow> p_cancelled p \<and> p_listen p \<noteq> None) \<and> (p_closed p \<longrightarrow> p_shutdown p) \<and>
     (p_listen p = Some ServerClosed \<longrightarrow> p_shutdown p) \<and>
     (case p_exit p of None \<Rightarrow> True | Some code \<Rightarrow> p_open p = [] \<and> code = exit_code (p_listen p) (p_cancelled p) \<and> p_listen p \<noteq> None)"

lemma process_ok_new: "process_ok (new_process calls)"
  by (simp add: process_ok_def new_process_def)

lemma process_ok_step: "process_step behaves p p' \<Longrightarrow> process_ok p \<Longrightarrow> process_ok p'"
  by (induction rule: process_step.induct) (auto simp: process_ok_def split: option.splits)

lemma process_ok_steps: "process_steps behaves p p' \<Longrightarrow> process_ok p \<Longrightarrow> process_ok p'"
  by (induction rule: rtranclp_induct) (auto intro: process_ok_step)

text \<open>
  The exit code tells how the server ended: it is 0 only after a signal, and 1 only when the
  listener failed by itself and no signal had come; before the exit a listener is closed by \<open>Shutdown\<close> only
  after a signal.
\<close>

theorem exit_code_tells:
  assumes "process_steps behaves (new_process calls) p" and "p_exit p = Some code"
  shows "code = 0 \<and> p_cancelled p \<or> code = 1 \<and> \<not> p_cancelled p \<and> \<not> p_shutdown p \<and> p_listen p = Some ListenFailed"
proof -
  have ok: "process_ok p" using process_ok_steps [OF assms(1) process_ok_new] .
  have "p_listen p = Some ServerClosed \<or> p_listen p = Some ListenFailed"
    using ok assms(2) by (cases "p_listen p"; cases "the (p_listen p)") (simp_all add: process_ok_def)
  with ok assms(2) show ?thesis by (auto simp: process_ok_def exit_code_def)
qed

subsection \<open>Requests the shutdown does not wait for\<close>

abbreviation waiting :: "web_request list \<Rightarrow> (web_request \<times> ('a, 'p) work) list" where
  "waiting rqs \<equiv> map (\<lambda>rq. (rq, Waiting)) rqs"

lemma requests_arrive:
  assumes "p_exit p = None" and "p_listen p = None"
  shows "process_steps behaves p (p\<lparr>p_open := p_open p @ waiting rqs\<rparr>)"
proof (induction rqs rule: rev_induct)
  case (snoc rq rqs)
  have "process_step behaves (p\<lparr>p_open := p_open p @ waiting rqs\<rparr>)
      (p\<lparr>p_open := p_open p @ waiting rqs, p_open := (p_open p @ waiting rqs) @ [(rq, Waiting)]\<rparr>)"
    using arrives [of "p\<lparr>p_open := p_open p @ waiting rqs\<rparr>"] assms by simp
  with snoc.IH show ?case by (simp add: rtranclp.rtrancl_into_rtrancl)
qed simp

text \<open>A request alone gets as far as it likes.\<close>

lemma request_works:
  "p_exit p = None \<Longrightarrow> process_steps behaves (p\<lparr>p_open := [(rq, Working (calls @ rest) reply)]\<rparr>)
    (p\<lparr>p_open := [(rq, Working rest reply)], p_calls := p_calls p @ calls\<rparr>)"
proof (induction calls arbitrary: p)
  case (Cons call calls)
  let ?p1 = "p\<lparr>p_calls := p_calls p @ [call]\<rparr>"
  have e: "p\<lparr>p_open := [(rq, Working ((call # calls) @ rest) reply)], p_open := [(rq, Working (calls @ rest) reply)],
      p_calls := p_calls p @ [call]\<rparr> = ?p1\<lparr>p_open := [(rq, Working (calls @ rest) reply)]\<rparr>" by simp
  have "process_step behaves (p\<lparr>p_open := [(rq, Working ((call # calls) @ rest) reply)]\<rparr>)
      (?p1\<lparr>p_open := [(rq, Working (calls @ rest) reply)]\<rparr>)"
    using works [of "p\<lparr>p_open := [(rq, Working ((call # calls) @ rest) reply)]\<rparr>" "[]" rq call "calls @ rest" reply "[]" behaves]
      Cons.prems unfolding e [symmetric] by simp
  also have "process_steps behaves (?p1\<lparr>p_open := [(rq, Working (calls @ rest) reply)]\<rparr>)
      (?p1\<lparr>p_open := [(rq, Working rest reply)], p_calls := p_calls ?p1 @ calls\<rparr>)"
    using Cons.IH [of ?p1] Cons.prems by simp
  also have "?p1\<lparr>p_open := [(rq, Working rest reply)], p_calls := p_calls ?p1 @ calls\<rparr> =
      p\<lparr>p_open := [(rq, Working rest reply)], p_calls := p_calls p @ call # calls\<rparr>" by simp
  finally show ?case .
qed simp

text \<open>
  C36. A graceful shutdown is not awaited: whatever requests are open when a signal comes, the process can
  exit with code 0 before any of them is answered or even started, the ten seconds for them unused: \<open>Shutdown\<close> makes
  \<open>ListenAndServe\<close> return at once, and \<open>main\<close> returns with it.
\<close>

theorem shutdown_not_awaited:
  "\<exists>p. process_steps behaves (new_process calls) p \<and> p_shutdown p \<and> \<not> p_closed p \<and> p_exit p = Some 0 \<and>
     p_answered p = [] \<and> p_lost p = rqs \<and> p_calls p = calls"
proof -
  let ?p1 = "(new_process calls)\<lparr>p_open := waiting rqs\<rparr>"
  let ?p2 = "?p1\<lparr>p_cancelled := True\<rparr>"
  let ?p3 = "?p2\<lparr>p_shutdown := True, p_listen := Some ServerClosed\<rparr>"
  let ?p4 = "?p3\<lparr>p_exit := Some 0, p_lost := rqs, p_open := []\<rparr>"
  have "process_steps behaves (new_process calls) ?p1"
    using requests_arrive [of "new_process calls" behaves rqs] by (simp add: new_process_def)
  also have "process_step behaves ?p1 ?p2" by (rule signalled) (simp add: new_process_def)
  also have "process_step behaves ?p2 ?p3" using shuts_down [of ?p2 behaves] by (simp add: new_process_def)
  also have "process_step behaves ?p3 ?p4"
    using main_returns [of ?p3 behaves] by (simp add: new_process_def exit_code_def o_def)
  finally show ?thesis by (intro exI [of _ ?p4]) (simp add: new_process_def)
qed

subsection \<open>Everything the process does to the cluster\<close>

definition requested :: "('a, 'p) process \<Rightarrow> web_request set" where
  "requested p = fst ` set (p_open p) \<union> fst ` set (p_answered p) \<union> set (p_lost p)"

text \<open>
  A request to the cluster is justified by one the server got: on \<open>/debug/mcp\<close>, with the token, naming a person, and
  it is impersonated as that person or is the list of the groups, which the server reads with its own access
  to act for that person; and the endpoint was enabled.
\<close>

definition justified :: "('e, 'q) config_env \<Rightarrow> web_request set \<Rightarrow> 'q call \<Rightarrow> bool" where
  "justified env rqs call \<longleftrightarrow>
     getenv env ''DEBUG_POD_ENABLED'' = ''true'' \<and> 32 \<le> length (getenv env ''DEBUG_POD_TOKEN'') \<and>
     (\<exists>h. (''/debug/mcp'', h) \<in> rqs \<and> header_get h ''Authorization'' = ''Bearer '' @ getenv env ''DEBUG_POD_TOKEN'' \<and>
       person (header_user (Some h)) \<and>
       (call = FetchGroups \<or> call_user call = Some (trim_space (header_user (Some h)))))"

lemma justified_mono: "justified env rqs call \<Longrightarrow> rqs \<subseteq> rqs' \<Longrightarrow> justified env rqs' call"
  by (auto simp: justified_def)

definition main_http ::
  "('e, 'r, 'cs, 'dyn) client_library \<Rightarrow> k8s_env \<Rightarrow> ('e, 'q) config_env \<Rightarrow> string \<Rightarrow> flags \<Rightarrow> ('e, 'q) outside \<Rightarrow>
   (('r, 'cs, 'dyn) client, ('q runner, 'e) DebugServer option) startup" where
  "main_http lib kenv env ver fl out = main_start lib kenv env ver (\<lambda>_. out) fl"

text \<open>Serving a request makes justified requests to the cluster only, if any.\<close>

lemma behaves_justified:
  assumes "hands_calls_over decode marshal txt inner"
    and "http_behaves (main_http lib kenv env ver fl) env probe ver mcp inner rq calls reply"
  shows "list_all (justified env {rq}) calls"
proof -
  obtain out c dbg hs st st' where start: "main_http lib kenv env ver fl out = Http c dbg hs"
    and served: "http_served env dbg probe ver mcp inner rq st = Some (reply, st')"
    and calls: "r_trace (snd st') = r_trace (snd st) @ calls"
    using assms(2) unfolding http_behaves_def by blast
  have "debugServer env ver out = Inr dbg"
    using start by (auto simp: main_http_def main_start_def split: sum.splits if_splits)
  note acts = request_acts [OF this assms(1) served [unfolded http_served_def]]
  show ?thesis
  proof (cases "snd st' = snd st")
    case False
    with acts calls show ?thesis
      by (cases rq) (auto simp: justified_def acts_as_def call_by_def list_all_iff)
  qed (use calls in simp)
qed

definition all_justified :: "('e, 'q) config_env \<Rightarrow> ('q call, 'p) process \<Rightarrow> bool" where
  "all_justified env p \<longleftrightarrow>
     list_all (justified env (requested p)) (p_calls p) \<and>
     (\<forall>rq calls reply. (rq, Working calls reply) \<in> set (p_open p) \<longrightarrow> list_all (justified env {rq}) calls)"

lemma justified_calls_mono: "list_all (justified env rqs) calls \<Longrightarrow> rqs \<subseteq> rqs' \<Longrightarrow> list_all (justified env rqs') calls"
  by (auto simp: list_all_iff intro: justified_mono)

lemma all_justified_step:
  assumes "process_step behaves p p'" and "all_justified env p"
    and b: "\<And>rq calls reply. behaves rq calls reply \<Longrightarrow> list_all (justified env {rq}) calls"
  shows "all_justified env p'"
proof -
  have made: "list_all (justified env (requested p)) (p_calls p)"
    and todo: "(rq, Working calls reply) \<in> set (p_open p) \<Longrightarrow> list_all (justified env {rq}) calls" for rq calls reply
    using assms(2) unfolding all_justified_def by blast+
  from assms(1) show ?thesis
  proof (cases rule: process_step.cases)
    case (starts before rq after calls reply)
    have "requested p' = requested p" using starts by (simp add: requested_def)
    with starts made todo b [OF starts(4)] show ?thesis by (auto simp: all_justified_def)
  next
    case (works before rq call calls reply after)
    have "list_all (justified env {rq}) (call # calls)" by (rule todo [of rq _ reply]) (simp add: works(3))
    moreover have r: "requested p' = requested p" "rq \<in> requested p" using works by (simp_all add: requested_def)
    ultimately have "justified env (requested p') call" "list_all (justified env {rq}) calls"
      by (auto intro: justified_mono)
    moreover have "list_all (justified env {rq'}) calls'" if "(rq', Working calls' reply') \<in> set (p_open p')" for rq' calls' reply'
    proof (cases "(rq', Working calls' reply') \<in> set (p_open p)")
      case False
      then have "rq' = rq" "calls' = calls" using that works(1,3) by auto
      with calculation(2) show ?thesis by simp
    qed (rule todo)
    ultimately show ?thesis using r(1) made works(1) by (simp add: all_justified_def)
  qed (auto simp: all_justified_def requested_def intro: justified_calls_mono [OF made] todo)
qed

text \<open>
  C5. Over the whole life of the process, whatever requests arrive, however their work is interleaved, and
  wherever it is stopped: every request a debug tool has made to the cluster goes back to a request the
  server got on \<open>/debug/mcp\<close> that carried the configured token and named a person, and it is impersonated as
  that person, but for the list of the groups, which the server reads with its own access on behalf
  of such a request; nothing is done for anybody else, and nothing at all where the endpoint is not enabled.
\<close>

theorem process_acts_for_named_persons:
  assumes "hands_calls_over decode marshal txt inner"
    and "process_steps (http_behaves (main_http lib kenv env ver fl) env probe ver mcp inner) (new_process []) p"
  shows "list_all (justified env (requested p)) (p_calls p)"
proof -
  have "all_justified env p"
    using assms(2)
  proof (induction rule: rtranclp_induct)
    case base
    show ?case by (simp add: all_justified_def new_process_def)
  next
    case (step y z)
    show ?case by (rule all_justified_step [OF step.hyps(2) step.IH]) (rule behaves_justified [OF assms(1)])
  qed
  then show ?thesis by (simp add: all_justified_def)
qed

subsection \<open>Start and configuration\<close>

text \<open>
  C28. The program starts the HTTP server only on a complete configuration: its client was made with the configured
  limits, the variables of the debug pods were read without any error even where the endpoint is off, and the
  endpoint exists exactly where it was enabled, then with an image, a positive life time and a token of at least 32
  characters. Over stdin and stdout there is no debug endpoint, whatever its variables hold.
\<close>

theorem main_start_complete:
  "case main_start lib kenv env ver reach fl of
     ExitNow code \<Rightarrow> code = 1 \<and> \<not> (\<exists>c. New_client lib kenv None = Inr c \<and>
       (fl_mcp fl \<or> snd (ConfigFromEnv env) = [] \<and>
         (getenv env ''DEBUG_POD_ENABLED'' = ''true'' \<longrightarrow> 32 \<le> length (getenv env ''DEBUG_POD_TOKEN''))))
   | Stdio c \<Rightarrow> fl_mcp fl \<and> New_client lib kenv None = Inr c
   | Http c dbg hs \<Rightarrow>
       \<not> fl_mcp fl \<and> New_client lib kenv None = Inr c \<and> snd (ConfigFromEnv env) = [] \<and> hs_Addr hs = fl_http_addr fl \<and>
       (case dbg of
          None \<Rightarrow> getenv env ''DEBUG_POD_ENABLED'' \<noteq> ''true''
        | Some s \<Rightarrow> getenv env ''DEBUG_POD_ENABLED'' = ''true'' \<and> cfg_Image (fst (ConfigFromEnv env)) \<noteq> [] \<and>
            0 < cfg_Lifetime (fst (ConfigFromEnv env)) \<and> 32 \<le> length (ds_token s) \<and>
            s = NewDebugServer ver (runner_of (fst (ConfigFromEnv env)) (reach c)) (getenv env ''DEBUG_POD_TOKEN''))"
proof -
  obtain cfg errs where c: "ConfigFromEnv env = (cfg, errs)" by (rule prod.exhaust)
  have e: "cfg_Enabled cfg \<longleftrightarrow> getenv env ''DEBUG_POD_ENABLED'' = ''true''"
    using c by (auto simp: ConfigFromEnv_def Let_def case_prod_beta)
  have i: "errs = [] \<Longrightarrow> cfg_Enabled cfg \<Longrightarrow> cfg_Image cfg \<noteq> [] \<and> 0 < cfg_Lifetime cfg"
    using c config_image [of env] config_positive(1) [of env] by (auto simp: e)
  show ?thesis
    by (auto simp: main_start_def New_client_from_env debugServer_def c e i [unfolded e] Let_def http_server_def split: sum.split)
qed

subsection \<open>Samples\<close>

theorem exit_code_tells_witness:
  "\<exists>p. process_steps (\<lambda>rq calls reply. calls = [()] \<and> reply) (new_process []) p \<and> p_exit p = Some 1 \<and> \<not> p_cancelled p"
proof -
  let ?p1 = "(new_process [])\<lparr>p_listen := Some ListenFailed\<rparr>"
  let ?p2 = "?p1\<lparr>p_exit := Some 1\<rparr>"
  let ?serve = "\<lambda>(rq :: web_request) calls reply. calls = [()] \<and> reply"
  have "process_step ?serve (new_process []) ?p1" by (rule listen_fails) (simp_all add: new_process_def)
  then have "process_steps ?serve (new_process []) ?p1" ..
  also have "process_step ?serve ?p1 ?p2"
    using main_returns [of ?p1 ?serve] by (simp add: new_process_def exit_code_def)
  finally have s: "process_steps ?serve (new_process []) ?p2" .
  have "p_exit ?p2 = Some 1" by simp
  from exit_code_tells [OF s this] s show ?thesis by (intro exI [of _ ?p2]) simp
qed

definition debug_request :: web_request where
  "debug_request = (''/debug/mcp'', token_header)"

definition sample_main ::
  "((unit, bool, bool) client, (nat runner, string) DebugServer option) startup" where
  "sample_main = main_start sample_library sample_k8s_env command_env ''dev'' (\<lambda>_. sample_outside) default_flags"

lemma sample_main_http:
  "\<exists>c cfg. sample_main = Http c
     (Some (NewDebugServer ''dev'' (runner_of cfg sample_outside) (replicate 40 (CHR ''t'')))) (http_server '':8080'')"
proof -
  obtain c where "New_client sample_library sample_k8s_env None = Inr c" using sample_client by blast
  then show ?thesis
    using sample_debugServer by (auto simp: sample_main_def main_start_def default_flags_def New_client_from_env)
qed

theorem main_start_complete_witness:
  "\<exists>c s hs. sample_main = Http c (Some s) hs \<and> 32 \<le> length (ds_token s) \<and> hs_Addr hs = '':8080''"
proof -
  obtain c cfg where h: "sample_main = Http c
      (Some (NewDebugServer ''dev'' (runner_of cfg sample_outside) (replicate 40 (CHR ''t'')))) (http_server '':8080'')"
    using sample_main_http by blast
  have "32 \<le> length (getenv command_env ''DEBUG_POD_TOKEN'')" by (simp add: command_env_def)
  then show ?thesis
    using main_start_complete [where lib = sample_library and kenv = sample_k8s_env and env = command_env
        and ver = "''dev''" and reach = "\<lambda>_. sample_outside" and fl = default_flags]
    unfolding sample_main_def [symmetric] h by (simp add: default_flags_def)
qed

lemma sample_list_pods:
  "\<exists>rows st' cs. List_pods sample_outside ''ann'' ns New_runner = (Inr rows, st') \<and>
     ListPods cs ns (LabelDebug @ ''=true'') \<in> set (r_trace st')"
proof -
  obtain cs st1 where "caller sample_outside ''ann'' New_runner = (Inr cs, st1)" using sample_caller by blast
  then show ?thesis by (auto simp: List_pods_def sample_outside_def)
qed

theorem process_acts_for_named_persons_witness:
  "\<exists>p cs. process_steps (http_behaves (main_http sample_library sample_k8s_env command_env ''dev'' default_flags) command_env
       (\<lambda>_. True) ''dev'' (\<lambda>h (c :: unit). Some ((), c)) sample_inner) (new_process []) p \<and>
     ListPods cs [] (LabelDebug @ ''=true'') \<in> set (p_calls p) \<and> list_all (justified command_env {debug_request}) (p_calls p)"
proof -
  obtain c cfg where h: "sample_main = Http c
      (Some (NewDebugServer ''dev'' (runner_of cfg sample_outside) (replicate 40 (CHR ''t'')))) (http_server '':8080'')"
    using sample_main_http by blast
  let ?dbg = "Some (NewDebugServer ''dev'' (runner_of cfg sample_outside) (replicate 40 (CHR ''t'')))"
  let ?start = "main_http sample_library sample_k8s_env command_env ''dev'' default_flags"
  let ?mcp = "\<lambda>h (c :: unit). Some ((), c)"
  let ?behaves = "http_behaves ?start command_env (\<lambda>_. True) ''dev'' ?mcp sample_inner"
  have u: "header_user (Some token_header) = ''ann''" by code_simp
  have g: "header_get token_header ''Authorization'' = ''Bearer '' @ replicate 40 (CHR ''t'')" by code_simp
  obtain rows st' cs where l: "List_pods sample_outside ''ann'' [] New_runner = (Inr rows, st')"
    and call: "ListPods cs [] (LabelDebug @ ''=true'') \<in> set (r_trace st')"
    using sample_list_pods [of "[]"] by blast
  obtain reply where sv: "http_served command_env ?dbg (\<lambda>_. True) ''dev'' ?mcp sample_inner debug_request
      ((), New_runner) = Some (reply, (), st')"
    using l g u
    by (simp add: http_served_def debug_request_def serveHTTP_def debug_path_clean HTTPHandler_def sample_inner_def
        debugTools_def debug_call_def tool_debug_pod_list_def run_list_def arg_str_def)
  have behaves: "?behaves debug_request (r_trace st') reply"
    unfolding http_behaves_def using h sv
    by (intro exI [of _ sample_outside] exI [of _ c] exI [of _ ?dbg] exI [of _ "http_server '':8080''"]
        exI [of _ "((), New_runner)"] exI [of _ "((), st')"])
      (simp add: sample_main_def main_http_def New_runner_def)
  define b where "b = ?behaves"
  let ?n = "new_process [] :: (nat call, (unit, callResult) webReply) process"
  let ?p1 = "?n\<lparr>p_open := [(debug_request, Waiting)]\<rparr>"
  let ?p2 = "?n\<lparr>p_open := [(debug_request, Working (r_trace st') reply)]\<rparr>"
  let ?p3 = "?n\<lparr>p_open := [(debug_request, Working [] reply)], p_calls := r_trace st'\<rparr>"
  have s1: "process_steps b ?n ?p1"
    using requests_arrive [of ?n b "[debug_request]"] by (simp add: new_process_def)
  have s2: "process_step b ?p1 ?p2"
    using starts [of ?p1 "[]" debug_request "[]" b "r_trace st'" reply] behaves by (simp add: new_process_def b_def)
  have s3: "process_steps b ?p2 ?p3"
    using request_works [of ?n b debug_request "r_trace st'" "[]"] by (simp add: new_process_def)
  have s: "process_steps b ?n ?p3" using rtranclp_trans [OF rtranclp.rtrancl_into_rtrancl [OF s1 s2] s3] .
  have "hands_calls_over (\<lambda>_. []) (\<lambda>_. Inr ''[]'') id sample_inner"
    using sample_inner_calls by (auto simp: hands_calls_over_def)
  from process_acts_for_named_persons [OF this s [unfolded b_def]]
  have "list_all (justified command_env {debug_request}) (r_trace st')"
    by (simp add: requested_def new_process_def)
  then have "list_all (justified command_env {debug_request}) (p_calls ?p3)"
    and "ListPods cs [] (LabelDebug @ ''=true'') \<in> set (p_calls ?p3)" using call by simp_all
  with s [unfolded b_def] show ?thesis by (intro exI [of _ ?p3] exI [of _ cs] conjI)
qed

end
