(* ===== verification/Spec2Isabelle.thy ===== *)
theory Spec2Isabelle
  imports Tool_Server Redact_Props Audit_Props Debug_Server Policies_Props Reads_Props Tool_Catalogue
    Mcp_Server K8s_Client Command Concurrent_Server Process
begin

text \<open>
  \<^bold>\<open>A verification of the OpenShift observability server openshift-mcp.\<close>

  The program (\<open>src/\<close>, Go) is a server of the Model Context Protocol. Its tools read a Kubernetes
  cluster and return JSON: a tool call is decoded, answered from a short-lived result cache or by a
  handler that lists or gets objects of the cluster, and credentials are replaced in whole objects
  before they leave the server. A second, token-protected endpoint starts and drives debug pods as
  the user a request names.

  \<^bold>\<open>Parts, theories and sources.\<close>

  \<^item> \<open>Result_Cache\<close>: \<open>internal/mcp/cache.go\<close>, the LRU cache with expiry. The state is the Go
    structure, a map from keys to list elements and the order of the elements, with the elements in
    a heap; \<open>cache_get\<close>, \<open>cache_put\<close>, \<open>removeElement\<close>, the eviction loop \<open>evict\<close> and
    \<open>cache_do\<close> are the methods. The locale \<open>lru_store\<close> is the contract of such a cache against an
    abstract list of entries, interpreted on these definitions (\<open>rc\<close>).
  \<^item> \<open>Concurrent_Calls\<close>: \<open>do\<close> of the same file under concurrent calls. A goroutine is at one of the points
    between the operations that hold a lock (\<open>phase\<close>); one operation is one step (\<open>call_step\<close>), and any
    goroutine may move next. \<open>calls_ok\<close> is the invariant.
  \<^item> \<open>Redact\<close> and \<open>Redact_Props\<close>: \<open>internal/mcp/redact.go\<close>, the walk over a decoded object
    (\<open>redactMap\<close>, \<open>redactSlice\<close>), the name rules (\<open>sensitiveKey\<close>) and the credentials inside a
    string (\<open>redactFlag\<close>, \<open>redactURL\<close>). \<open>redact_value\<close> is the reference definition; the locale
    \<open>redactor\<close> is what the generic read relies on, interpreted on \<open>redactObject\<close> (\<open>rd\<close>).
  \<^item> \<open>Read_Api\<close>, \<open>Workload_Reads\<close>, \<open>Cluster_Reads\<close>, \<open>Resource_Reads\<close> and \<open>Reads_Props\<close>:
    \<open>internal/mcp/handlers.go\<close>, the read-only tools. \<open>Read_Api\<close> has the objects the handlers read
    and the record \<open>read_api\<close> of the calls they make; the next three have one definition per
    handler (\<open>handleListPods\<close>, \<open>handleGetService\<close>, \<open>handleGetResource\<close>, and so on).
  \<^item> \<open>Policies\<close> and \<open>Policies_Props\<close>: \<open>internal/mcp/policy.go\<close>, the two tools that answer which
    admission rules an object is subject to (\<open>handleListPolicies\<close>) and what the policy reports say
    (\<open>handleListPolicyReports\<close>). \<open>block_selects\<close> and \<open>subject_to\<close> are the reference meaning of
    match and exclude blocks on a given object.
  \<^item> \<open>Tool_Schemas\<close> and \<open>Tool_Catalogue\<close>: \<open>internal/mcp/tools.go\<close>, the builders of schemas;
    name, schema and handler of every tool.
  \<^item> \<open>Mcp_Server\<close>: \<open>NewServer\<close> of \<open>internal/mcp/server.go\<close>, the catalogue behind the cache, and
    sequences of calls on a cluster that changes. \<open>Concurrent_Server\<close> puts the tools behind the steps of
    \<open>Concurrent_Calls\<close>. \<open>Instructions\<close> has the texts both servers give to a client.
  \<^item> \<open>K8s_Client\<close>: \<open>internal/k8s/client.go\<close>, the settings and the construction of the clients.
  \<^item> \<open>Command\<close>: \<open>cmd/openshift-mcp/main.go\<close>, the debug endpoint's set-up (\<open>debugServer\<close>) and the
    routing of HTTP requests (\<open>serveHTTP\<close>), with the cache of the read-only tools and the runner of the debug
    pods as its state.
  \<^item> \<open>Process\<close>: \<open>main\<close> and \<open>runHTTP\<close> of the same file. \<open>main_start\<close> is what the command starts from its
    flags and its environment; \<open>process_step\<close> is the life of the HTTP server: requests served side by side, each of
    their requests to the cluster a step, the signal, the shutdown, a failing listener and the exit.
  \<^item> \<open>K8s_List\<close>: \<open>internal/k8s/list.go\<close>, \<open>ListPages\<close> and \<open>ListCustom\<close>. The inductive
    predicate \<open>served\<close> says what a paged server serves, request after request, so that a token may be answered
    differently later; the locale \<open>page_reader\<close> is the contract
    every list of the program relies on, interpreted on \<open>readPages\<close> (\<open>pages\<close>).
  \<^item> \<open>Debug_Pod\<close> and \<open>Debug_Pod_Props\<close>: \<open>internal/debugpod/debugpod.go\<close>, the runner of debug
    pods: group cache, caller identity, Job, waiting, exec, finish, list and the bounded buffer.
  \<^item> \<open>Debug_Server\<close>: \<open>internal/mcp/debug.go\<close>, the four debug tools over the runner interface,
    the user header and the bearer token. The locale \<open>debug_runner\<close> is the contract of the Go
    interface \<open>debugRunner\<close>, interpreted on the runner's operations (\<open>dbg\<close>).
  \<^item> \<open>Disruption_Audit\<close> and \<open>Audit_Props\<close>: \<open>internal/mcp/audit.go\<close>, the disruption audit and the teams.
    \<open>run_group\<close> is the group of tasks the audit waits for, of which one that fails ends the others.
  \<^item> \<open>Debug_Config\<close>: \<open>ConfigFromEnv\<close> of \<open>internal/debugpod/debugpod.go\<close>.
  \<^item> \<open>Mcp_Args\<close> and \<open>Tool_Server\<close>: the argument getters and the call of a tool through the
    result cache, \<open>internal/mcp/server.go\<close>.
  \<^item> \<open>Go_Prelude\<close>, \<open>Go_Strings\<close>, \<open>Go_Values\<close>, \<open>Go_Time\<close>, \<open>Go_Float\<close>, \<open>Go_Json\<close>, \<open>Go_Path\<close>,
    \<open>Net_Url\<close>, \<open>Kube_Api\<close>: what the program uses of the Go language and library (strings,
    decoded JSON and \<open>json.Marshal\<close>, durations and their conversion to \<open>float64\<close>, sorting,
    \<open>filepath.Match\<close>, \<open>net/url\<close>), errors, and the fields it reads of Kubernetes objects.

  \<^bold>\<open>How state and effects are modelled.\<close> Methods that change an object take and return its
  state. Pointers are indices into a heap where aliasing matters (cache elements, PDBs, workloads).
  A fallible call returns a sum with the error on the left; wrapped errors keep what they wrap. A
  loop that may not end (\<open>evict\<close> with a negative bound, \<open>listFrom\<close>, \<open>waitRunning\<close>) is a partial
  function into an option, and that it returns is a theorem of its own; no fuel is used. The
  cluster, the clock, \<open>errgroup\<close>, \<open>singleflight\<close> and the Kubernetes libraries are not part of
  the repository: they are parameters (for the runner functions of the trace of the requests made so
  far, so that replies may change). What is relied on of them is a hypothesis with a name:
  \<open>wait_ok\<close> (the error of a failed group is that of one of its failing tasks), \<open>pod_comes_up\<close> (the pod of the Job
  runs before the waiting for it is over, and no event tells of a failure), \<open>done_in_the_end\<close> (a \<open>select\<close> does not
  take the tick for ever when Done is ready), \<open>keeps_to_tail\<close> (the API server answers with the number of log lines
  asked for at most), \<open>plain_refs\<close> and \<open>plain_workloads\<close> (the owners of a pod are in its namespace, and no kind
  or name has a slash in it), \<open>pem_consumes\<close> (decoding a PEM block leaves a shorter rest), \<open>hands_calls_over\<close> (the MCP
  library calls the tools of a server with the headers of the request). Where Go leaves an order open (visiting a
  map) it is an argument of the model, and a theorem says what does not depend on it.

  \<^bold>\<open>What is shown.\<close>

  \<^item> Cache: it computes exactly an LRU list with expiry, never exceeds its bound, serves only the
    last stored value while it is fresh, keeps recently used entries, memoises successful calls and
    never errors, and its insertion returns unless the bound is negative.
  \<^item> The server as a whole: no sequence of calls to its tools tells anything about the credentials in an
    object \<open>get_resource\<close> reads or about a private key \<open>list_certificates\<close> reads, provided that what the other
    tools read does not have them (the check of a policy is printed as it is, and so are logs); every
    answer is this call's own error or a text that the same tool with the same arguments gave at
    most five seconds before. Under any interleaving of concurrent requests that still holds, the five
    seconds counted up to the instant the flight that gives the answer looked at it (a call that waits for
    a flight adds the time the flight still takes); no two handlers run for one key, and a call is held up by
    nothing but the handler of its own key: where that one may still return, so may the call.
  \<^item> The process: everything a debug tool does to the cluster, from the start of the process to its exit, goes
    back to a request on \<open>/debug/mcp\<close> with the token that named a person, and is done as that person, but for the
    list of the groups, which the server reads with its own access to act for such a person; that holds for
    any interleaving of the requests and wherever the exit cuts them off. The server starts only on a complete configuration; the exit code tells how it ended. One theorem shows a
    defect: the process exits without waiting for the shutdown it began, so open requests are lost.
  \<^item> Tool calls: identical calls share one rendered result while it is fresh, other calls never do;
    a tool reads only the arguments its schema declares, at the declared types; the catalogue is
    well formed.
  \<^item> Redaction: every credential position of an object holds the marker, every other position is
    kept, objects that differ in credentials only become equal, the count is exact; the passwords of
    plain URLs and the values of sensitive flags are hidden. Two theorems show limits of the code: a
    URL with a character its parser rejects, and string elements of a list.
  \<^item> Reads: no credential and no private key is in an answer, and answers do not depend on them;
    requests are bounded, and so are logs, in bytes and in lines; the summary of a pod says what its containers say; the two service
    tools agree on ready endpoints; certificates are read to the end; ages are exact up to the
    rounding of \<open>float64\<close>, which is stated.
  \<^item> Policies: a rule an object may be subject to is never hidden, whatever its undecidable
    conditions mean; where all conditions are decided the answer is exact. Namespace patterns are
    matched as the reference matcher does, \<open>filepath.Match\<close> is its glob grammar, and the answer
    does not show the names of other namespaces. The rules are listed with the enforced first, the
    report counts everything and shows the worst first. One theorem shows a limit of the code: with no kind
    asked, an exclude block for one kind hides a rule that applies to another.
  \<^item> Lists: no page is lost, the order is kept, the first error is returned, progress gives
    termination; custom resources use the first served version.
  \<^item> Debug pods: commands run only in a running debug pod the caller started, every request is
    impersonated as the caller but the first of an operation where the cached groups have expired, the list of the
    groups, system users are refused before any request, a created pod belongs to
    its requester only, starting ends, finds the pod when it comes up without a failure and reports a running pod, the
    output is bounded exactly, the groups of a user are those that list the user. The endpoint acts
    only for the holder of the token and as the user named in the header; no other path of the
    server reaches it, and it is there only where it was enabled with a
    token of 32 characters.
  \<^item> Audit: the scan records exactly the owners and overlaps, the owners of a PDB are one entry for each owner,
    sorted, whatever the order a map is visited in, but for the API version of an owner that is no listed workload,
    which a theorem shows to depend on that order (a defect), the engine is the longest keyword, read replicas are paired with the master of
    their release, a report is made from complete lists only and has the namespaces it mentions.
  \<^item> Clients: the limits are positive whatever the environment holds; a named configuration is used.

  \<^bold>\<open>What is not modelled.\<close> The MCP library with its two transports, which hands a call to the tool it
  names (an HTTP request on \<open>/debug/mcp\<close> is any number of calls of the debug tools with its headers), logging, the
  parsing of the flags, and the sockets; of \<open>net/http\<close> what it documents of \<open>ListenAndServe\<close>, \<open>Shutdown\<close>
  and \<open>Close\<close> is part of \<open>process_step\<close>, its time limits are only data. Reading the arguments from JSON and
  writing an answer as indented JSON, PEM and X.509 parsing, label selectors, quantities and the
  accessors of unstructured objects are parameters. In the router,
  percent escapes of a path are not decoded. A handler reads the clock once, where the code calls
  \<open>time.Now\<close> for each object of an answer, and \<open>sort.Slice\<close> is a stable sort. Concurrency is modelled where the
  code synchronises: every method that holds the mutex for its whole body is one step, and the order of
  the steps is arbitrary; the operations of the runner share the group cache only, which each of them reads once, and
  in the life of the process the replies of the cluster and the group cache one request finds are arbitrary, so they
  may be those of a cluster and a cache others change at the same time. A handler that panics inside a flight is not
  modelled.
\<close>

end
